(* ===== verification/Prelude.thy ===== *)
theory Prelude
  imports Main "HOL-Library.Word" "HOL-Library.Monad_Syntax"
begin

text \<open>
  Generic material shared by the components: Rust's fixed-width integers with their
  checked and unchecked operators, conversions between widths, and the sums over lists and
  finite maps that the share, vote and support-area invariants are stated with.
\<close>

named_theorems rust_arith \<open>characterisations of the integer operators over naturals\<close>
named_theorems rust_eval \<open>equations that evaluate the integer operators on numerals\<close>

type_synonym u8 = "8 word"
type_synonym u32 = "32 word"
type_synonym u64 = "64 word"
type_synonym u128 = "128 word"

section \<open>Checked integer operators\<close>

text \<open>
  The methods \<open>checked_add\<close>, \<open>checked_sub\<close>, \<open>checked_mul\<close> and \<open>checked_div\<close> of Rust's
  unsigned integers: \<open>None\<close> when the mathematical result does not fit the type.
\<close>

definition checked_add :: "'a::len word \<Rightarrow> 'a word \<Rightarrow> 'a word option" where
  "checked_add a b = (if unat a + unat b < 2 ^ LENGTH('a) then Some (a + b) else None)"

definition checked_sub :: "'a::len word \<Rightarrow> 'a word \<Rightarrow> 'a word option" where
  "checked_sub a b = (if b \<le> a then Some (a - b) else None)"

definition checked_mul :: "'a::len word \<Rightarrow> 'a word \<Rightarrow> 'a word option" where
  "checked_mul a b = (if unat a * unat b < 2 ^ LENGTH('a) then Some (a * b) else None)"

definition checked_div :: "'a::len word \<Rightarrow> 'a word \<Rightarrow> 'a word option" where
  "checked_div a b = (if b = 0 then None else Some (a div b))"

text \<open>
  The plain operators \<open>+\<close>, \<open>-\<close> and \<open>*\<close>. Whether they check for overflow is decided by the
  build profile: with \<open>overflow-checks\<close> (the default of debug builds) an overflow panics,
  without (the default of release builds) the result wraps around. The profile is the first
  argument; \<open>None\<close> is the panic.
\<close>

definition plain_add :: "bool \<Rightarrow> 'a::len word \<Rightarrow> 'a word \<Rightarrow> 'a word option" where
  "plain_add checks a b = (if checks then checked_add a b else Some (a + b))"

definition plain_sub :: "bool \<Rightarrow> 'a::len word \<Rightarrow> 'a word \<Rightarrow> 'a word option" where
  "plain_sub checks a b = (if checks then checked_sub a b else Some (a - b))"

text \<open>The conversion \<open>TryInto\<close> between unsigned integers: \<open>None\<close> when the value is too large.\<close>

definition try_into :: "'a::len word \<Rightarrow> 'b::len word option" where
  "try_into a = (if unat a < 2 ^ LENGTH('b) then Some (ucast a) else None)"

lemma unat_add_fits:
  fixes a b :: "'a::len word"
  shows "unat a + unat b < 2 ^ LENGTH('a) \<Longrightarrow> unat (a + b) = unat a + unat b"
  by (simp add: unat_word_ariths)

lemma unat_mult_fits:
  fixes a b :: "'a::len word"
  shows "unat a * unat b < 2 ^ LENGTH('a) \<Longrightarrow> unat (a * b) = unat a * unat b"
  by (simp add: unat_word_ariths)

lemma unat_sub_le:
  fixes a b :: "'a::len word"
  shows "b \<le> a \<Longrightarrow> unat (a - b) = unat a - unat b"
  by (simp add: unat_sub)

lemma unat_lt: "unat (a :: 'a::len word) < 2 ^ LENGTH('a)"
  by (rule unsigned_less)

lemma word_of_fitting:
  assumes "n < 2 ^ LENGTH('a::len)"
  obtains w :: "'a::len word" where "unat w = n"
proof -
  have "unat (of_nat n :: 'a word) = n"
    using assms by (simp add: unat_of_nat)
  then show thesis by (rule that)
qed

lemma checked_add_Some [rust_arith]:
  fixes a b c :: "'a::len word"
  shows "checked_add a b = Some c \<longleftrightarrow> unat c = unat a + unat b"
proof
  assume "checked_add a b = Some c"
  then show "unat c = unat a + unat b"
    by (auto simp: checked_add_def unat_add_fits split: if_splits)
next
  assume eq: "unat c = unat a + unat b"
  then have fits: "unat a + unat b < 2 ^ LENGTH('a)"
    by (metis unat_lt)
  with eq have "c = a + b"
    by (simp add: word_unat_eq_iff unat_add_fits)
  with fits show "checked_add a b = Some c"
    by (simp add: checked_add_def)
qed

lemma checked_add_None [rust_arith]:
  fixes a b :: "'a::len word"
  shows "checked_add a b = None \<longleftrightarrow> 2 ^ LENGTH('a) \<le> unat a + unat b"
  by (auto simp: checked_add_def)

lemma checked_sub_Some [rust_arith]:
  fixes a b c :: "'a::len word"
  shows "checked_sub a b = Some c \<longleftrightarrow> unat a = unat b + unat c"
proof
  assume "checked_sub a b = Some c"
  then show "unat a = unat b + unat c"
    by (auto simp: checked_sub_def unat_sub_le word_le_nat_alt split: if_splits)
next
  assume eq: "unat a = unat b + unat c"
  then have le: "b \<le> a" by (simp add: word_le_nat_alt)
  with eq have "c = a - b" by (simp add: word_unat_eq_iff unat_sub_le)
  with le show "checked_sub a b = Some c" by (simp add: checked_sub_def)
qed

lemma checked_sub_None [rust_arith]:
  "checked_sub a b = None \<longleftrightarrow> unat a < unat b"
  by (auto simp: checked_sub_def word_le_nat_alt)

lemma checked_mul_Some [rust_arith]:
  fixes a b c :: "'a::len word"
  shows "checked_mul a b = Some c \<longleftrightarrow> unat c = unat a * unat b"
proof
  assume "checked_mul a b = Some c"
  then show "unat c = unat a * unat b"
    by (auto simp: checked_mul_def unat_mult_fits split: if_splits)
next
  assume eq: "unat c = unat a * unat b"
  then have fits: "unat a * unat b < 2 ^ LENGTH('a)"
    by (metis unat_lt)
  with eq have "c = a * b"
    by (simp add: word_unat_eq_iff unat_mult_fits)
  with fits show "checked_mul a b = Some c"
    by (simp add: checked_mul_def)
qed

lemma checked_mul_None [rust_arith]:
  fixes a b :: "'a::len word"
  shows "checked_mul a b = None \<longleftrightarrow> 2 ^ LENGTH('a) \<le> unat a * unat b"
  by (auto simp: checked_mul_def)

lemma checked_div_Some [rust_arith]:
  fixes a b c :: "'a::len word"
  shows "checked_div a b = Some c \<longleftrightarrow> b \<noteq> 0 \<and> unat c = unat a div unat b"
  by (auto simp: checked_div_def unat_div word_unat_eq_iff)

lemma checked_div_None [rust_arith]:
  "checked_div a b = None \<longleftrightarrow> b = 0"
  by (simp add: checked_div_def)

lemma plain_sub_fits:
  "unat b \<le> unat a \<Longrightarrow> plain_sub checks a b = Some (a - b)"
  by (simp add: plain_sub_def checked_sub_def word_le_nat_alt)

lemma plain_add_fits:
  fixes a b :: "'a::len word"
  shows "unat a + unat b < 2 ^ LENGTH('a) \<Longrightarrow> plain_add checks a b = Some (a + b)"
  by (simp add: plain_add_def checked_add_def)

lemma plain_add_value: "plain_add checks a b = Some c \<Longrightarrow> c = a + b"
  by (auto simp: plain_add_def checked_add_def split: if_splits)

lemma try_into_widen [simp]:
  "LENGTH('a) \<le> LENGTH('b) \<Longrightarrow> (try_into (a :: 'a::len word) :: 'b::len word option) = Some (ucast a)"
  using less_le_trans [OF unat_lt [of a] power_increasing [of "LENGTH('a)" "LENGTH('b)" "2::nat"]]
  by (simp add: try_into_def)

lemma try_into_Some [rust_arith]:
  fixes a :: "'a::len word" and c :: "'b::len word"
  shows "try_into a = Some c \<longleftrightarrow> unat c = unat a"
proof
  assume "try_into a = Some c"
  then show "unat c = unat a"
    by (auto simp: try_into_def unsigned_ucast_eq take_bit_nat_eq_self split: if_splits)
next
  assume eq: "unat c = unat a"
  then have fits: "unat a < 2 ^ LENGTH('b)" by (metis unat_lt)
  with eq have "c = ucast a"
    by (simp add: word_unat_eq_iff unsigned_ucast_eq take_bit_nat_eq_self)
  with fits show "try_into a = Some c" by (simp add: try_into_def)
qed

lemmas rust_defs [rust_eval] =
  checked_add_def checked_sub_def checked_mul_def checked_div_def
  plain_add_def plain_sub_def

section \<open>Sums over lists and over finite maps\<close>

lemma sum_list_map_update:
  fixes f :: "'a \<Rightarrow> nat"
  assumes "i < length xs"
  shows "sum_list (map f (xs[i := x])) + f (xs ! i) = sum_list (map f xs) + f x"
  using assms
proof (induction xs arbitrary: i)
  case Nil
  then show ?case by simp
next
  case (Cons y ys)
  then show ?case by (cases i) (auto simp: algebra_simps)
qed

lemma sum_list_map_nth_le:
  fixes f :: "'a \<Rightarrow> nat"
  assumes "i < length xs"
  shows "f (xs ! i) \<le> sum_list (map f xs)"
  using assms by (intro member_le_sum_list) auto

lemma sorted_wrt_update:
  assumes "sorted_wrt R xs" and "i < length xs"
    and "\<And>j. j < i \<Longrightarrow> R (xs ! j) x"
    and "\<And>j. i < j \<Longrightarrow> j < length xs \<Longrightarrow> R x (xs ! j)"
  shows "sorted_wrt R (xs[i := x])"
  unfolding sorted_wrt_iff_nth_less
proof (intro allI impI)
  fix k l assume kl: "k < l" "l < length (xs[i := x])"
  then have "R (xs ! k) (xs ! l)"
    using assms(1) by (simp add: sorted_wrt_iff_nth_less)
  with kl assms(2-4) show "R (xs[i := x] ! k) (xs[i := x] ! l)"
    by (cases "k = i"; cases "l = i") auto
qed

end
