(* ===== verification/Frame.thy ===== *)
theory Frame
  imports Prelude
begin

text \<open>
  The part of the FRAME framework that both pallets are written against: the outcome of a
  dispatchable, origins, storage maps, the configuration supplied by the runtime, and the
  contract that every pallet of this repository keeps towards the block executor.

  The currency (pallet_balances), the clock (pallet_timestamp), the hashing and the derivation
  of module accounts are not part of the repository. They are parameters, collected in the
  record \<open>frame\<close>; what the pallets rely on is the predicate \<open>lawful_currency\<close>.
\<close>

section \<open>Outcomes of a dispatchable\<close>

text \<open>
  A dispatchable returns \<open>Ok(())\<close>, returns an error, or panics. The pallets run without
  \<open>#[transactional]\<close>, so whatever was written before an error is returned stays written: the
  \<open>Err\<close> outcome carries the storage as it stands at the return. A panic aborts the execution of
  the extrinsic and leaves no state.
\<close>

datatype 'e dispatch_error = BadOrigin | Module 'e

datatype ('e, 's) outcome = Ok 's | Err "'e dispatch_error" 's | Panic

text \<open>\<open>ensure!(cond, error)\<close> and \<open>.unwrap()\<close>; \<open>k\<close> is the rest of the function.\<close>

definition ensure :: "bool \<Rightarrow> 'e \<Rightarrow> 's \<Rightarrow> ('e, 's) outcome \<Rightarrow> ('e, 's) outcome" where
  "ensure cond e s k = (if cond then k else Err (Module e) s)"

definition unwrap :: "'a option \<Rightarrow> ('a \<Rightarrow> ('e, 's) outcome) \<Rightarrow> ('e, 's) outcome" where
  "unwrap x k = (case x of None \<Rightarrow> Panic | Some v \<Rightarrow> k v)"

lemma ensure_Ok [simp]: "ensure c e s k = Ok t \<longleftrightarrow> c \<and> k = Ok t"
  by (simp add: ensure_def)

lemma ensure_Err [simp]:
  "ensure c e s k = Err d t \<longleftrightarrow> (if c then k = Err d t else d = Module e \<and> t = s)"
  by (auto simp: ensure_def)

lemma ensure_Panic [simp]: "ensure c e s k = Panic \<longleftrightarrow> c \<and> k = Panic"
  by (simp add: ensure_def)

lemma unwrap_Some [simp]: "unwrap (Some v) k = k v"
  by (simp add: unwrap_def)

lemma unwrap_None [simp]: "unwrap None k = Panic"
  by (simp add: unwrap_def)

lemma unwrap_Ok: "unwrap x k = Ok t \<longleftrightarrow> (\<exists>v. x = Some v \<and> k v = Ok t)"
  by (cases x) auto

lemma unwrap_Err: "unwrap x k = Err d t \<longleftrightarrow> (\<exists>v. x = Some v \<and> k v = Err d t)"
  by (cases x) auto

lemma unwrap_Panic: "unwrap x k = Panic \<longleftrightarrow> (\<forall>v. x = Some v \<longrightarrow> k v = Panic)"
  by (cases x) auto

lemmas outcome_simps = unwrap_Ok unwrap_Err unwrap_Panic

text \<open>Sequencing of a fallible part of a function with the rest of it.\<close>

definition and_then :: "('e, 's) outcome \<Rightarrow> ('s \<Rightarrow> ('e, 's) outcome) \<Rightarrow> ('e, 's) outcome" where
  "and_then r k = (case r of Ok s \<Rightarrow> k s | Err e s \<Rightarrow> Err e s | Panic \<Rightarrow> Panic)"

lemma and_then_Ok: "and_then r k = Ok t \<longleftrightarrow> (\<exists>s. r = Ok s \<and> k s = Ok t)"
  by (cases r) (auto simp: and_then_def)

lemma and_then_Err:
  "and_then r k = Err e t \<longleftrightarrow> r = Err e t \<or> (\<exists>s. r = Ok s \<and> k s = Err e t)"
  by (cases r) (auto simp: and_then_def)

lemma and_then_Panic: "and_then r k = Panic \<longleftrightarrow> r = Panic \<or> (\<exists>s. r = Ok s \<and> k s = Panic)"
  by (cases r) (auto simp: and_then_def)

section \<open>Origins\<close>

datatype 'acc origin = Root | Signed 'acc | Unsigned

definition ensure_signed ::
  "'acc origin \<Rightarrow> 's \<Rightarrow> ('acc \<Rightarrow> ('e, 's) outcome) \<Rightarrow> ('e, 's) outcome" where
  "ensure_signed origin s k =
     (case origin of Signed who \<Rightarrow> k who | Root \<Rightarrow> Err BadOrigin s | Unsigned \<Rightarrow> Err BadOrigin s)"

lemma ensure_signed_Signed [simp]: "ensure_signed (Signed who) s k = k who"
  by (simp add: ensure_signed_def)

lemma ensure_signed_Ok:
  "ensure_signed origin s k = Ok t \<longleftrightarrow> (\<exists>who. origin = Signed who \<and> k who = Ok t)"
  by (cases origin) (auto simp: ensure_signed_def)

lemma ensure_signed_Err:
  "ensure_signed origin s k = Err e t \<longleftrightarrow>
     (if \<exists>who. origin = Signed who then \<exists>who. origin = Signed who \<and> k who = Err e t
      else e = BadOrigin \<and> t = s)"
  by (cases origin) (auto simp: ensure_signed_def)

lemma ensure_signed_Panic:
  "ensure_signed origin s k = Panic \<longleftrightarrow> (\<exists>who. origin = Signed who \<and> k who = Panic)"
  by (cases origin) (auto simp: ensure_signed_def)

lemmas signed_simps = ensure_signed_Ok ensure_signed_Err ensure_signed_Panic

section \<open>Storage maps\<close>

text \<open>
  A \<open>StorageMap\<close> with a \<open>ValueQuery\<close>: reading an absent key gives the default of the value
  type, and \<open>mutate\<close> writes the changed value back, so it creates a key that was absent.
\<close>

definition contains_key :: "('k \<rightharpoonup> 'v) \<Rightarrow> 'k \<Rightarrow> bool" where
  "contains_key m k = (m k \<noteq> None)"

definition map_get :: "'v \<Rightarrow> ('k \<rightharpoonup> 'v) \<Rightarrow> 'k \<Rightarrow> 'v" where
  "map_get dflt m k = (case m k of None \<Rightarrow> dflt | Some v \<Rightarrow> v)"

definition map_insert :: "('k \<rightharpoonup> 'v) \<Rightarrow> 'k \<Rightarrow> 'v \<Rightarrow> ('k \<rightharpoonup> 'v)" where
  "map_insert m k v = m(k \<mapsto> v)"

definition map_remove :: "('k \<rightharpoonup> 'v) \<Rightarrow> 'k \<Rightarrow> ('k \<rightharpoonup> 'v)" where
  "map_remove m k = m(k := None)"

definition map_mutate :: "'v \<Rightarrow> ('k \<rightharpoonup> 'v) \<Rightarrow> 'k \<Rightarrow> ('v \<Rightarrow> 'v) \<Rightarrow> ('k \<rightharpoonup> 'v)" where
  "map_mutate dflt m k f = map_insert m k (f (map_get dflt m k))"

lemmas storage_defs = contains_key_def map_get_def map_insert_def map_remove_def map_mutate_def

text \<open>
  The contract of a storage map, as its users rely on it. A \<open>weight\<close> turns the map into a
  register of quantities (shares per member, votes per voter, area per project); the two
  lemmas about \<open>total\<close> say how a write moves the sum over all keys, and carry every
  "total equals the sum of the parts" invariant of the pallets.
\<close>

locale storage_map =
  fixes contains :: "'m \<Rightarrow> 'k \<Rightarrow> bool"
    and get :: "'m \<Rightarrow> 'k \<Rightarrow> 'v"
    and put :: "'m \<Rightarrow> 'k \<Rightarrow> 'v \<Rightarrow> 'm"
    and drop_key :: "'m \<Rightarrow> 'k \<Rightarrow> 'm"
    and keys :: "'m \<Rightarrow> 'k set"
  assumes contains_keys: "contains m k \<longleftrightarrow> k \<in> keys m"
    and get_put: "get (put m k v) j = (if j = k then v else get m j)"
    and keys_put: "keys (put m k v) = insert k (keys m)"
    and keys_drop: "keys (drop_key m k) = keys m - {k}"
    and get_drop: "j \<noteq> k \<Longrightarrow> get (drop_key m k) j = get m j"
begin

definition total :: "('v \<Rightarrow> nat) \<Rightarrow> 'm \<Rightarrow> nat" where
  "total weight m = (\<Sum>k\<in>keys m. weight (get m k))"

lemma total_put:
  assumes "finite (keys m)"
  shows "total weight (put m k v) + (if contains m k then weight (get m k) else 0)
       = total weight m + weight v"
proof -
  have rest: "(\<Sum>j\<in>keys m - {k}. weight (get (put m k v) j)) = (\<Sum>j\<in>keys m - {k}. weight (get m j))"
    by (rule sum.cong) (auto simp: get_put)
  have "total weight (put m k v) = weight v + (\<Sum>j\<in>keys m - {k}. weight (get m j))"
    using assms rest by (simp add: total_def keys_put sum.insert_remove get_put)
  moreover have "total weight m = (if contains m k then weight (get m k) else 0)
      + (\<Sum>j\<in>keys m - {k}. weight (get m j))"
    using assms by (auto simp: total_def contains_keys sum.remove)
  ultimately show ?thesis by simp
qed

lemma total_put_new:
  assumes "finite (keys m)" and "\<not> contains m k"
  shows "total weight (put m k v) = total weight m + weight v"
  using total_put [OF assms(1), of weight k v] assms(2) by simp

lemma weight_le_total:
  assumes "finite (keys m)" and "contains m k"
  shows "weight (get m k) \<le> total weight m"
  using assms unfolding total_def contains_keys by (intro member_le_sum) auto

lemma finite_keys_put: "finite (keys m) \<Longrightarrow> finite (keys (put m k v))"
  by (simp add: keys_put)

end

interpretation smap: storage_map contains_key "map_get dflt" map_insert map_remove dom for dflt
  by unfold_locales (auto simp: storage_defs split: option.splits)

text \<open>The sum of a weight over the entries of a map, as the invariants of the pallets state it.\<close>

definition register_total :: "('v \<Rightarrow> nat) \<Rightarrow> ('k \<rightharpoonup> 'v) \<Rightarrow> nat" where
  "register_total weight m = (\<Sum>k\<in>dom m. weight (the (m k)))"

lemma register_total_smap: "register_total weight m = smap.total dflt weight m"
  unfolding register_total_def smap.total_def
  by (rule sum.cong) (auto simp: map_get_def)

lemma register_total_insert:
  assumes "finite (dom m)"
  shows "register_total weight (map_insert m k v) + (case m k of None \<Rightarrow> 0 | Some w \<Rightarrow> weight w)
       = register_total weight m + weight v"
  using smap.total_put [OF assms, where dflt = undefined and weight = weight and k = k and v = v]
  by (simp add: register_total_smap [where dflt = undefined] storage_defs split: option.splits if_splits)

lemma register_total_mutate_same:
  assumes "finite (dom m)" and "weight dflt = 0" and "\<And>v. weight (f v) = weight v"
  shows "register_total weight (map_mutate dflt m k f) = register_total weight m"
  using register_total_insert [OF assms(1), of weight k "f (map_get dflt m k)"] assms(2,3)
  by (simp add: map_mutate_def map_get_def split: option.splits)

lemma register_total_le:
  "finite (dom m) \<Longrightarrow> m k = Some v \<Longrightarrow> weight v \<le> register_total weight m"
  using smap.weight_le_total [where m = m and k = k and weight = weight and dflt = v]
  by (simp add: register_total_smap [where dflt = v] storage_defs)

lemma register_total_empty [simp]: "register_total weight Map.empty = 0"
  by (simp add: register_total_def)

lemma finite_dom_insert [simp]: "finite (dom (map_insert m k v)) = finite (dom m)"
  by (simp add: map_insert_def)

section \<open>The environment of a pallet\<close>

datatype existence_requirement = KeepAlive | AllowDeath

text \<open>
  The operations of the \<open>Currency\<close> trait that the pallets call, on a ledger of type \<open>'l\<close>. A
  transfer returns whether it succeeded (\<open>Ok(())\<close> or a dispatch error) and the ledger.
\<close>

record ('acc, 'l) currency =
  free_balance :: "'l \<Rightarrow> 'acc \<Rightarrow> u128"
  transfer :: "'l \<Rightarrow> 'acc \<Rightarrow> 'acc \<Rightarrow> u128 \<Rightarrow> existence_requirement \<Rightarrow> bool \<times> 'l"
  make_free_balance_be :: "'l \<Rightarrow> 'acc \<Rightarrow> u128 \<Rightarrow> 'l"
  minimum_balance :: u128

text \<open>
  What both pallets take from the runtime: the currency, the derivation of module accounts from
  a module id, the default account id, and the build profile (whether plain \<open>+\<close> and \<open>-\<close> check
  for overflow).
\<close>

record ('acc, 'l) frame =
  currency :: "('acc, 'l) currency"
  ModuleId :: string
  into_account :: "string \<Rightarrow> 'acc"
  into_sub_account :: "string \<Rightarrow> string \<Rightarrow> 'acc"
  default_account :: 'acc
  overflow_checks :: bool

text \<open>
  The documented behaviour of \<open>Currency::transfer\<close>: a failed transfer changes nothing; a
  successful one moves the amount to the destination without overflow, takes at least the
  amount from the source (exactly the amount under \<open>KeepAlive\<close>; under \<open>AllowDeath\<close> a
  remainder below the existential deposit may be removed as dust), and touches nobody else.
  Transfers to oneself change nothing. \<open>make_free_balance_be\<close> sets one balance.
\<close>

definition transfer_effect ::
  "('acc, 'l) currency \<Rightarrow> 'l \<Rightarrow> 'acc \<Rightarrow> 'acc \<Rightarrow> u128 \<Rightarrow> existence_requirement \<Rightarrow> 'l \<Rightarrow> bool" where
  "transfer_effect cur l src dst amt er l' \<longleftrightarrow>
     unat (free_balance cur l' dst) = unat (free_balance cur l dst) + unat amt \<and>
     unat (free_balance cur l' src) + unat amt \<le> unat (free_balance cur l src) \<and>
     (er = KeepAlive \<longrightarrow>
        unat (free_balance cur l' src) + unat amt = unat (free_balance cur l src)) \<and>
     (\<forall>a. a \<noteq> src \<longrightarrow> a \<noteq> dst \<longrightarrow> free_balance cur l' a = free_balance cur l a)"

definition lawful_currency :: "('acc, 'l) currency \<Rightarrow> bool" where
  "lawful_currency cur \<longleftrightarrow>
     (\<forall>l src dst amt er l'. transfer cur l src dst amt er = (False, l') \<longrightarrow> l' = l) \<and>
     (\<forall>l a amt er b l'. transfer cur l a a amt er = (b, l') \<longrightarrow> free_balance cur l' = free_balance cur l) \<and>
     (\<forall>l src dst amt er l'. transfer cur l src dst amt er = (True, l') \<longrightarrow> src \<noteq> dst \<longrightarrow>
        transfer_effect cur l src dst amt er l') \<and>
     (\<forall>l a amt b. free_balance cur (make_free_balance_be cur l a amt) b =
        (if b = a then amt else free_balance cur l b))"

text \<open>\<open>let _ = T::Currency::transfer(..)\<close>: the ledger afterwards, the result thrown away.\<close>

definition pay ::
  "('acc, 'l, 'z) frame_scheme \<Rightarrow> 'l \<Rightarrow> 'acc \<Rightarrow> 'acc \<Rightarrow> u128 \<Rightarrow> existence_requirement \<Rightarrow> 'l" where
  "pay cfg l src dst amt er = snd (transfer (currency cfg) l src dst amt er)"

abbreviation balance :: "('acc, 'l, 'z) frame_scheme \<Rightarrow> 'l \<Rightarrow> 'acc \<Rightarrow> u128" where
  "balance cfg l a \<equiv> free_balance (currency cfg) l a"

text \<open>The laws one by one, for the result of a transfer given as a pair.\<close>

lemma transfer_failed:
  assumes "lawful_currency cur" and "transfer cur l src dst amt er = (False, l')"
  shows "l' = l"
  using conjunct1 [OF assms(1) [unfolded lawful_currency_def]] assms(2) by blast

lemma transfer_self:
  assumes "lawful_currency cur" and "transfer cur l a a amt er = (b, l')"
  shows "free_balance cur l' = free_balance cur l"
  using conjunct1 [OF conjunct2 [OF assms(1) [unfolded lawful_currency_def]]] assms(2) by blast

lemma transfer_moved:
  assumes "lawful_currency cur" and "transfer cur l src dst amt er = (True, l')" and "src \<noteq> dst"
  shows "transfer_effect cur l src dst amt er l'"
  using conjunct1 [OF conjunct2 [OF conjunct2 [OF assms(1) [unfolded lawful_currency_def]]]] assms(2,3)
  by blast

lemma make_free_balance_be_balance:
  assumes "lawful_currency cur"
  shows "free_balance cur (make_free_balance_be cur l a amt) b = (if b = a then amt else free_balance cur l b)"
  using conjunct2 [OF conjunct2 [OF conjunct2 [OF assms [unfolded lawful_currency_def]]]] by blast

text \<open>A payment is a failed transfer, a transfer to oneself, or a transfer that moved the amount.\<close>

lemma pay_cases:
  assumes "lawful_currency (currency cfg)"
  obtains (failed) "pay cfg l src dst amt er = l"
  | (self) "src = dst" "free_balance (currency cfg) (pay cfg l src dst amt er) = balance cfg l"
  | (moved) "src \<noteq> dst" "transfer (currency cfg) l src dst amt er = (True, pay cfg l src dst amt er)"
proof (cases "transfer (currency cfg) l src dst amt er")
  case (Pair ok l')
  then have l': "pay cfg l src dst amt er = l'" by (simp add: pay_def)
  show thesis
  proof (cases "ok")
    case False
    with Pair have "l' = l" by (simp add: transfer_failed [OF assms])
    with l' show thesis by (intro failed) simp
  next
    case True
    show thesis
      using Pair True l' transfer_self [OF assms] self moved by (cases "src = dst") auto
  qed
qed

lemma pay_other:
  assumes "lawful_currency (currency cfg)" and "a \<noteq> src" and "a \<noteq> dst"
  shows "balance cfg (pay cfg l src dst amt er) a = balance cfg l a"
  using assms(1)
  by (cases rule: pay_cases [of cfg l src dst amt er])
    (auto dest!: transfer_moved [OF assms(1)] simp: transfer_effect_def assms(2,3))

lemma pay_self:
  assumes "lawful_currency (currency cfg)"
  shows "free_balance (currency cfg) (pay cfg l a a amt er) = free_balance (currency cfg) l"
  using assms by (cases rule: pay_cases [of cfg l a a amt er]) simp_all

lemma pay_to_le:
  assumes "lawful_currency (currency cfg)"
  shows "unat (balance cfg (pay cfg l src dst amt er) dst) \<le> unat (balance cfg l dst) + unat amt"
  using assms
  by (cases rule: pay_cases [of cfg l src dst amt er])
    (auto dest!: transfer_moved [OF assms] simp: transfer_effect_def)

lemma pay_from_le:
  assumes "lawful_currency (currency cfg)"
  shows "unat (balance cfg (pay cfg l src dst amt er) src) \<le> unat (balance cfg l src)"
  using assms
  by (cases rule: pay_cases [of cfg l src dst amt er])
    (auto dest!: transfer_moved [OF assms] simp: transfer_effect_def)

text \<open>Nobody but the source loses by a payment.\<close>

lemma pay_to_ge:
  assumes "lawful_currency (currency cfg)" and "a \<noteq> src"
  shows "unat (balance cfg l a) \<le> unat (balance cfg (pay cfg l src dst amt er) a)"
proof (cases "a = dst")
  case True
  with assms(1) show ?thesis
    by (cases rule: pay_cases [of cfg l src dst amt er])
      (auto dest!: transfer_moved [OF assms(1)] simp: transfer_effect_def)
next
  case False
  with pay_other [OF assms(1,2) False] show ?thesis by simp
qed

text \<open>Under \<open>KeepAlive\<close> a payment either moves exactly the amount or nothing.\<close>

lemma pay_keep_alive:
  assumes "lawful_currency (currency cfg)" and "src \<noteq> dst"
  shows "pay cfg l src dst amt KeepAlive = l \<or>
    (unat (balance cfg (pay cfg l src dst amt KeepAlive) dst) = unat (balance cfg l dst) + unat amt \<and>
     unat (balance cfg (pay cfg l src dst amt KeepAlive) src) + unat amt = unat (balance cfg l src))"
  using assms(1)
  by (cases rule: pay_cases [of cfg l src dst amt KeepAlive])
    (use assms(2) in \<open>auto dest!: transfer_moved [OF assms(1)] simp: transfer_effect_def\<close>)

text \<open>
  What \<open>KeepAlive\<close> is for: a transfer of a nonzero amount to somebody else only succeeds when the
  source keeps the minimum balance. Only the properties that speak of an emptied account use it.
\<close>

definition keeps_alive :: "('acc, 'l) currency \<Rightarrow> bool" where
  "keeps_alive cur \<longleftrightarrow>
     (\<forall>l src dst amt l'. transfer cur l src dst amt KeepAlive = (True, l') \<longrightarrow> amt \<noteq> 0 \<longrightarrow> src \<noteq> dst \<longrightarrow>
        minimum_balance cur \<le> free_balance cur l' src)"

lemma pay_everything:
  assumes "lawful_currency (currency cfg)" and "keeps_alive (currency cfg)"
    and "0 < minimum_balance (currency cfg)" and "src \<noteq> dst"
    and "amt = balance cfg l src" and "amt \<noteq> 0"
  shows "pay cfg l src dst amt KeepAlive = l"
  using assms(1)
proof (cases rule: pay_cases [of cfg l src dst amt KeepAlive])
  case moved
  then have "minimum_balance (currency cfg) \<le> balance cfg (pay cfg l src dst amt KeepAlive) src"
    using assms(2,4,6) unfolding keeps_alive_def by blast
  with assms(3) have "0 < unat (balance cfg (pay cfg l src dst amt KeepAlive) src)"
    by (simp add: word_less_nat_alt word_le_nat_alt)
  with pay_keep_alive [OF assms(1,4), of l amt] assms(5) show ?thesis by auto
qed (use assms(4) in simp_all)

text \<open>
  When a transfer out of an account that carries no locks succeeds: the source keeps the minimum
  balance, the destination exists, and its balance does not overflow. The accounts of the pallets
  sign no calls and so carry no locks.
\<close>

definition pays_out :: "('acc, 'l) currency \<Rightarrow> 'acc \<Rightarrow> bool" where
  "pays_out cur src \<longleftrightarrow>
     (\<forall>l dst amt. src \<noteq> dst \<longrightarrow> amt \<noteq> 0 \<longrightarrow>
        unat (minimum_balance cur) + unat amt \<le> unat (free_balance cur l src) \<longrightarrow>
        minimum_balance cur \<le> free_balance cur l dst \<longrightarrow>
        unat (free_balance cur l dst) + unat amt < 2 ^ 128 \<longrightarrow>
        fst (transfer cur l src dst amt KeepAlive))"

lemma pay_exact:
  assumes "lawful_currency (currency cfg)" and "pays_out (currency cfg) src" and "src \<noteq> dst"
    and "unat (minimum_balance (currency cfg)) + unat amt \<le> unat (balance cfg l src)"
    and "minimum_balance (currency cfg) \<le> balance cfg l dst"
    and "unat (balance cfg l dst) + unat amt < 2 ^ 128"
  defines "l' \<equiv> pay cfg l src dst amt KeepAlive"
  shows "unat (balance cfg l' a) + (if a = src then unat amt else 0) =
    unat (balance cfg l a) + (if a = dst then unat amt else 0)"
proof (cases "a = src \<or> a = dst")
  case True
  have "unat (balance cfg l' dst) = unat (balance cfg l dst) + unat amt \<and>
    unat (balance cfg l' src) + unat amt = unat (balance cfg l src)"
  proof (cases "amt = 0")
    case True
    with pay_keep_alive [OF assms(1,3), of l amt] show ?thesis by (auto simp: l'_def)
  next
    case False
    then have "fst (transfer (currency cfg) l src dst amt KeepAlive)"
      using assms(2-6) unfolding pays_out_def by blast
    then have "transfer (currency cfg) l src dst amt KeepAlive = (True, l')"
      by (simp add: l'_def pay_def prod_eq_iff)
    from transfer_moved [OF assms(1) this assms(3)] show ?thesis by (simp add: transfer_effect_def)
  qed
  with True assms(3) show ?thesis by auto
next
  case False
  with pay_other [OF assms(1), of a src dst l amt KeepAlive] show ?thesis by (simp add: l'_def)
qed

section \<open>The contract of a pallet\<close>

text \<open>
  Extrinsics are applied one after the other. An error ends the extrinsic and keeps what was
  written; a panic discards it. \<open>dispatch\<close> is the pallet's dispatch function, given a call
  together with its context (origin and block time).
\<close>

definition apply_extrinsic :: "('c \<Rightarrow> 's \<Rightarrow> ('e, 's) outcome) \<Rightarrow> 'c \<Rightarrow> 's \<Rightarrow> 's" where
  "apply_extrinsic dispatch c s = (case dispatch c s of Ok t \<Rightarrow> t | Err e t \<Rightarrow> t | Panic \<Rightarrow> s)"

fun apply_extrinsics :: "('c \<Rightarrow> 's \<Rightarrow> ('e, 's) outcome) \<Rightarrow> 'c list \<Rightarrow> 's \<Rightarrow> 's" where
  "apply_extrinsics dispatch [] s = s"
| "apply_extrinsics dispatch (c # cs) s = apply_extrinsics dispatch cs (apply_extrinsic dispatch c s)"

text \<open>Every call of a sequence is admissible in the state it is applied in.\<close>

fun admissible_run ::
  "('c \<Rightarrow> 's \<Rightarrow> ('e, 's) outcome) \<Rightarrow> ('c \<Rightarrow> 's \<Rightarrow> bool) \<Rightarrow> 'c list \<Rightarrow> 's \<Rightarrow> bool" where
  "admissible_run dispatch adm [] s \<longleftrightarrow> True"
| "admissible_run dispatch adm (c # cs) s \<longleftrightarrow>
     adm c s \<and> admissible_run dispatch adm cs (apply_extrinsic dispatch c s)"

lemma apply_extrinsics_append [simp]:
  "apply_extrinsics dispatch (cs @ ds) s = apply_extrinsics dispatch ds (apply_extrinsics dispatch cs s)"
  by (induction cs arbitrary: s) auto

lemma admissible_run_append [simp]:
  "admissible_run dispatch adm (cs @ ds) s \<longleftrightarrow>
     admissible_run dispatch adm cs s \<and> admissible_run dispatch adm ds (apply_extrinsics dispatch cs s)"
  by (induction cs arbitrary: s) auto

lemma admissible_any [simp]: "admissible_run dispatch (\<lambda>_ _. True) cs s"
  by (induction cs arbitrary: s) auto

text \<open>Calls in sequence, all of which must succeed.\<close>

fun all_ok :: "('c \<Rightarrow> 's \<Rightarrow> ('e, 's) outcome) \<Rightarrow> 'c list \<Rightarrow> 's \<Rightarrow> ('e, 's) outcome" where
  "all_ok dispatch [] s = Ok s"
| "all_ok dispatch (c # cs) s = and_then (dispatch c s) (all_ok dispatch cs)"

lemma all_ok_Cons_Ok:
  "all_ok dispatch (c # cs) s = Ok t \<longleftrightarrow> (\<exists>u. dispatch c s = Ok u \<and> all_ok dispatch cs u = Ok t)"
  by (auto simp: and_then_def split: outcome.split)

lemma all_ok_append [simp]:
  "all_ok dispatch (cs @ ds) s = and_then (all_ok dispatch cs s) (all_ok dispatch ds)"
proof (induction cs arbitrary: s)
  case (Cons c cs)
  then show ?case by (cases "dispatch c s") (simp_all add: and_then_def)
qed (simp add: and_then_def)

text \<open>
  Calls that were successful in a sequence, each with a weight: the sum of the weights. With the
  effect of a call as its weight this is a recount of a stored quantity from the calls.
\<close>

fun over_run :: "('c \<Rightarrow> 's \<Rightarrow> ('e, 's) outcome) \<Rightarrow> ('c \<Rightarrow> 'n) \<Rightarrow> 'c list \<Rightarrow> 's \<Rightarrow> 'n::comm_monoid_add" where
  "over_run dispatch weight [] s = 0"
| "over_run dispatch weight (c # cs) s =
     (case dispatch c s of Ok t \<Rightarrow> weight c | _ \<Rightarrow> 0) +
     over_run dispatch weight cs (apply_extrinsic dispatch c s)"

text \<open>The same with a weight that depends on the state the call is applied in.\<close>

fun along_run :: "('c \<Rightarrow> 's \<Rightarrow> ('e, 's) outcome) \<Rightarrow> ('c \<Rightarrow> 's \<Rightarrow> nat) \<Rightarrow> 'c list \<Rightarrow> 's \<Rightarrow> nat" where
  "along_run dispatch weight [] s = 0"
| "along_run dispatch weight (c # cs) s =
     (case dispatch c s of Ok t \<Rightarrow> weight c s | _ \<Rightarrow> 0) +
     along_run dispatch weight cs (apply_extrinsic dispatch c s)"

text \<open>
  What a pallet promises the executor: a successful admissible call keeps the invariant, and a
  call that returns an error has written nothing (checks come before writes).
\<close>

locale pallet =
  fixes dispatch :: "'c \<Rightarrow> 's \<Rightarrow> ('e, 's) outcome"
    and adm :: "'c \<Rightarrow> 's \<Rightarrow> bool"
    and inv :: "'s \<Rightarrow> bool"
  assumes dispatch_inv: "inv s \<Longrightarrow> adm c s \<Longrightarrow> dispatch c s = Ok t \<Longrightarrow> inv t"
    and dispatch_err: "dispatch c s = Err e t \<Longrightarrow> t = s"
begin

lemma apply_inv: "inv s \<Longrightarrow> adm c s \<Longrightarrow> inv (apply_extrinsic dispatch c s)"
  using dispatch_inv [of s c] dispatch_err [of c s]
  by (auto simp: apply_extrinsic_def split: outcome.split)

lemma apply_changed:
  "apply_extrinsic dispatch c s \<noteq> s \<Longrightarrow> dispatch c s = Ok (apply_extrinsic dispatch c s)"
  using dispatch_err [of c s] by (auto simp: apply_extrinsic_def split: outcome.splits)

lemma run_inv: "inv s \<Longrightarrow> admissible_run dispatch adm cs s \<Longrightarrow> inv (apply_extrinsics dispatch cs s)"
  by (induction cs arbitrary: s) (auto intro: apply_inv)

text \<open>A relation that every successful call establishes between its states holds across a run.\<close>

lemma run_relates:
  assumes refl: "\<And>s. R s s" and trans: "\<And>a b c. R a b \<Longrightarrow> R b c \<Longrightarrow> R a c"
    and step: "\<And>s c t. inv s \<Longrightarrow> adm c s \<Longrightarrow> dispatch c s = Ok t \<Longrightarrow> R s t"
    and "inv s" and "admissible_run dispatch adm cs s"
  shows "R s (apply_extrinsics dispatch cs s)"
  using assms(4,5)
proof (induction cs arbitrary: s)
  case Nil
  then show ?case by (simp add: refl)
next
  case (Cons c cs)
  let ?t = "apply_extrinsic dispatch c s"
  have "R s ?t"
    using Cons.prems step [of s c ?t] apply_changed [of c s] refl by (cases "?t = s") auto
  moreover have "R ?t (apply_extrinsics dispatch cs ?t)"
    using Cons.prems by (intro Cons.IH) (auto intro: apply_inv)
  ultimately show ?case by (auto intro: trans)
qed

text \<open>A quantity that every successful call changes by the weight of the call is recounted by the run.\<close>

lemma run_recount:
  assumes step: "\<And>s c t. inv s \<Longrightarrow> adm c s \<Longrightarrow> dispatch c s = Ok t \<Longrightarrow> f t = f s + weight c"
    and "inv s" and "admissible_run dispatch adm cs s"
  shows "f (apply_extrinsics dispatch cs s) = f s + over_run dispatch weight cs s"
  using assms(2,3)
proof (induction cs arbitrary: s)
  case (Cons c cs)
  have "f (apply_extrinsic dispatch c s) = f s + (case dispatch c s of Ok t \<Rightarrow> weight c | _ \<Rightarrow> 0)"
    using Cons.prems step [of s c] dispatch_err [of c s]
    by (auto simp: apply_extrinsic_def split: outcome.split)
  moreover have "f (apply_extrinsics dispatch cs (apply_extrinsic dispatch c s)) =
      f (apply_extrinsic dispatch c s) + over_run dispatch weight cs (apply_extrinsic dispatch c s)"
    using Cons.prems by (intro Cons.IH) (auto intro: apply_inv)
  ultimately show ?case by (simp add: add.assoc)
qed simp

text \<open>
  Debts and funds: when no call raises the debts by more than it raises the funds, apart from a
  loss that is known for each call, the funds and the losses of a run cover the debts.
\<close>

lemma run_budget:
  assumes step: "\<And>s c t. inv s \<Longrightarrow> adm c s \<Longrightarrow> dispatch c s = Ok t \<Longrightarrow>
      debts t + funds s \<le> debts s + funds t + loss c s"
    and "inv s" and "admissible_run dispatch adm cs s"
  shows "debts (apply_extrinsics dispatch cs s) + funds s
    \<le> debts s + funds (apply_extrinsics dispatch cs s) + along_run dispatch loss cs s"
  using assms(2,3)
proof (induction cs arbitrary: s)
  case (Cons c cs)
  let ?t = "apply_extrinsic dispatch c s"
  have "debts ?t + funds s \<le> debts s + funds ?t + (case dispatch c s of Ok t \<Rightarrow> loss c s | _ \<Rightarrow> 0)"
    using Cons.prems step [of s c] dispatch_err [of c s]
    by (auto simp: apply_extrinsic_def split: outcome.split)
  moreover have "debts (apply_extrinsics dispatch cs ?t) + funds ?t
      \<le> debts ?t + funds (apply_extrinsics dispatch cs ?t) + along_run dispatch loss cs ?t"
    using Cons.prems by (intro Cons.IH) (auto intro: apply_inv)
  ultimately show ?case by simp
qed simp

text \<open>What a run has brought about and was not there before is owed to one of its calls.\<close>

lemma run_origin:
  assumes step: "\<And>s c t. dispatch c s = Ok t \<Longrightarrow> P t \<Longrightarrow> P s \<or> Q c"
    and "P (apply_extrinsics dispatch cs s)"
  shows "P s \<or> (\<exists>c\<in>set cs. Q c)"
  using assms(2)
proof (induction cs arbitrary: s)
  case (Cons c cs)
  let ?t = "apply_extrinsic dispatch c s"
  from Cons consider "P ?t" | "\<exists>d\<in>set cs. Q d" by auto
  then show ?case
  proof cases
    case 1
    with step [of c s ?t] apply_changed [of c s] show ?thesis by (cases "?t = s") auto
  qed auto
qed simp

end

text \<open>
  A pallet also promises something to the accounts that have nothing to do with a call: their
  balance does not go down. \<open>concerns\<close> says which accounts a call may take from.
\<close>

locale bystander_pallet = pallet dispatch adm inv
  for dispatch :: "'c \<Rightarrow> 's \<Rightarrow> ('e, 's) outcome" and adm :: "'c \<Rightarrow> 's \<Rightarrow> bool" and inv :: "'s \<Rightarrow> bool" +
  fixes wealth :: "'s \<Rightarrow> 'a \<Rightarrow> nat"
    and concerns :: "'c \<Rightarrow> 'a \<Rightarrow> bool"
  assumes bystander: "dispatch c s = Ok t \<Longrightarrow> \<not> concerns c a \<Longrightarrow> wealth s a \<le> wealth t a"
begin

lemma apply_bystander: "\<not> concerns c a \<Longrightarrow> wealth s a \<le> wealth (apply_extrinsic dispatch c s) a"
  using bystander [of c s] apply_changed [of c s] by (cases "apply_extrinsic dispatch c s = s") auto

lemma run_bystander:
  "\<forall>c\<in>set cs. \<not> concerns c a \<Longrightarrow> wealth s a \<le> wealth (apply_extrinsics dispatch cs s) a"
proof (induction cs arbitrary: s)
  case (Cons c cs)
  have "wealth s a \<le> wealth (apply_extrinsic dispatch c s) a"
    using Cons.prems by (intro apply_bystander) simp
  also have "\<dots> \<le> wealth (apply_extrinsics dispatch (c # cs) s) a"
    using Cons.prems by (simp add: Cons.IH)
  finally show ?case .
qed simp

end

end
