(* ===== verification/Moloch_State.thy ===== *)
theory Moloch_State
  imports Frame
begin

text \<open>
  Data model of the Moloch pallet (\<open>pallets/moloch-v1/src/lib.rs\<close>): the stored structs, the
  storage items of \<open>decl_storage!\<close>, events, errors and the configuration trait. The balance
  type is the runtime's \<open>u128\<close>; \<open>usize\<close> positions in the queue are naturals.
\<close>

section \<open>Stored data\<close>

datatype Vote = Null | Yes | No

record 'acc Member =
  shares :: u128
  highest_index_yes_vote :: u128
  exists :: bool
  delegate_key :: 'acc

record 'acc Proposal =
  proposer :: 'acc
  applicant :: 'acc
  shares_requested :: u128
  starting_period :: u128
  yes_votes :: u128
  no_votes :: u128
  processed :: bool
  did_pass :: bool
  aborted :: bool
  token_tribute :: u128
  details :: "u8 list"
  max_total_shares_at_yes :: u128

section \<open>Storage, events and errors\<close>

record 'acc moloch_storage =
  TotalShares :: u128
  TotalSharesRequested :: u128
  PeriodDuration :: u32
  VotingPeriodLength :: u128
  GracePeriodLength :: u128
  AbortWindow :: u128
  ProposalDeposit :: u128
  DilutionBound :: u128
  ProcessingReward :: u128
  SummonTime :: u64
  Members :: "'acc \<rightharpoonup> 'acc Member"
  AddressOfDelegates :: "'acc \<rightharpoonup> 'acc"
  ProposalQueue :: "'acc Proposal list"
  ProposalVotes :: "u128 \<times> 'acc \<rightharpoonup> u8"
  ApplicantCustody :: "'acc \<rightharpoonup> u128"

datatype 'acc moloch_event =
    SubmitProposal u128 'acc 'acc 'acc u128 u128
  | SubmitVote u128 'acc 'acc u8
  | ProcessProposal u128 'acc 'acc u128 u128 bool
  | Ragequit 'acc u128
  | Abort u128 'acc
  | UpdateDelegateKey 'acc 'acc
  | SummonComplete 'acc u128
  | DilutionBoundExeceeds u128 u128 u128
  | CustodyBalanceOutage u128 u128
  | CustodySucceeded 'acc u128

datatype moloch_error =
    NoneValue
  | StorageOverflow
  | VotingPeriodLengthTooBig
  | DilutionBoundTooBig
  | GracePeriodLengthTooBig
  | AbortWindowTooBig
  | NoEnoughProposalDeposit
  | NoEnoughShares
  | NotMember
  | NotProposalApplicant
  | SharesOverFlow
  | ProposalNotExist
  | ProposalNotStart
  | ProposalNotReady
  | ProposalHasProcessed
  | ProposalHasAborted
  | ProposalNotProcessed
  | PreviousProposalNotProcessed
  | ProposalExpired
  | InvalidVote
  | MemberHasVoted
  | AbortWindowHasPassed
  | NoOverwriteDelegate
  | NoOverwriteMember
  | NoCustodyFound

text \<open>The world a dispatchable runs in: the pallet's storage, the ledger and the deposited events.\<close>

record ('acc, 'l) moloch = "'acc moloch_storage" +
  ledger :: 'l
  moloch_events :: "'acc moloch_event list"

type_synonym ('acc, 'l) moloch_outcome = "(moloch_error, ('acc, 'l) moloch) outcome"

section \<open>Configuration\<close>

record ('acc, 'l) moloch_config = "('acc, 'l) frame" +
  MaxVotingPeriodLength :: u128
  MaxGracePeriodLength :: u128
  MaxDilutionBound :: u128
  MaxShares :: u128

section \<open>Helpers of the module\<close>

definition moloch_account_id :: "('acc, 'l) moloch_config \<Rightarrow> 'acc" where
  "moloch_account_id cfg = into_account cfg (ModuleId cfg)"

definition custody_account :: "('acc, 'l) moloch_config \<Rightarrow> 'acc" where
  "custody_account cfg = into_sub_account cfg (ModuleId cfg) ''custody''"

definition u128_to_balance :: "u128 \<Rightarrow> u128 option" where
  "u128_to_balance cost = try_into cost"

definition balance_to_u128 :: "u128 \<Rightarrow> u128 option" where
  "balance_to_u128 amount = try_into amount"

definition get_current_period :: "u64 \<Rightarrow> ('acc, 'z) moloch_storage_scheme \<Rightarrow> u128 option" where
  "get_current_period timestamp s = do {
     now \<leftarrow> (try_into timestamp :: u128 option);
     summon_time \<leftarrow> (try_into (SummonTime s) :: u128 option);
     diff \<leftarrow> checked_sub now summon_time;
     secs \<leftarrow> checked_div diff 1000;
     checked_div secs (ucast (PeriodDuration s))
   }"

definition default_member :: "('acc, 'l, 'z) frame_scheme \<Rightarrow> 'acc Member" where
  "default_member cfg =
     \<lparr>shares = 0, highest_index_yes_vote = 0, exists = False, delegate_key = default_account cfg\<rparr>"

definition member_of :: "('acc, 'l) moloch_config \<Rightarrow> ('acc, 'l) moloch \<Rightarrow> 'acc \<Rightarrow> 'acc Member" where
  "member_of cfg s a = map_get (default_member cfg) (Members s) a"

definition delegate_of :: "('acc, 'l) moloch_config \<Rightarrow> ('acc, 'l) moloch \<Rightarrow> 'acc \<Rightarrow> 'acc" where
  "delegate_of cfg s a = map_get (default_account cfg) (AddressOfDelegates s) a"

definition custody_of :: "('acc, 'l) moloch \<Rightarrow> 'acc \<Rightarrow> u128" where
  "custody_of s a = map_get 0 (ApplicantCustody s) a"

definition deposit_event :: "'acc moloch_event \<Rightarrow> ('acc, 'l) moloch \<Rightarrow> ('acc, 'l) moloch" where
  "deposit_event e s = s\<lparr>moloch_events := moloch_events s @ [e]\<rparr>"

text \<open>\<open>let _ = T::Currency::transfer(&from, &to, amount, er)\<close> on the pallet's world.\<close>

definition send ::
  "('acc, 'l) moloch_config \<Rightarrow> 'acc \<Rightarrow> 'acc \<Rightarrow> u128 \<Rightarrow> existence_requirement
     \<Rightarrow> ('acc, 'l) moloch \<Rightarrow> ('acc, 'l) moloch" where
  "send cfg src dst amt er s = s\<lparr>ledger := pay cfg (ledger s) src dst amt er\<rparr>"

lemma u128_to_balance [simp]: "u128_to_balance x = Some x"
  by (simp add: u128_to_balance_def)

lemma balance_to_u128 [simp]: "balance_to_u128 x = Some x"
  by (simp add: balance_to_u128_def)

text \<open>
  The current period is the whole number of periods since the summoning; it panics when the
  clock is behind the summoning time or the period length is zero.
\<close>

lemma get_current_period_Some:
  "get_current_period t s = Some p \<longleftrightarrow>
     SummonTime s \<le> t \<and> PeriodDuration s \<noteq> 0 \<and>
     unat p = (unat t - unat (SummonTime s)) div 1000 div unat (PeriodDuration s)"
proof -
  have pd0: "(ucast (PeriodDuration s) :: u128) = 0 \<longleftrightarrow> PeriodDuration s = 0"
    by (simp add: word_unat_eq_iff unsigned_ucast_eq take_bit_nat_eq_self
        order_less_le_trans [OF unat_lt])
  have up: "unat (ucast x :: u128) = unat x" for x :: u64
    using try_into_Some [of x "ucast x :: u128"] by simp
  have up32: "unat (ucast x :: u128) = unat x" for x :: u32
    using try_into_Some [of x "ucast x :: u128"] by simp
  show ?thesis
    by (cases "checked_sub (ucast t :: u128) (ucast (SummonTime s))")
      (auto simp: get_current_period_def rust_arith up up32 pd0 word_le_nat_alt bind_eq_Some_conv
        checked_div_def unat_div word_unat_eq_iff)
qed

lemma get_current_period_cong [simp]:
  "get_current_period t (moloch_storage.truncate s) = get_current_period t s"
  by (simp add: get_current_period_def moloch_storage.defs)

lemma deposit_event_frame [simp]:
  "moloch_storage.truncate (deposit_event e s) = moloch_storage.truncate s"
  "ledger (deposit_event e s) = ledger s"
  by (simp_all add: deposit_event_def moloch_storage.defs)

end
