(* ===== verification/Moloch_Ops.thy ===== *)
theory Moloch_Ops
  imports Moloch_State
begin

text \<open>
  The dispatchables of the Moloch pallet, one definition per function of \<open>decl_module!\<close>, with
  the guards, writes, transfers and events in the order of the code. The first arguments are the
  configuration, the block timestamp where the function reads the clock, and the origin.
\<close>

section \<open>Genesis\<close>

definition moloch_genesis :: "('acc, 'l) moloch_config \<Rightarrow> 'l \<Rightarrow> 'l" where
  "moloch_genesis cfg l =
     (let cur = currency cfg;
          l1 = make_free_balance_be cur l (moloch_account_id cfg) (minimum_balance cur)
      in make_free_balance_be cur l1 (custody_account cfg) (minimum_balance cur))"

definition moloch_init :: "'l \<Rightarrow> ('acc, 'l) moloch" where
  "moloch_init l =
     \<lparr>TotalShares = 0, TotalSharesRequested = 0, PeriodDuration = 0, VotingPeriodLength = 0,
      GracePeriodLength = 0, AbortWindow = 0, ProposalDeposit = 0, DilutionBound = 0,
      ProcessingReward = 0, SummonTime = 0, Members = Map.empty, AddressOfDelegates = Map.empty,
      ProposalQueue = [], ProposalVotes = Map.empty, ApplicantCustody = Map.empty,
      ledger = l, moloch_events = []\<rparr>"

section \<open>Summoning and custody\<close>

definition summon ::
  "('acc, 'l) moloch_config \<Rightarrow> u64 \<Rightarrow> 'acc origin \<Rightarrow> u32 \<Rightarrow> u128 \<Rightarrow> u128 \<Rightarrow> u128 \<Rightarrow> u128
     \<Rightarrow> u128 \<Rightarrow> u128 \<Rightarrow> ('acc, 'l) moloch \<Rightarrow> ('acc, 'l) moloch_outcome" where
  "summon cfg now origin period_duration voting_period_length grace_period_length abort_window
       dilution_bound proposal_deposit processing_reward s =
     ensure_signed origin s (\<lambda>who.
     ensure (voting_period_length \<le> MaxVotingPeriodLength cfg) VotingPeriodLengthTooBig s (
     ensure (grace_period_length \<le> MaxGracePeriodLength cfg) GracePeriodLengthTooBig s (
     ensure (dilution_bound \<le> MaxDilutionBound cfg) DilutionBoundTooBig s (
     ensure (abort_window \<le> voting_period_length) AbortWindowTooBig s (
     ensure (processing_reward \<le> proposal_deposit) NoEnoughProposalDeposit s (
     let member = \<lparr>shares = 1, highest_index_yes_vote = 0, exists = True, delegate_key = who\<rparr>;
         s1 = s\<lparr>SummonTime := now, PeriodDuration := period_duration,
                VotingPeriodLength := voting_period_length,
                GracePeriodLength := grace_period_length, AbortWindow := abort_window,
                DilutionBound := dilution_bound, ProposalDeposit := proposal_deposit,
                ProcessingReward := processing_reward,
                Members := map_insert (Members s) who member,
                AddressOfDelegates := map_insert (AddressOfDelegates s) who who,
                TotalShares := 1\<rparr>
     in Ok (deposit_event (SummonComplete who 1) s1)))))))"

definition custody ::
  "('acc, 'l) moloch_config \<Rightarrow> 'acc origin \<Rightarrow> u128 \<Rightarrow> ('acc, 'l) moloch
     \<Rightarrow> ('acc, 'l) moloch_outcome" where
  "custody cfg origin tribute s =
     ensure_signed origin s (\<lambda>who.
     let s1 = send cfg who (custody_account cfg) tribute KeepAlive s;
         s2 = s1\<lparr>ApplicantCustody := map_insert (ApplicantCustody s1) who tribute\<rparr>
     in Ok (deposit_event (CustodySucceeded who tribute) s2))"

section \<open>Proposing\<close>

text \<open>The starting period of the last proposal in the queue, zero when there is none.\<close>

definition proposal_period :: "'acc Proposal list \<Rightarrow> u128" where
  "proposal_period queue =
     (if length queue = 0 then 0 else starting_period (queue ! (length queue - 1)))"

definition submit_proposal ::
  "('acc, 'l) moloch_config \<Rightarrow> u64 \<Rightarrow> 'acc origin \<Rightarrow> 'acc \<Rightarrow> u128 \<Rightarrow> u128 \<Rightarrow> u8 list
     \<Rightarrow> ('acc, 'l) moloch \<Rightarrow> ('acc, 'l) moloch_outcome" where
  "submit_proposal cfg now origin candidate tribute requested info s =
     ensure_signed origin s (\<lambda>who.
     ensure (contains_key (AddressOfDelegates s) who) NotMember s (
     let delegate = delegate_of cfg s who in
     ensure (0 < shares (member_of cfg s delegate)) NoEnoughShares s (
     unwrap (checked_add (TotalSharesRequested s) requested) (\<lambda>total_requested.
     unwrap (checked_add (TotalShares s) total_requested) (\<lambda>future_shares.
     ensure (future_shares \<le> MaxShares cfg) SharesOverFlow s (
     let custody_balance = balance cfg (ledger s) (custody_account cfg) in
     ensure (contains_key (ApplicantCustody s) candidate \<and> tribute \<le> custody_balance)
       NoCustodyFound s (
     let s1 = s\<lparr>TotalSharesRequested := total_requested\<rparr>;
         s2 = send cfg who (moloch_account_id cfg) (ProposalDeposit s1) KeepAlive s1;
         queue = ProposalQueue s2 in
     unwrap (get_current_period now s2) (\<lambda>period.
     unwrap (checked_add (max (proposal_period queue) period) 1) (\<lambda>start.
     unwrap (balance_to_u128 tribute) (\<lambda>tribute_num.
     let proposal =
           \<lparr>proposer = delegate, applicant = candidate, shares_requested = requested,
            starting_period = start, yes_votes = 0, no_votes = 0, processed = False,
            did_pass = False, aborted = False, token_tribute = tribute_num, details = info,
            max_total_shares_at_yes = 0\<rparr>;
         s3 = s2\<lparr>ProposalQueue := queue @ [proposal]\<rparr>;
         proposal_index = of_nat (length (ProposalQueue s3) - 1)
     in Ok (deposit_event
              (SubmitProposal proposal_index who delegate candidate tribute_num requested) s3)))))))))))"

section \<open>Voting\<close>

definition vote_of :: "u8 \<Rightarrow> Vote" where
  "vote_of vote_unit = (if vote_unit = 1 then Yes else if vote_unit = 2 then No else Null)"

text \<open>The change of the proposal by one vote; \<open>None\<close> when a tally overflows.\<close>

definition count_vote ::
  "Vote \<Rightarrow> u128 \<Rightarrow> u128 \<Rightarrow> 'acc Proposal \<Rightarrow> 'acc Proposal option" where
  "count_vote vote weight total_shares p =
     (case vote of
        Yes \<Rightarrow> map_option (\<lambda>y. p\<lparr>yes_votes := y,
                 max_total_shares_at_yes :=
                   (if max_total_shares_at_yes p < total_shares then total_shares
                    else max_total_shares_at_yes p)\<rparr>)
               (checked_add (yes_votes p) weight)
      | No \<Rightarrow> map_option (\<lambda>n. p\<lparr>no_votes := n\<rparr>) (checked_add (no_votes p) weight)
      | Null \<Rightarrow> Some p)"

definition submit_vote ::
  "('acc, 'l) moloch_config \<Rightarrow> u64 \<Rightarrow> 'acc origin \<Rightarrow> u128 \<Rightarrow> u8
     \<Rightarrow> ('acc, 'l) moloch \<Rightarrow> ('acc, 'l) moloch_outcome" where
  "submit_vote cfg now origin proposal_index vote_unit s =
     ensure_signed origin s (\<lambda>who.
     ensure (contains_key (AddressOfDelegates s) who) NotMember s (
     let delegate = delegate_of cfg s who; member = member_of cfg s delegate in
     ensure (0 < shares member) NoEnoughShares s (
     ensure (unat proposal_index < length (ProposalQueue s)) ProposalNotExist s (
     let i = unat proposal_index; proposal = ProposalQueue s ! i in
     ensure (vote_unit < 3 \<and> 0 < vote_unit) InvalidVote s (
     unwrap (get_current_period now s) (\<lambda>period.
     ensure (starting_period proposal \<le> period) ProposalNotStart s (
     unwrap (plain_add (overflow_checks cfg) (VotingPeriodLength s) (starting_period proposal)) (\<lambda>expiry.
     ensure (period < expiry) ProposalExpired s (
     ensure (\<not> contains_key (ProposalVotes s) (proposal_index, delegate)) MemberHasVoted s (
     ensure (\<not> aborted proposal) ProposalHasAborted s (
     let vote = vote_of vote_unit in
     unwrap (count_vote vote (shares member) (TotalShares s) proposal) (\<lambda>counted.
     let s1 = s\<lparr>ProposalVotes := map_insert (ProposalVotes s) (proposal_index, delegate) vote_unit,
                Members :=
                  (if vote = Yes \<and> highest_index_yes_vote member < proposal_index
                   then map_mutate (default_member cfg) (Members s) delegate
                          (\<lambda>mem. mem\<lparr>highest_index_yes_vote := proposal_index\<rparr>)
                   else Members s),
                ProposalQueue := (ProposalQueue s)[i := counted]\<rparr>
     in Ok (deposit_event (SubmitVote proposal_index who delegate vote_unit) s1)))))))))))))"

section \<open>Processing\<close>

text \<open>
  The change of the member register when a proposal passes: an existing member's shares grow;
  otherwise a delegate key that happens to be the applicant's account is handed back to its
  member, and the applicant becomes a member. \<open>None\<close> is the panic of the share addition.
\<close>

definition admit_applicant ::
  "('acc, 'l) moloch_config \<Rightarrow> 'acc Proposal \<Rightarrow> ('acc, 'l) moloch \<Rightarrow> ('acc, 'l) moloch option" where
  "admit_applicant cfg p s =
     (let a = applicant p in
      if contains_key (Members s) a then
        map_option (\<lambda>n. s\<lparr>Members := map_mutate (default_member cfg) (Members s) a
                                   (\<lambda>mem. mem\<lparr>shares := n\<rparr>)\<rparr>)
          (checked_add (shares (member_of cfg s a)) (shares_requested p))
      else
        let s1 = (if contains_key (AddressOfDelegates s) a then
                    let delegate = delegate_of cfg s a in
                    s\<lparr>Members := map_mutate (default_member cfg) (Members s) delegate
                         (\<lambda>mem. mem\<lparr>delegate_key := delegate\<rparr>),
                      AddressOfDelegates := map_insert (AddressOfDelegates s) delegate delegate\<rparr>
                  else s);
            member = \<lparr>shares = shares_requested p, highest_index_yes_vote = 0, exists = True,
                      delegate_key = a\<rparr>
        in Some (s1\<lparr>Members := map_insert (Members s1) a member,
                    AddressOfDelegates := map_insert (AddressOfDelegates s1) a a\<rparr>))"

text \<open>The passed branch: admission, minting, the tribute to the guild bank, the custody record.\<close>

definition settle_passed ::
  "('acc, 'l) moloch_config \<Rightarrow> 'acc Proposal \<Rightarrow> u128 \<Rightarrow> ('acc, 'l) moloch
     \<Rightarrow> ('acc, 'l) moloch option" where
  "settle_passed cfg p tribute s = do {
     s1 \<leftarrow> admit_applicant cfg p s;
     total \<leftarrow> checked_add (TotalShares s1) (shares_requested p);
     let s2 = send cfg (custody_account cfg) (moloch_account_id cfg) tribute AllowDeath
                (s1\<lparr>TotalShares := total\<rparr>);
     rest \<leftarrow> plain_sub (overflow_checks cfg) (custody_of s2 (applicant p)) tribute;
     Some (s2\<lparr>ApplicantCustody := map_insert (ApplicantCustody s2) (applicant p) rest\<rparr>)
   }"

text \<open>The failed branch: the tribute back to the applicant, the custody record.\<close>

definition settle_failed ::
  "('acc, 'l) moloch_config \<Rightarrow> 'acc Proposal \<Rightarrow> u128 \<Rightarrow> ('acc, 'l) moloch
     \<Rightarrow> ('acc, 'l) moloch option" where
  "settle_failed cfg p tribute s = do {
     let s1 = send cfg (custody_account cfg) (applicant p) tribute AllowDeath s;
     rest \<leftarrow> plain_sub (overflow_checks cfg) (custody_of s1 (applicant p)) tribute;
     Some (s1\<lparr>ApplicantCustody := map_insert (ApplicantCustody s1) (applicant p) rest\<rparr>)
   }"

text \<open>The two vetoes of the vote's outcome: the dilution bound and missing custody.\<close>

definition dilution_exceeded :: "u128 \<Rightarrow> 'acc Proposal \<Rightarrow> bool" where
  "dilution_exceeded bound p \<longleftrightarrow> bound < max_total_shares_at_yes p"

definition custody_outage ::
  "('acc, 'l) moloch_config \<Rightarrow> 'acc Proposal \<Rightarrow> u128 \<Rightarrow> ('acc, 'l) moloch \<Rightarrow> bool" where
  "custody_outage cfg p tribute s \<longleftrightarrow>
     \<not> contains_key (ApplicantCustody s) (applicant p) \<or>
     balance cfg (ledger s) (custody_account cfg) < tribute"

text \<open>Whether the proposal passed, with the events that report a veto.\<close>

definition vote_outcome ::
  "('acc, 'l) moloch_config \<Rightarrow> 'acc Proposal \<Rightarrow> u128 \<Rightarrow> u128 \<Rightarrow> ('acc, 'l) moloch
     \<Rightarrow> bool \<times> ('acc, 'l) moloch" where
  "vote_outcome cfg p tribute bound s =
     (let s1 = (if dilution_exceeded bound p
                then deposit_event (DilutionBoundExeceeds (TotalShares s) (DilutionBound s)
                       (max_total_shares_at_yes p)) s
                else s);
          outage = custody_outage cfg p tribute s1;
          s2 = (if outage
                then deposit_event (CustodyBalanceOutage
                       (balance cfg (ledger s1) (custody_account cfg)) tribute) s1
                else s1)
      in (no_votes p < yes_votes p \<and> \<not> dilution_exceeded bound p \<and> \<not> outage, s2))"

text \<open>The body of \<open>process_proposal\<close> after its guards.\<close>

definition process_checked ::
  "('acc, 'l) moloch_config \<Rightarrow> 'acc \<Rightarrow> u128 \<Rightarrow> ('acc, 'l) moloch \<Rightarrow> ('acc, 'l) moloch_outcome" where
  "process_checked cfg who proposal_index s =
     (let i = unat proposal_index; p = (ProposalQueue s ! i)\<lparr>processed := True\<rparr> in
     unwrap (checked_sub (TotalSharesRequested s) (shares_requested p)) (\<lambda>total_requested.
     let s1 = s\<lparr>TotalSharesRequested := total_requested\<rparr> in
     unwrap (u128_to_balance (token_tribute p)) (\<lambda>tribute.
     unwrap (checked_mul (TotalShares s1) (DilutionBound s1)) (\<lambda>bound.
     let (passed, s3) = vote_outcome cfg p tribute bound s1;
         granted = (passed \<and> \<not> aborted p);
         p' = (if granted then p\<lparr>did_pass := True\<rparr> else p) in
     unwrap (if granted then settle_passed cfg p' tribute s3 else settle_failed cfg p' tribute s3)
       (\<lambda>s4.
     let s5 = s4\<lparr>ProposalQueue := (ProposalQueue s4)[i := p']\<rparr>;
         s6 = send cfg (moloch_account_id cfg) who (ProcessingReward s5) KeepAlive s5 in
     unwrap (plain_sub (overflow_checks cfg) (ProposalDeposit s6) (ProcessingReward s6)) (\<lambda>rest.
     let s7 = send cfg (moloch_account_id cfg) (proposer p') rest KeepAlive s6
     in Ok (deposit_event (ProcessProposal proposal_index (applicant p') (proposer p')
              (token_tribute p') (shares_requested p') passed) s7)))))))"

definition process_proposal ::
  "('acc, 'l) moloch_config \<Rightarrow> u64 \<Rightarrow> 'acc origin \<Rightarrow> u128
     \<Rightarrow> ('acc, 'l) moloch \<Rightarrow> ('acc, 'l) moloch_outcome" where
  "process_proposal cfg now origin proposal_index s =
     ensure_signed origin s (\<lambda>who.
     ensure (unat proposal_index < length (ProposalQueue s)) ProposalNotExist s (
     let i = unat proposal_index; proposal = ProposalQueue s ! i in
     unwrap (get_current_period now s) (\<lambda>period.
     unwrap (plain_sub (overflow_checks cfg) period (VotingPeriodLength s)) (\<lambda>after_voting.
     unwrap (plain_sub (overflow_checks cfg) after_voting (GracePeriodLength s)) (\<lambda>after_grace.
     ensure (starting_period proposal \<le> after_grace) ProposalNotReady s (
     ensure (\<not> processed proposal) ProposalHasProcessed s (
     ensure (proposal_index = 0 \<or> processed (ProposalQueue s ! (i - 1)))
       PreviousProposalNotProcessed s (
     process_checked cfg who proposal_index s))))))))"

section \<open>Leaving, aborting and delegating\<close>

definition ragequit ::
  "('acc, 'l) moloch_config \<Rightarrow> 'acc origin \<Rightarrow> u128 \<Rightarrow> ('acc, 'l) moloch
     \<Rightarrow> ('acc, 'l) moloch_outcome" where
  "ragequit cfg origin shares_to_burn s =
     ensure_signed origin s (\<lambda>who.
     ensure (contains_key (Members s) who) NotMember s (
     let member = member_of cfg s who in
     ensure (shares_to_burn \<le> shares member) NoEnoughShares s (
     let proposal_index = highest_index_yes_vote member in
     ensure (unat proposal_index < length (ProposalQueue s)) ProposalNotExist s (
     ensure (processed (ProposalQueue s ! unat proposal_index)) ProposalNotProcessed s (
     unwrap (checked_sub (shares member) shares_to_burn) (\<lambda>left.
     let s1 = s\<lparr>Members := map_mutate (default_member cfg) (Members s) who
                             (\<lambda>mem. mem\<lparr>shares := left\<rparr>)\<rparr>;
         initial_total = TotalShares s1 in
     unwrap (checked_sub initial_total shares_to_burn) (\<lambda>total.
     let s2 = s1\<lparr>TotalShares := total\<rparr> in
     unwrap (balance_to_u128 (balance cfg (ledger s2) (moloch_account_id cfg))) (\<lambda>amount.
     unwrap (checked_mul amount shares_to_burn) (\<lambda>scaled.
     unwrap (checked_div scaled initial_total) (\<lambda>payout.
     unwrap (u128_to_balance payout) (\<lambda>payout_balance.
     let s3 = send cfg (moloch_account_id cfg) who payout_balance KeepAlive s2
     in Ok (deposit_event (Ragequit who shares_to_burn) s3))))))))))))"

definition abort ::
  "('acc, 'l) moloch_config \<Rightarrow> u64 \<Rightarrow> 'acc origin \<Rightarrow> u128
     \<Rightarrow> ('acc, 'l) moloch \<Rightarrow> ('acc, 'l) moloch_outcome" where
  "abort cfg now origin proposal_index s =
     ensure_signed origin s (\<lambda>who.
     ensure (unat proposal_index < length (ProposalQueue s)) ProposalNotExist s (
     let i = unat proposal_index; proposal = ProposalQueue s ! i in
     ensure (who = applicant proposal) NotProposalApplicant s (
     unwrap (get_current_period now s) (\<lambda>period.
     unwrap (checked_add (starting_period proposal) (AbortWindow s)) (\<lambda>deadline.
     ensure (period < deadline) AbortWindowHasPassed s (
     ensure (\<not> aborted proposal) ProposalHasAborted s (
     let token_to_abort = token_tribute proposal;
         p = proposal\<lparr>token_tribute := 0, aborted := True\<rparr>;
         s1 = s\<lparr>ProposalQueue := (ProposalQueue s)[i := p]\<rparr> in
     unwrap (u128_to_balance token_to_abort) (\<lambda>refund.
     let s2 = send cfg (custody_account cfg) (applicant p) refund AllowDeath s1;
         s3 = s2\<lparr>ApplicantCustody := map_remove (ApplicantCustody s2) (applicant p)\<rparr>
     in Ok (deposit_event (Abort proposal_index who) s3)))))))))"

text \<open>
  \<open>update_delegate\<close> writes the new key to a local copy of the member (\<open>&mut Members::get(..)\<close>)
  that is never stored; only the map of delegate keys changes.
\<close>

definition update_delegate ::
  "('acc, 'l) moloch_config \<Rightarrow> 'acc origin \<Rightarrow> 'acc \<Rightarrow> ('acc, 'l) moloch
     \<Rightarrow> ('acc, 'l) moloch_outcome" where
  "update_delegate cfg origin new_key s =
     ensure_signed origin s (\<lambda>who.
     ensure (who = new_key \<or> \<not> contains_key (Members s) new_key) NoOverwriteMember s (
     ensure (who = new_key \<or> \<not> contains_key (Members s) (delegate_of cfg s new_key))
       NoOverwriteDelegate s (
     let member = member_of cfg s who;
         s1 = s\<lparr>AddressOfDelegates := map_remove (AddressOfDelegates s) (delegate_key member)\<rparr>;
         s2 = s1\<lparr>AddressOfDelegates := map_insert (AddressOfDelegates s1) new_key who\<rparr>
     in Ok (deposit_event (UpdateDelegateKey who new_key) s2))))"

section \<open>Dispatch\<close>

datatype 'acc moloch_call =
    SummonCall u32 u128 u128 u128 u128 u128 u128
  | CustodyCall u128
  | SubmitProposalCall 'acc u128 u128 "u8 list"
  | SubmitVoteCall u128 u8
  | ProcessProposalCall u128
  | RagequitCall u128
  | AbortCall u128
  | UpdateDelegateCall 'acc

text \<open>A call with its context: the block's timestamp and the origin.\<close>

record 'acc moloch_extrinsic =
  at_time :: u64
  signer :: "'acc origin"
  the_call :: "'acc moloch_call"

definition moloch_dispatch ::
  "('acc, 'l) moloch_config \<Rightarrow> 'acc moloch_extrinsic \<Rightarrow> ('acc, 'l) moloch
     \<Rightarrow> ('acc, 'l) moloch_outcome" where
  "moloch_dispatch cfg x s =
     (let now = at_time x; origin = signer x in
      case the_call x of
        SummonCall pd vp gp aw db dep rew \<Rightarrow> summon cfg now origin pd vp gp aw db dep rew s
      | CustodyCall tribute \<Rightarrow> custody cfg origin tribute s
      | SubmitProposalCall a tribute requested info \<Rightarrow>
          submit_proposal cfg now origin a tribute requested info s
      | SubmitVoteCall idx unit \<Rightarrow> submit_vote cfg now origin idx unit s
      | ProcessProposalCall idx \<Rightarrow> process_proposal cfg now origin idx s
      | RagequitCall burn \<Rightarrow> ragequit cfg origin burn s
      | AbortCall idx \<Rightarrow> abort cfg now origin idx s
      | UpdateDelegateCall key \<Rightarrow> update_delegate cfg origin key s)"

end
