(* ===== verification/Moloch_Inv.thy ===== *)
theory Moloch_Inv
  imports Moloch_Ops
begin

text \<open>
  The well-formedness invariant of the Moloch pallet and its preservation by every dispatchable.
  It has four parts: the share register agrees with the recorded total, the proposal queue is
  processed from the front and its requested shares add up, votes and members refer to existing
  proposals, and the recorded parameters are within the configured limits.
\<close>

section \<open>The invariant\<close>

definition shares_sum :: "('acc, 'z) moloch_storage_scheme \<Rightarrow> nat" where
  "shares_sum s = register_total (\<lambda>m. unat (shares m)) (Members s)"

definition requested_sum :: "'acc Proposal list \<Rightarrow> nat" where
  "requested_sum q = sum_list (map (\<lambda>p. if processed p then 0 else unat (shares_requested p)) q)"

definition queue_ordered :: "'acc Proposal list \<Rightarrow> bool" where
  "queue_ordered q =
     sorted_wrt (\<lambda>p r. starting_period p < starting_period r \<and> (processed r \<longrightarrow> processed p)) q"

definition proposal_ok :: "'acc Proposal \<Rightarrow> bool" where
  "proposal_ok p \<longleftrightarrow> (did_pass p \<longrightarrow> processed p) \<and> (aborted p \<longrightarrow> token_tribute p = 0)"

definition share_inv :: "('acc, 'l) moloch_config \<Rightarrow> ('acc, 'z) moloch_storage_scheme \<Rightarrow> bool" where
  "share_inv cfg s \<longleftrightarrow>
     finite (dom (Members s)) \<and> shares_sum s = unat (TotalShares s) \<and>
     unat (TotalShares s) + unat (TotalSharesRequested s) \<le> unat (MaxShares cfg)"

definition queue_inv :: "('acc, 'z) moloch_storage_scheme \<Rightarrow> bool" where
  "queue_inv s \<longleftrightarrow>
     queue_ordered (ProposalQueue s) \<and> (\<forall>p \<in> set (ProposalQueue s). proposal_ok p) \<and>
     requested_sum (ProposalQueue s) = unat (TotalSharesRequested s)"

definition members_ok :: "('acc, 'z) moloch_storage_scheme \<Rightarrow> bool" where
  "members_ok s \<longleftrightarrow>
     (\<forall>a m. Members s a = Some m \<longrightarrow>
        highest_index_yes_vote m = 0 \<or> unat (highest_index_yes_vote m) < length (ProposalQueue s)) \<and>
     (Members s = Map.empty \<longrightarrow> ProposalQueue s = [])"

definition votes_ok :: "('acc, 'z) moloch_storage_scheme \<Rightarrow> bool" where
  "votes_ok s \<longleftrightarrow>
     (\<forall>i a v. ProposalVotes s (i, a) = Some v \<longrightarrow>
        unat i < length (ProposalQueue s) \<and> (v = 1 \<or> v = 2) \<and>
        (\<exists>m. Members s a = Some m \<and> (v = 1 \<longrightarrow> i \<le> highest_index_yes_vote m)))"

definition refer_inv :: "('acc, 'z) moloch_storage_scheme \<Rightarrow> bool" where
  "refer_inv s \<longleftrightarrow> members_ok s \<and> votes_ok s"

definition param_inv :: "('acc, 'l) moloch_config \<Rightarrow> ('acc, 'z) moloch_storage_scheme \<Rightarrow> bool" where
  "param_inv cfg s \<longleftrightarrow>
     VotingPeriodLength s \<le> MaxVotingPeriodLength cfg \<and>
     GracePeriodLength s \<le> MaxGracePeriodLength cfg \<and>
     DilutionBound s \<le> MaxDilutionBound cfg \<and>
     AbortWindow s \<le> VotingPeriodLength s \<and> ProcessingReward s \<le> ProposalDeposit s"

definition moloch_inv :: "('acc, 'l) moloch_config \<Rightarrow> ('acc, 'z) moloch_storage_scheme \<Rightarrow> bool" where
  "moloch_inv cfg s \<longleftrightarrow> share_inv cfg s \<and> queue_inv s \<and> refer_inv s \<and> param_inv cfg s"

lemmas moloch_inv_defs = moloch_inv_def share_inv_def queue_inv_def refer_inv_def members_ok_def param_inv_def

text \<open>Votes stay in order as long as no member and no recorded position is lost.\<close>

lemma votes_ok_mono:
  assumes "votes_ok s" and "ProposalVotes t = ProposalVotes s"
    and "length (ProposalQueue s) \<le> length (ProposalQueue t)"
    and keep: "\<And>a m. Members s a = Some m \<Longrightarrow>
      \<exists>m'. Members t a = Some m' \<and> highest_index_yes_vote m' = highest_index_yes_vote m"
  shows "votes_ok t"
  unfolding votes_ok_def
proof (intro allI impI)
  fix i a v assume "ProposalVotes t (i, a) = Some v"
  with assms(1,2) obtain m where "unat i < length (ProposalQueue s)" "v = 1 \<or> v = 2"
    "Members s a = Some m" "v = 1 \<longrightarrow> i \<le> highest_index_yes_vote m"
    unfolding votes_ok_def by metis
  with keep [of a m] assms(3) show "unat i < length (ProposalQueue t) \<and> (v = 1 \<or> v = 2) \<and>
    (\<exists>m. Members t a = Some m \<and> (v = 1 \<longrightarrow> i \<le> highest_index_yes_vote m))"
    by fastforce
qed

named_theorems moloch_frame \<open>what the parts of a dispatchable leave unchanged\<close>

section \<open>Effects of the parts of \<open>process_proposal\<close>\<close>

lemma vote_outcome_frame [moloch_frame]:
  "\<exists>ev. snd (vote_outcome cfg p tribute bound s) = s\<lparr>moloch_events := ev\<rparr>"
  by (simp add: vote_outcome_def Let_def deposit_event_def)
    (intro conjI impI exI, auto intro: moloch.equality)

lemma admit_frame:
  assumes "admit_applicant cfg p s = Some t"
  obtains ms ds where "t = s\<lparr>Members := ms, AddressOfDelegates := ds\<rparr>"
proof -
  have "t = s\<lparr>Members := Members t, AddressOfDelegates := AddressOfDelegates t\<rparr>"
    using assms by (auto simp: admit_applicant_def Let_def split: if_splits)
  with that show thesis by blast
qed

text \<open>Admission adds exactly the requested shares to the register and keeps all other members.\<close>

lemma admit_shares:
  assumes fin: "finite (dom (Members s))" and adm: "admit_applicant cfg p s = Some t"
  shows "finite (dom (Members t))"
    and "shares_sum t = shares_sum s + unat (shares_requested p)"
proof -
  let ?w = "\<lambda>m. unat (shares m)" and ?a = "applicant p"
  show "finite (dom (Members t))"
    using adm fin by (auto simp: admit_applicant_def Let_def map_mutate_def split: if_splits)
  show "shares_sum t = shares_sum s + unat (shares_requested p)"
  proof (cases "contains_key (Members s) ?a")
    case True
    then obtain m where m: "Members s ?a = Some m" by (auto simp: contains_key_def)
    with True adm obtain n where n: "unat n = unat (shares m) + unat (shares_requested p)"
      and t: "Members t = map_insert (Members s) ?a (m\<lparr>shares := n\<rparr>)"
      by (auto simp: admit_applicant_def Let_def member_of_def map_get_def map_mutate_def rust_arith)
    from register_total_insert [OF fin, of ?w ?a "m\<lparr>shares := n\<rparr>"] m n t show ?thesis
      by (simp add: shares_sum_def)
  next
    case False
    define mid where "mid = (if contains_key (AddressOfDelegates s) ?a then
        map_mutate (default_member cfg) (Members s) (delegate_of cfg s ?a)
          (\<lambda>mem. mem\<lparr>delegate_key := delegate_of cfg s ?a\<rparr>) else Members s)"
    obtain m where t: "Members t = map_insert mid ?a m" and m: "shares m = shares_requested p"
      using adm False that
      by (cases "contains_key (AddressOfDelegates s) ?a")
        (auto simp: admit_applicant_def Let_def mid_def)
    have mid: "finite (dom mid)" "register_total ?w mid = register_total ?w (Members s)"
      using fin register_total_mutate_same [OF fin, of ?w "default_member cfg"
          "\<lambda>mem. mem\<lparr>delegate_key := delegate_of cfg s ?a\<rparr>"]
      by (auto simp: mid_def map_mutate_def default_member_def)
    have "(case mid ?a of None \<Rightarrow> 0 | Some v \<Rightarrow> ?w v) = 0"
      using False by (auto simp: mid_def storage_defs default_member_def split: option.splits if_splits)
    with register_total_insert [OF mid(1), of ?w ?a m] t m mid(2) show ?thesis
      by (simp add: shares_sum_def)
  qed
qed

lemma admit_members:
  assumes "admit_applicant cfg p s = Some t" and "Members t b = Some m"
  shows "highest_index_yes_vote m = 0 \<or>
    (\<exists>m'. Members s b = Some m' \<and> highest_index_yes_vote m = highest_index_yes_vote m')"
  using assms
  by (auto simp: admit_applicant_def Let_def member_of_def storage_defs default_member_def
      split: if_splits option.splits)

text \<open>Admission removes no member, and nobody loses shares by it.\<close>

lemma admit_keeps:
  assumes "admit_applicant cfg p s = Some t" and "Members s b = Some m"
  shows "\<exists>m'. Members t b = Some m' \<and> highest_index_yes_vote m' = highest_index_yes_vote m \<and>
    shares m \<le> shares m'"
  using assms
  by (auto simp: admit_applicant_def Let_def member_of_def storage_defs default_member_def rust_arith
      word_le_nat_alt split: if_splits option.splits)

lemma admit_nonempty: "admit_applicant cfg p s = Some t \<Longrightarrow> Members t \<noteq> Map.empty"
  by (auto simp: admit_applicant_def Let_def storage_defs fun_eq_iff split: if_splits)


text \<open>The two settlements in one: what a successful settlement did.\<close>

definition settled ::
  "('acc, 'l) moloch_config \<Rightarrow> bool \<Rightarrow> 'acc Proposal \<Rightarrow> u128 \<Rightarrow> ('acc, 'l) moloch
     \<Rightarrow> ('acc, 'l) moloch option" where
  "settled cfg granted p tribute s =
     (if granted then settle_passed cfg p tribute s else settle_failed cfg p tribute s)"

lemma settledE:
  assumes "settled cfg granted p tribute s = Some t"
  obtains (passed) s1 total rest where
    "granted" "admit_applicant cfg p s = Some s1"
    "unat total = unat (TotalShares s) + unat (shares_requested p)"
    "plain_sub (overflow_checks cfg) (custody_of s (applicant p)) tribute = Some rest"
    "t = s1\<lparr>TotalShares := total,
            ledger := pay cfg (ledger s) (custody_account cfg) (moloch_account_id cfg) tribute AllowDeath,
            ApplicantCustody := map_insert (ApplicantCustody s) (applicant p) rest\<rparr>"
  | (failed) rest where
    "\<not> granted"
    "plain_sub (overflow_checks cfg) (custody_of s (applicant p)) tribute = Some rest"
    "t = s\<lparr>ledger := pay cfg (ledger s) (custody_account cfg) (applicant p) tribute AllowDeath,
            ApplicantCustody := map_insert (ApplicantCustody s) (applicant p) rest\<rparr>"
proof (cases granted)
  case True
  with assms obtain s1 total rest where
    adm: "admit_applicant cfg p s = Some s1" and
    tot: "checked_add (TotalShares s1) (shares_requested p) = Some total" and
    sub: "plain_sub (overflow_checks cfg) (custody_of s1 (applicant p)) tribute = Some rest" and
    t: "t = s1\<lparr>TotalShares := total,
         ledger := pay cfg (ledger s1) (custody_account cfg) (moloch_account_id cfg) tribute AllowDeath,
         ApplicantCustody := map_insert (ApplicantCustody s1) (applicant p) rest\<rparr>"
    by (auto simp: settled_def settle_passed_def Let_def bind_eq_Some_conv send_def custody_of_def)
  obtain ms ds where s1: "s1 = s\<lparr>Members := ms, AddressOfDelegates := ds\<rparr>"
    using admit_frame [OF adm] by metis
  show thesis
    by (rule passed [OF True adm, of total rest])
      (use tot sub t s1 in \<open>auto simp: rust_arith custody_of_def\<close>)
next
  case False
  with assms failed show thesis
    by (auto simp: settled_def settle_failed_def Let_def bind_eq_Some_conv send_def custody_of_def)
qed

lemma settled_frame:
  assumes "settled cfg granted p tribute s = Some t"
  obtains ms ds tot l cust where "t = s\<lparr>Members := ms, AddressOfDelegates := ds,
    TotalShares := tot, ledger := l, ApplicantCustody := cust\<rparr>"
  using assms
proof (cases rule: settledE)
  case (passed s1 total rest)
  obtain ms ds where "s1 = s\<lparr>Members := ms, AddressOfDelegates := ds\<rparr>"
    using admit_frame [OF passed(2)] by metis
  with passed(5) show thesis by (intro that) simp
next
  case (failed rest)
  then show thesis
    by (intro that [where ms = "Members s" and ds = "AddressOfDelegates s" and tot = "TotalShares s"]) simp
qed

text \<open>Minting follows the verdict: a granted proposal adds its shares to the total and the register.\<close>

lemma settled_shares:
  assumes "settled cfg granted p tribute s = Some t" and fin: "finite (dom (Members s))"
  defines "minted \<equiv> (if granted then unat (shares_requested p) else 0)"
  shows "finite (dom (Members t))" and "shares_sum t = shares_sum s + minted"
    and "unat (TotalShares t) = unat (TotalShares s) + minted"
proof -
  have "finite (dom (Members t)) \<and> shares_sum t = shares_sum s + minted \<and>
    unat (TotalShares t) = unat (TotalShares s) + minted"
    using assms(1)
  proof (cases rule: settledE)
    case (passed s1 total rest)
    with admit_shares [OF fin passed(2)] show ?thesis by (simp add: minted_def shares_sum_def)
  next
    case (failed rest)
    with fin show ?thesis by (simp add: minted_def shares_sum_def)
  qed
  then show "finite (dom (Members t))" and "shares_sum t = shares_sum s + minted"
    and "unat (TotalShares t) = unat (TotalShares s) + minted" by simp_all
qed

lemma settled_members:
  assumes "settled cfg granted p tribute s = Some t"
  shows "Members t b = Some m \<Longrightarrow> highest_index_yes_vote m = 0 \<or>
      (\<exists>m'. Members s b = Some m' \<and> highest_index_yes_vote m = highest_index_yes_vote m')"
    and "Members t = Map.empty \<Longrightarrow> Members s = Map.empty"
proof -
  have "(Members t b = Some m \<longrightarrow> highest_index_yes_vote m = 0 \<or>
      (\<exists>m'. Members s b = Some m' \<and> highest_index_yes_vote m = highest_index_yes_vote m')) \<and>
    (Members t = Map.empty \<longrightarrow> Members s = Map.empty)"
    using assms
  proof (cases rule: settledE)
    case (passed s1 total rest)
    have "Members t = Members s1" using passed(5) by simp
    with admit_members [OF passed(2), of b m] admit_nonempty [OF passed(2)]
    show ?thesis by auto
  next
    case (failed rest)
    then show ?thesis by simp
  qed
  then show "Members t b = Some m \<Longrightarrow> highest_index_yes_vote m = 0 \<or>
      (\<exists>m'. Members s b = Some m' \<and> highest_index_yes_vote m = highest_index_yes_vote m')"
    and "Members t = Map.empty \<Longrightarrow> Members s = Map.empty" by blast+
qed


lemma settled_keeps:
  assumes "settled cfg granted p tribute s = Some t" and "Members s b = Some m"
  shows "\<exists>m'. Members t b = Some m' \<and> highest_index_yes_vote m' = highest_index_yes_vote m \<and>
    shares m \<le> shares m'"
  using assms(1)
proof (cases rule: settledE)
  case (passed s1 total rest)
  with admit_keeps [OF passed(2) assms(2)] show ?thesis by simp
next
  case (failed rest)
  with assms(2) show ?thesis by simp
qed

text \<open>Everything a successful \<open>process_checked\<close> did to the storage.\<close>

lemma process_checkedE:
  assumes "process_checked cfg who idx s = Ok t"
  defines "p \<equiv> ProposalQueue s ! unat idx"
  obtains tr bound granted p' ev s4 rest ev' where
    "unat (TotalSharesRequested s) = unat (shares_requested p) + unat tr"
    "unat bound = unat (TotalShares s) * unat (DilutionBound s)"
    "granted \<longleftrightarrow> fst (vote_outcome cfg (p\<lparr>processed := True\<rparr>) (token_tribute p) bound
        (s\<lparr>TotalSharesRequested := tr\<rparr>)) \<and> \<not> aborted p"
    "p' = (if granted then p\<lparr>processed := True, did_pass := True\<rparr> else p\<lparr>processed := True\<rparr>)"
    "settled cfg granted p' (token_tribute p)
       (s\<lparr>TotalSharesRequested := tr, moloch_events := ev\<rparr>) = Some s4"
    "t = s4\<lparr>ProposalQueue := (ProposalQueue s)[unat idx := p'],
       ledger := pay cfg (pay cfg (ledger s4) (moloch_account_id cfg) who (ProcessingReward s) KeepAlive)
         (moloch_account_id cfg) (proposer p) rest KeepAlive, moloch_events := ev'\<rparr>"
    "plain_sub (overflow_checks cfg) (ProposalDeposit s) (ProcessingReward s) = Some rest"
proof -
  let ?p = "p\<lparr>processed := True\<rparr>"
  from assms(1) obtain tr bound where
    tr': "checked_sub (TotalSharesRequested s) (shares_requested p) = Some tr" and
    bound': "checked_mul (TotalShares s) (DilutionBound s) = Some bound"
    by (auto simp: process_checked_def Let_def outcome_simps p_def)
  then have tr: "unat (TotalSharesRequested s) = unat (shares_requested p) + unat tr"
    and bound: "unat bound = unat (TotalShares s) * unat (DilutionBound s)"
    by (simp_all add: rust_arith)
  obtain passed s3 where
    vo: "vote_outcome cfg ?p (token_tribute p) bound (s\<lparr>TotalSharesRequested := tr\<rparr>) = (passed, s3)"
    by (cases "vote_outcome cfg ?p (token_tribute p) bound (s\<lparr>TotalSharesRequested := tr\<rparr>)")
  define granted where "granted \<longleftrightarrow> passed \<and> \<not> aborted p"
  define p' where "p' = (if granted then ?p\<lparr>did_pass := True\<rparr> else ?p)"
  obtain ev where s3: "s3 = s\<lparr>TotalSharesRequested := tr, moloch_events := ev\<rparr>"
    using vote_outcome_frame [of cfg ?p "token_tribute p" bound "s\<lparr>TotalSharesRequested := tr\<rparr>"] vo
    by auto
  from assms(1) obtain s4 rest where
    set: "settled cfg granted p' (token_tribute p) s3 = Some s4" and
    rest: "plain_sub (overflow_checks cfg) (ProposalDeposit s4) (ProcessingReward s4) = Some rest" and
    t: "t = deposit_event (ProcessProposal idx (applicant p') (proposer p') (token_tribute p')
          (shares_requested p') passed)
        (send cfg (moloch_account_id cfg) (proposer p') rest KeepAlive
          (send cfg (moloch_account_id cfg) who (ProcessingReward s4) KeepAlive
            (s4\<lparr>ProposalQueue := (ProposalQueue s4)[unat idx := p']\<rparr>)))"
    unfolding process_checked_def Let_def p_def [symmetric] settled_def [symmetric]
    by (auto simp: outcome_simps tr' bound' vo p'_def granted_def send_def)
  obtain ms ds tot l cust where "s4 = s3\<lparr>Members := ms, AddressOfDelegates := ds,
    TotalShares := tot, ledger := l, ApplicantCustody := cust\<rparr>"
    using settled_frame [OF set] .
  then have q: "ProposalQueue s4 = ProposalQueue s" "ProposalDeposit s4 = ProposalDeposit s"
    "ProcessingReward s4 = ProcessingReward s" using s3 by simp_all
  have "proposer p' = proposer p" by (simp add: p'_def)
  note t = t [unfolded this]
  show thesis
  proof (rule that [OF tr bound])
    show "granted \<longleftrightarrow> fst (vote_outcome cfg (p\<lparr>processed := True\<rparr>) (token_tribute p) bound
        (s\<lparr>TotalSharesRequested := tr\<rparr>)) \<and> \<not> aborted p"
      by (simp add: vo granted_def)
    show "settled cfg granted p' (token_tribute p)
       (s\<lparr>TotalSharesRequested := tr, moloch_events := ev\<rparr>) = Some s4"
      using set s3 by simp
    show "p' = (if granted then p\<lparr>processed := True, did_pass := True\<rparr> else p\<lparr>processed := True\<rparr>)"
      by (simp add: p'_def)
  qed (use t q rest in \<open>simp_all add: send_def deposit_event_def\<close>)
qed


section \<open>What a successful dispatchable did\<close>

lemma summonE:
  assumes "summon cfg now origin pd vp gp aw db dep rew s = Ok t"
  obtains who ev where
    "origin = Signed who" "vp \<le> MaxVotingPeriodLength cfg" "gp \<le> MaxGracePeriodLength cfg"
    "db \<le> MaxDilutionBound cfg" "aw \<le> vp" "rew \<le> dep"
    "t = s\<lparr>SummonTime := now, PeriodDuration := pd, VotingPeriodLength := vp,
           GracePeriodLength := gp, AbortWindow := aw, DilutionBound := db, ProposalDeposit := dep,
           ProcessingReward := rew,
           Members := map_insert (Members s) who \<lparr>shares = 1, highest_index_yes_vote = 0,
             exists = True, delegate_key = who\<rparr>,
           AddressOfDelegates := map_insert (AddressOfDelegates s) who who,
           TotalShares := 1, moloch_events := ev\<rparr>"
  using assms by (auto simp: summon_def Let_def signed_simps deposit_event_def)

lemma custodyE:
  assumes "custody cfg origin tribute s = Ok t"
  obtains who ev where "origin = Signed who"
    "t = s\<lparr>ledger := pay cfg (ledger s) who (custody_account cfg) tribute KeepAlive,
           ApplicantCustody := map_insert (ApplicantCustody s) who tribute, moloch_events := ev\<rparr>"
  using assms by (auto simp: custody_def Let_def signed_simps deposit_event_def send_def)

lemma submit_proposalE:
  assumes "submit_proposal cfg now origin a tribute requested info s = Ok t"
  obtains who total_requested future period start ev where
    "origin = Signed who" "contains_key (AddressOfDelegates s) who"
    "0 < shares (member_of cfg s (delegate_of cfg s who))"
    "checked_add (TotalSharesRequested s) requested = Some total_requested"
    "checked_add (TotalShares s) total_requested = Some future" "future \<le> MaxShares cfg"
    "contains_key (ApplicantCustody s) a"
    "tribute \<le> balance cfg (ledger s) (custody_account cfg)"
    "get_current_period now s = Some period"
    "checked_add (max (proposal_period (ProposalQueue s)) period) 1 = Some start"
    "t = s\<lparr>TotalSharesRequested := total_requested,
           ledger := pay cfg (ledger s) who (moloch_account_id cfg) (ProposalDeposit s) KeepAlive,
           ProposalQueue := ProposalQueue s @
             [\<lparr>proposer = delegate_of cfg s who, applicant = a, shares_requested = requested,
               starting_period = start, yes_votes = 0, no_votes = 0, processed = False,
               did_pass = False, aborted = False, token_tribute = tribute, details = info,
               max_total_shares_at_yes = 0\<rparr>],
           moloch_events := ev\<rparr>"
proof -
  have fields:
    "get_current_period now (s\<lparr>TotalSharesRequested := x, ledger := l\<rparr>) = get_current_period now s"
    "ProposalQueue (s\<lparr>TotalSharesRequested := x, ledger := l\<rparr>) = ProposalQueue s"
    "ProposalDeposit (s\<lparr>TotalSharesRequested := x\<rparr>) = ProposalDeposit s"
    "ledger (s\<lparr>TotalSharesRequested := x\<rparr>) = ledger s" for x l
    by (simp_all add: get_current_period_def)
  from assms show thesis
    unfolding submit_proposal_def Let_def signed_simps ensure_Ok outcome_simps balance_to_u128
      option.inject send_def fields
    by (elim exE conjE) (rule that [where ev = "moloch_events t"], assumption+,
        auto simp: deposit_event_def)
qed

lemma submit_voteE:
  assumes "submit_vote cfg now origin idx vote_unit s = Ok t"
  defines "p \<equiv> ProposalQueue s ! unat idx"
  obtains who d period expiry counted ev where
    "origin = Signed who" "contains_key (AddressOfDelegates s) who" "d = delegate_of cfg s who"
    "0 < shares (member_of cfg s d)" "unat idx < length (ProposalQueue s)"
    "vote_unit = 1 \<or> vote_unit = 2" "get_current_period now s = Some period"
    "starting_period p \<le> period"
    "plain_add (overflow_checks cfg) (VotingPeriodLength s) (starting_period p) = Some expiry"
    "period < expiry" "ProposalVotes s (idx, d) = None" "\<not> aborted p"
    "count_vote (vote_of vote_unit) (shares (member_of cfg s d)) (TotalShares s) p = Some counted"
    "t = s\<lparr>ProposalVotes := map_insert (ProposalVotes s) (idx, d) vote_unit,
           Members := (if vote_of vote_unit = Yes \<and> highest_index_yes_vote (member_of cfg s d) < idx
             then map_mutate (default_member cfg) (Members s) d
                    (\<lambda>mem. mem\<lparr>highest_index_yes_vote := idx\<rparr>)
             else Members s),
           ProposalQueue := (ProposalQueue s)[unat idx := counted], moloch_events := ev\<rparr>"
proof -
  have unit: "x < 3 \<Longrightarrow> 0 < x \<Longrightarrow> x = 1 \<or> x = 2" for x :: u8
    by (simp add: word_less_nat_alt word_unat_eq_iff) arith
  from assms(1) show thesis
    by (auto simp: submit_vote_def Let_def signed_simps outcome_simps deposit_event_def contains_key_def
        p_def dest!: unit intro: that [unfolded p_def])
qed

lemma process_proposalE:
  assumes "process_proposal cfg now origin idx s = Ok t"
  defines "p \<equiv> ProposalQueue s ! unat idx"
  obtains who period av ag where
    "origin = Signed who" "unat idx < length (ProposalQueue s)" "get_current_period now s = Some period"
    "plain_sub (overflow_checks cfg) period (VotingPeriodLength s) = Some av"
    "plain_sub (overflow_checks cfg) av (GracePeriodLength s) = Some ag"
    "starting_period p \<le> ag" "\<not> processed p"
    "idx = 0 \<or> processed (ProposalQueue s ! (unat idx - 1))"
    "process_checked cfg who idx s = Ok t"
  using assms by (auto simp: process_proposal_def Let_def signed_simps outcome_simps)

lemma ragequitE:
  assumes "ragequit cfg origin burn s = Ok t"
  obtains who m left total scaled payout ev where
    "origin = Signed who" "Members s who = Some m" "burn \<le> shares m"
    "unat (highest_index_yes_vote m) < length (ProposalQueue s)"
    "processed (ProposalQueue s ! unat (highest_index_yes_vote m))"
    "checked_sub (shares m) burn = Some left" "checked_sub (TotalShares s) burn = Some total"
    "checked_mul (balance cfg (ledger s) (moloch_account_id cfg)) burn = Some scaled"
    "checked_div scaled (TotalShares s) = Some payout"
    "t = s\<lparr>Members := map_insert (Members s) who (m\<lparr>shares := left\<rparr>), TotalShares := total,
           ledger := pay cfg (ledger s) (moloch_account_id cfg) who payout KeepAlive,
           moloch_events := ev\<rparr>"
  using assms
  by (auto simp: ragequit_def Let_def signed_simps outcome_simps deposit_event_def send_def
      contains_key_def member_of_def map_mutate_def map_get_def)

lemma abortE:
  assumes "abort cfg now origin idx s = Ok t"
  defines "p \<equiv> ProposalQueue s ! unat idx"
  obtains who period deadline ev where
    "origin = Signed who" "unat idx < length (ProposalQueue s)" "who = applicant p"
    "get_current_period now s = Some period"
    "checked_add (starting_period p) (AbortWindow s) = Some deadline" "period < deadline" "\<not> aborted p"
    "t = s\<lparr>ProposalQueue := (ProposalQueue s)[unat idx := p\<lparr>token_tribute := 0, aborted := True\<rparr>],
           ledger := pay cfg (ledger s) (custody_account cfg) who (token_tribute p) AllowDeath,
           ApplicantCustody := map_remove (ApplicantCustody s) who, moloch_events := ev\<rparr>"
  using assms
  by (auto simp: abort_def Let_def signed_simps outcome_simps deposit_event_def send_def)

lemma update_delegateE:
  assumes "update_delegate cfg origin key s = Ok t"
  obtains who ev where
    "origin = Signed who" "who = key \<or> \<not> contains_key (Members s) key"
    "who = key \<or> \<not> contains_key (Members s) (delegate_of cfg s key)"
    "t = s\<lparr>AddressOfDelegates := map_insert (map_remove (AddressOfDelegates s)
             (delegate_key (member_of cfg s who))) key who, moloch_events := ev\<rparr>"
  using assms by (auto simp: update_delegate_def Let_def signed_simps deposit_event_def)

end
