(* ===== verification/Moloch_Preserve.thy ===== *)
theory Moloch_Preserve
  imports Moloch_Inv
begin

text \<open>
  Preservation of the invariant of the Moloch pallet: lemmas on the proposal queue, one lemma
  per dispatchable and part of the invariant, and the interpretation of the pallet contract.
\<close>

section \<open>The proposal queue\<close>

lemma requested_sum_append [simp]:
  "requested_sum (q @ [p]) = requested_sum q + (if processed p then 0 else unat (shares_requested p))"
  by (simp add: requested_sum_def)

lemma requested_sum_same:
  assumes "i < length q" and "processed p = processed (q ! i)"
    and "shares_requested p = shares_requested (q ! i)"
  shows "requested_sum (q[i := p]) = requested_sum q"
  using sum_list_map_update [OF assms(1), of "\<lambda>p. if processed p then 0 else unat (shares_requested p)" p]
    assms(2,3) by (simp add: requested_sum_def split: if_splits)

lemma requested_sum_process:
  assumes "i < length q" and "\<not> processed (q ! i)" and "processed p"
  shows "requested_sum (q[i := p]) + unat (shares_requested (q ! i)) = requested_sum q"
  using sum_list_map_update [OF assms(1), of "\<lambda>p. if processed p then 0 else unat (shares_requested p)" p]
    assms(2,3) by (simp add: requested_sum_def)

lemma requested_sum_ge:
  assumes "i < length q" and "\<not> processed (q ! i)"
  shows "unat (shares_requested (q ! i)) \<le> requested_sum q"
  using sum_list_map_nth_le [OF assms(1), of "\<lambda>p. if processed p then 0 else unat (shares_requested p)"]
    assms(2) by (simp add: requested_sum_def)

lemma queue_orderedD:
  assumes "queue_ordered q" and "i < j" and "j < length q"
  shows "starting_period (q ! i) < starting_period (q ! j)"
    and "processed (q ! j) \<Longrightarrow> processed (q ! i)"
  using assms by (auto simp: queue_ordered_def sorted_wrt_iff_nth_less)

lemma queue_ordered_same:
  assumes "queue_ordered q" and "i < length q" and "processed p = processed (q ! i)"
    and "starting_period p = starting_period (q ! i)"
  shows "queue_ordered (q[i := p])"
  unfolding queue_ordered_def
  by (rule sorted_wrt_update [OF assms(1) [unfolded queue_ordered_def] assms(2)])
    (use assms(2-4) queue_orderedD [OF assms(1)] in auto)

text \<open>Processing in order: the proposals before the processed one are all processed already.\<close>

lemma queue_ordered_process:
  assumes q: "queue_ordered q" "i < length q" and prev: "i = 0 \<or> processed (q ! (i - 1))"
    and p: "\<not> processed (q ! i)" "processed p" "starting_period p = starting_period (q ! i)"
  shows "queue_ordered (q[i := p])"
  unfolding queue_ordered_def
proof (rule sorted_wrt_update [OF q(1) [unfolded queue_ordered_def] q(2)])
  fix j assume "j < i"
  then have "processed (q ! j)"
    using prev queue_orderedD(2) [OF q(1), of j "i - 1"] q(2) by (cases "j = i - 1") auto
  with \<open>j < i\<close> show "starting_period (q ! j) < starting_period p \<and> (processed p \<longrightarrow> processed (q ! j))"
    using queue_orderedD(1) [OF q(1) _ q(2)] p(3) by simp
next
  fix j assume "i < j" "j < length q"
  then show "starting_period p < starting_period (q ! j) \<and> (processed (q ! j) \<longrightarrow> processed p)"
    using queue_orderedD(1) [OF q(1)] p by auto
qed

lemma starting_period_le_last:
  assumes "queue_ordered q" and "p \<in> set q"
  shows "starting_period p \<le> proposal_period q"
proof -
  from assms(2) obtain i where "i < length q" "p = q ! i" by (auto simp: in_set_conv_nth)
  with queue_orderedD(1) [OF assms(1), of i "length q - 1"] show ?thesis
    by (cases "i = length q - 1") (auto simp: proposal_period_def intro: less_imp_le)
qed

lemma queue_ordered_append:
  assumes "queue_ordered q" and "proposal_period q < starting_period p" and "\<not> processed p"
  shows "queue_ordered (q @ [p])"
  using assms starting_period_le_last [OF assms(1)]
  by (auto simp: queue_ordered_def sorted_wrt_append intro: order_le_less_trans)

lemma checked_add_less:
  fixes a b c :: u128
  assumes "checked_add a 1 = Some c" and "b \<le> a"
  shows "b < c"
  using assms by (simp add: rust_arith word_less_nat_alt word_le_nat_alt)

lemma count_vote_frame:
  assumes "count_vote v w tot p = Some p'"
  shows "starting_period p' = starting_period p" "processed p' = processed p"
    "shares_requested p' = shares_requested p" "did_pass p' = did_pass p" "aborted p' = aborted p"
    "token_tribute p' = token_tribute p" "applicant p' = applicant p" "proposer p' = proposer p"
  using assms by (auto simp: count_vote_def split: Vote.splits)

section \<open>The four parts\<close>

text \<open>
  A summoning is admissible once, while there are no members: the code lets anybody summon again,
  which breaks the share register (see the findings in the root theory).
\<close>

definition first_summon :: "'acc moloch_extrinsic \<Rightarrow> ('acc, 'l) moloch \<Rightarrow> bool" where
  "first_summon x s \<longleftrightarrow>
     (case the_call x of SummonCall _ _ _ _ _ _ _ \<Rightarrow> Members s = Map.empty | _ \<Rightarrow> True)"

lemma summon_inv:
  assumes "moloch_inv cfg s" and "Members s = Map.empty" and "0 < MaxShares cfg"
    and "summon cfg now origin pd vp gp aw db dep rew s = Ok t"
  shows "moloch_inv cfg t"
proof -
  from assms(1,2) have s: "ProposalQueue s = []" "TotalSharesRequested s = 0" "ProposalVotes s (i, a) = None" for i a
    by (auto simp: moloch_inv_defs votes_ok_def requested_sum_def word_unat_eq_iff)
  from assms(4) show ?thesis
  proof (cases rule: summonE)
    case (1 who ev)
    have "shares_sum t = 1"
      using 1(7) assms(2) register_total_insert [of "Members s" "\<lambda>m. unat (shares m)" who]
      by (simp add: shares_sum_def)
    moreover have "0 < unat (MaxShares cfg)" using assms(3) by (simp add: word_less_nat_alt)
    ultimately show ?thesis
      using s assms(2) 1(2-6)
      by (auto simp: 1(7) moloch_inv_defs votes_ok_def requested_sum_def queue_ordered_def map_insert_def
          word_unat_eq_iff split: if_splits)
  qed
qed

lemma custody_inv:
  assumes "moloch_inv cfg s" and "custody cfg origin tribute s = Ok t"
  shows "moloch_inv cfg t"
  using assms(2)
  by (cases rule: custodyE) (use assms(1) in \<open>simp add: moloch_inv_defs votes_ok_def shares_sum_def\<close>)

lemma update_delegate_inv:
  assumes "moloch_inv cfg s" and "update_delegate cfg origin key s = Ok t"
  shows "moloch_inv cfg t"
  using assms(2)
  by (cases rule: update_delegateE) (use assms(1) in \<open>simp add: moloch_inv_defs votes_ok_def shares_sum_def\<close>)

lemma member_positive:
  "0 < shares (member_of cfg s a) \<Longrightarrow> \<exists>m. Members s a = Some m \<and> member_of cfg s a = m"
  by (auto simp: member_of_def map_get_def default_member_def split: option.splits)

lemma submit_proposal_inv:
  assumes "moloch_inv cfg s" and "submit_proposal cfg now origin a tribute requested info s = Ok t"
  shows "moloch_inv cfg t"
  using assms(2)
proof (cases rule: submit_proposalE)
  case (1 who total_requested future period start ev)
  note t = 1(11)
  have later: "proposal_period (ProposalQueue s) < start"
    using checked_add_less [OF 1(10)] by simp
  have nat: "unat total_requested = unat (TotalSharesRequested s) + unat requested"
    "unat (TotalShares s) + unat total_requested \<le> unat (MaxShares cfg)"
    using 1(4,5,6) by (simp_all add: rust_arith word_le_nat_alt)
  obtain m where "Members s (delegate_of cfg s who) = Some m"
    using member_positive [OF 1(3)] by blast
  then have "Members s \<noteq> Map.empty" by (metis option.distinct(1))
  moreover have "queue_inv t"
    using assms(1) later nat(1)
    by (auto simp: t moloch_inv_defs proposal_ok_def intro!: queue_ordered_append)
  moreover have "share_inv cfg t" and "param_inv cfg t"
    using assms(1) nat by (simp_all add: t moloch_inv_defs shares_sum_def)
  moreover have "votes_ok t"
    by (rule votes_ok_mono [of s]) (use assms(1) in \<open>simp_all add: t moloch_inv_def refer_inv_def\<close>)
  ultimately show ?thesis
    using assms(1) by (auto simp: t moloch_inv_def refer_inv_def members_ok_def less_Suc_eq)
qed

lemma submit_vote_inv:
  assumes "moloch_inv cfg s" and "submit_vote cfg now origin idx vote_unit s = Ok t"
  shows "moloch_inv cfg t"
  using assms(2)
proof (cases rule: submit_voteE)
  case (1 who d period expiry counted ev)
  note t = 1(14) and idx = 1(5) and frame = count_vote_frame [OF 1(13)]
  let ?p = "ProposalQueue s ! unat idx"
  obtain m where m: "Members s d = Some m" "member_of cfg s d = m"
    using member_positive [OF 1(4)] by blast
  have okp: "proposal_ok ?p" using assms(1) idx by (simp add: moloch_inv_defs)
  have "queue_inv t"
    using assms(1) idx frame okp
    by (auto simp: t moloch_inv_defs proposal_ok_def requested_sum_same
        intro!: queue_ordered_same dest!: set_update_subset_insert [THEN subsetD])
  moreover have "share_inv cfg t"
    using assms(1) register_total_mutate_same [of "Members s" "\<lambda>m. unat (shares m)" "default_member cfg"
        "\<lambda>mem. mem\<lparr>highest_index_yes_vote := idx\<rparr>" d]
    by (simp add: t moloch_inv_defs shares_sum_def map_mutate_def default_member_def)
  moreover have "param_inv cfg t" using assms(1) by (simp add: t moloch_inv_defs)
  moreover have "members_ok t"
    using assms(1) idx m(1) by (auto simp: t moloch_inv_defs storage_defs split: if_splits)
  moreover have "votes_ok t"
    unfolding votes_ok_def
  proof (intro allI impI)
    fix i a v assume v: "ProposalVotes t (i, a) = Some v"
    have old: "votes_ok s" using assms(1) by (simp add: moloch_inv_def refer_inv_def)
    show "unat i < length (ProposalQueue t) \<and> (v = 1 \<or> v = 2) \<and>
      (\<exists>m. Members t a = Some m \<and> (v = 1 \<longrightarrow> i \<le> highest_index_yes_vote m))"
    proof (cases "(i, a) = (idx, d)")
      case True
      with v 1(6) idx m show ?thesis by (auto simp: t storage_defs vote_of_def not_less)
    next
      case False
      with v have "ProposalVotes s (i, a) = Some v" by (auto simp: t map_insert_def split: if_splits)
      with old obtain m' where m': "unat i < length (ProposalQueue s)" "v = 1 \<or> v = 2"
        "Members s a = Some m'" "v = 1 \<longrightarrow> i \<le> highest_index_yes_vote m'"
        unfolding votes_ok_def by metis
      then show ?thesis using m by (auto simp: t storage_defs)
    qed
  qed
  ultimately show ?thesis by (simp add: moloch_inv_def refer_inv_def)
qed

lemma process_proposal_inv:
  assumes "moloch_inv cfg s" and "process_proposal cfg now origin idx s = Ok t"
  shows "moloch_inv cfg t"
  using assms(2)
proof (cases rule: process_proposalE)
  case g: (1 who period av ag)
  let ?p = "ProposalQueue s ! unat idx"
  from g(9) show ?thesis
  proof (cases rule: process_checkedE)
    case (1 tr bound granted p' ev s4 l ev')
    note tr = 1(1) and t = 1(6)
    have p': "starting_period p' = starting_period ?p" "processed p'" "shares_requested p' = shares_requested ?p"
      "proposal_ok p'"
      using assms(1) g(2,7) by (auto simp: 1(4) moloch_inv_defs proposal_ok_def)
    have fin: "finite (dom (Members s))" using assms(1) by (simp add: moloch_inv_defs)
    note sh = settled_shares [OF 1(5), simplified, OF fin]
    obtain ms ds tot l' cust where "s4 = s\<lparr>TotalSharesRequested := tr, moloch_events := ev,
        Members := ms, AddressOfDelegates := ds, TotalShares := tot, ledger := l', ApplicantCustody := cust\<rparr>"
      using settled_frame [OF 1(5)] by metis
    then have s4: "TotalSharesRequested s4 = tr" "ProposalVotes s4 = ProposalVotes s"
      and "param_inv cfg s4 = param_inv cfg s" by (simp_all add: param_inv_def)
    then have "param_inv cfg t" using assms(1) by (simp add: t moloch_inv_defs)
    moreover have "queue_inv t"
    proof -
      have q: "queue_ordered (ProposalQueue s)" "\<forall>p \<in> set (ProposalQueue s). proposal_ok p"
        "requested_sum (ProposalQueue s) = unat (TotalSharesRequested s)"
        using assms(1) by (simp_all add: moloch_inv_defs)
      have "unat idx = 0 \<or> processed (ProposalQueue s ! (unat idx - 1))"
        using g(8) by auto
      from queue_ordered_process [OF q(1) g(2) this g(7) p'(2,1)]
      have "queue_ordered (ProposalQueue t)" by (simp add: t)
      moreover have "\<forall>p \<in> set (ProposalQueue t). proposal_ok p"
        using q(2) p'(4) set_update_subset_insert [of "ProposalQueue s" "unat idx" p'] by (auto simp: t)
      moreover have "requested_sum (ProposalQueue t) = unat (TotalSharesRequested t)"
        using requested_sum_process [OF g(2,7) p'(2)] q(3) tr s4(1) by (simp add: t)
      ultimately show ?thesis by (simp add: queue_inv_def)
    qed
    moreover have "share_inv cfg t"
      using assms(1) sh s4(1) tr p'(3) by (simp add: t moloch_inv_defs shares_sum_def split: if_splits)
    moreover have "members_ok t"
      using assms(1) settled_members [OF 1(5)] by (fastforce simp: t moloch_inv_defs)
    moreover have "votes_ok t"
      by (rule votes_ok_mono [of s])
        (use assms(1) s4(2) settled_keeps [OF 1(5)] in \<open>fastforce simp: t moloch_inv_def refer_inv_def\<close>)+
    ultimately show ?thesis by (simp add: moloch_inv_def refer_inv_def)
  qed
qed

lemma ragequit_inv:
  assumes "moloch_inv cfg s" and "ragequit cfg origin burn s = Ok t"
  shows "moloch_inv cfg t"
  using assms(2)
proof (cases rule: ragequitE)
  case (1 who m left total scaled payout ev)
  note t = 1(10)
  have nat: "unat (shares m) = unat burn + unat left" "unat (TotalShares s) = unat burn + unat total"
    using 1(6,7) by (simp_all add: rust_arith)
  have fin: "finite (dom (Members s))" using assms(1) by (simp add: moloch_inv_defs)
  have "share_inv cfg t"
    using assms(1) nat 1(2) register_total_insert [OF fin, of "\<lambda>m. unat (shares m)" who "m\<lparr>shares := left\<rparr>"]
    by (simp add: t moloch_inv_defs shares_sum_def)
  moreover have "votes_ok t"
    by (rule votes_ok_mono [of s])
      (use assms(1) 1(2) in \<open>auto simp: t moloch_inv_def refer_inv_def map_insert_def\<close>)
  moreover have "members_ok t" and "queue_inv t" and "param_inv cfg t"
    using assms(1) 1(2,4) by (auto simp: t moloch_inv_defs map_insert_def split: if_splits)
  ultimately show ?thesis by (simp add: moloch_inv_def refer_inv_def)
qed

lemma abort_inv:
  assumes "moloch_inv cfg s" and "abort cfg now origin idx s = Ok t"
  shows "moloch_inv cfg t"
  using assms(2)
proof (cases rule: abortE)
  case (1 who period deadline ev)
  note t = 1(8)
  let ?p = "ProposalQueue s ! unat idx"
  have "proposal_ok ?p" using assms(1) 1(2) by (simp add: moloch_inv_defs)
  then have "queue_inv t"
    using assms(1) 1(2)
    by (auto simp: t moloch_inv_defs proposal_ok_def requested_sum_same
        intro!: queue_ordered_same dest!: set_update_subset_insert [THEN subsetD])
  moreover have "share_inv cfg t" and "refer_inv t" and "param_inv cfg t"
    using assms(1) by (auto simp: t moloch_inv_defs votes_ok_def shares_sum_def)
  ultimately show ?thesis by (simp add: moloch_inv_def)
qed

section \<open>The pallet contract\<close>

lemmas moloch_inv_rules =
  custody_inv submit_proposal_inv submit_vote_inv process_proposal_inv ragequit_inv abort_inv
  update_delegate_inv

lemma moloch_dispatch_inv:
  assumes "moloch_inv cfg s \<and> 0 < MaxShares cfg" and "first_summon x s" and "moloch_dispatch cfg x s = Ok t"
  shows "moloch_inv cfg t \<and> 0 < MaxShares cfg"
  using assms
  by (auto simp: moloch_dispatch_def first_summon_def Let_def
      intro: summon_inv moloch_inv_rules split: moloch_call.splits)

text \<open>Checks come before writes: a call that returns an error has changed nothing.\<close>

lemma moloch_dispatch_err:
  assumes "moloch_dispatch cfg x s = Err e t"
  shows "t = s"
proof -
  have "process_checked cfg who idx s \<noteq> Err d u" for who idx d and u :: "('a, 'b) moloch"
    by (auto simp: process_checked_def Let_def outcome_simps split: prod.splits)
  with assms show ?thesis
    by (auto simp: moloch_dispatch_def summon_def custody_def submit_proposal_def submit_vote_def
        process_proposal_def ragequit_def abort_def update_delegate_def Let_def outcome_simps signed_simps
        split: moloch_call.splits if_splits)
qed

interpretation mol: pallet "moloch_dispatch cfg" first_summon "\<lambda>s. moloch_inv cfg s \<and> 0 < MaxShares cfg" for cfg
  by unfold_locales (rule moloch_dispatch_inv moloch_dispatch_err; assumption)+

end
