(* ===== verification/Test_Env.thy ===== *)
theory Test_Env
  imports Moloch_Ops
begin

text \<open>
  A concrete runtime for the witnesses: accounts are naturals, the ledger is a function from
  accounts to balances with an existential deposit of one, and the configuration has the limits
  of the pallet's mock runtime. It is only an instance of the parameters, used to show that the
  hypotheses of the properties can hold and to evaluate the pallets' own unit tests.
\<close>

type_synonym test_ledger = "nat \<Rightarrow> u128"

definition test_transfer ::
  "test_ledger \<Rightarrow> nat \<Rightarrow> nat \<Rightarrow> u128 \<Rightarrow> existence_requirement \<Rightarrow> bool \<times> test_ledger" where
  "test_transfer l src dst amt er =
     (if amt = 0 \<or> src = dst then (True, l)
      else if amt \<le> l src \<and> unat (l dst) + unat amt < 2 ^ 128 \<and> (er = AllowDeath \<or> 1 \<le> l src - amt)
      then (True, l(src := l src - amt, dst := l dst + amt))
      else (False, l))"

definition test_currency :: "(nat, test_ledger) currency" where
  "test_currency = \<lparr>free_balance = (\<lambda>l a. l a), transfer = test_transfer,
     make_free_balance_be = (\<lambda>l a v. l(a := v)), minimum_balance = 1\<rparr>"

lemma test_currency_lawful: "lawful_currency test_currency"
  by (auto simp: lawful_currency_def test_currency_def test_transfer_def transfer_effect_def
      unat_sub_le word_le_nat_alt unat_add_fits split: if_splits)

lemma test_currency_pays_out: "pays_out test_currency src"
  by (auto simp: pays_out_def test_currency_def test_transfer_def word_le_nat_alt unat_sub_if')

lemma test_currency_alive: "keeps_alive test_currency" "0 < minimum_balance test_currency"
  by (auto simp: keeps_alive_def test_currency_def test_transfer_def split: if_splits)

definition test_moloch :: "bool \<Rightarrow> (nat, test_ledger) moloch_config" where
  "test_moloch checks =
     \<lparr>currency = test_currency, ModuleId = ''py/moloc'', into_account = (\<lambda>_. 100),
      into_sub_account = (\<lambda>_ _. 101), default_account = 0, overflow_checks = checks,
      MaxVotingPeriodLength = 100000000, MaxGracePeriodLength = 100000000,
      MaxDilutionBound = 100000000, MaxShares = 100000000\<rparr>"

definition test_balances :: test_ledger where
  "test_balances = (\<lambda>_. 0)(0 := 1000, 1 := 2000, 2 := 3000, 3 := 4000)"

lemmas test_env_defs = test_moloch_def test_currency_def test_transfer_def test_balances_def

text \<open>What evaluates a Moloch dispatchable on a concrete state.\<close>

lemmas moloch_eval =
  moloch_init_def moloch_account_id_def custody_account_def member_of_def delegate_of_def
  custody_of_def default_member_def storage_defs send_def pay_def deposit_event_def
  summon_def custody_def proposal_period_def submit_proposal_def submit_vote_def vote_of_def count_vote_def
  process_proposal_def process_checked_def vote_outcome_def dilution_exceeded_def
  custody_outage_def settle_passed_def settle_failed_def admit_applicant_def ragequit_def
  abort_def update_delegate_def get_current_period_def ensure_def
  test_env_defs

text \<open>The unit test \<open>add_member_works\<close> of the pallet, run in the model.\<close>

definition test_summoned :: "bool \<Rightarrow> (nat, test_ledger) moloch \<Rightarrow> (nat, test_ledger) moloch_outcome" where
  "test_summoned checks s = summon (test_moloch checks) 0 (Signed 1) 10 2 2 1 1 100 50 s"

definition test_add_member :: "bool \<Rightarrow> (nat, test_ledger) moloch_outcome" where
  "test_add_member checks =
     (let cfg = test_moloch checks in
      and_then (test_summoned checks (moloch_init test_balances)) (\<lambda>s1.
      and_then (custody cfg (Signed 2) 50 s1) (\<lambda>s2.
      and_then (submit_proposal cfg 0 (Signed 1) 2 50 5 [] s2) (\<lambda>s3.
      and_then (submit_vote cfg 20000 (Signed 1) 0 1 s3) (\<lambda>s4.
      process_proposal cfg 80000 (Signed 3) 0 s4)))))"

lemma test_add_member_works:
  "\<exists>s. test_add_member True = Ok s \<and> ledger s 3 = 4050 \<and>
     Members s 2 = Some \<lparr>shares = 5, highest_index_yes_vote = 0, exists = True, delegate_key = 2\<rparr> \<and>
     TotalShares s = 6"
  by (simp add: test_add_member_def test_summoned_def and_then_def moloch_eval rust_eval)

text \<open>
  The states of that test before and after the vote, written out, so that witnesses start from
  them: account 1 has summoned, account 2 has paid a tribute of 50 and is proposed for 5 shares.
\<close>

definition test_calls :: "nat moloch_extrinsic list" where
  "test_calls =
     [\<lparr>at_time = 0, signer = Signed 1, the_call = SummonCall 10 2 2 1 1 100 50\<rparr>,
      \<lparr>at_time = 0, signer = Signed 2, the_call = CustodyCall 50\<rparr>,
      \<lparr>at_time = 0, signer = Signed 1, the_call = SubmitProposalCall 2 50 5 []\<rparr>]"

definition test_proposal :: "nat Proposal" where
  "test_proposal =
     \<lparr>proposer = 1, applicant = 2, shares_requested = 5, starting_period = 1, yes_votes = 0,
      no_votes = 0, processed = False, did_pass = False, aborted = False, token_tribute = 50,
      details = [], max_total_shares_at_yes = 0\<rparr>"

definition test_proposed :: "(nat, test_ledger) moloch" where
  "test_proposed =
     \<lparr>TotalShares = 1, TotalSharesRequested = 5, PeriodDuration = 10, VotingPeriodLength = 2,
      GracePeriodLength = 2, AbortWindow = 1, ProposalDeposit = 100, DilutionBound = 1,
      ProcessingReward = 50, SummonTime = 0,
      Members = [1 \<mapsto> \<lparr>shares = 1, highest_index_yes_vote = 0, exists = True, delegate_key = 1\<rparr>],
      AddressOfDelegates = [1 \<mapsto> 1], ProposalQueue = [test_proposal],
      ProposalVotes = Map.empty, ApplicantCustody = [2 \<mapsto> 50],
      ledger = (\<lambda>_. 0)(0 := 1000, 3 := 4000, 2 := 2950, 101 := 50, 1 := 1900, 100 := 100),
      moloch_events = [SummonComplete 1 1, CustodySucceeded 2 50, SubmitProposal 0 1 1 2 50 5]\<rparr>"

definition test_voted :: "(nat, test_ledger) moloch" where
  "test_voted = test_proposed\<lparr>
     ProposalQueue := [test_proposal\<lparr>yes_votes := 1, max_total_shares_at_yes := 1\<rparr>],
     ProposalVotes := [(0, 1) \<mapsto> 1],
     moloch_events := moloch_events test_proposed @ [SubmitVote 0 1 1 1]\<rparr>"

lemmas test_states = test_voted_def test_proposed_def test_proposal_def

lemma test_run_proposed:
  "apply_extrinsics (moloch_dispatch (test_moloch c)) test_calls (moloch_init test_balances) = test_proposed"
  by (simp add: test_calls_def apply_extrinsic_def moloch_dispatch_def moloch_eval rust_eval
      test_proposed_def test_proposal_def)

lemma test_vote: "submit_vote (test_moloch c) 20000 (Signed 1) 0 1 test_proposed = Ok test_voted"
  by (cases c) (simp_all add: moloch_eval rust_eval test_states Let_def)

end
