(* ===== verification/Moloch_Props.thy ===== *)
theory Moloch_Props
  imports Moloch_Preserve Test_Env
begin

text \<open>
  Properties of the Moloch pallet over runs: the invariant, the history that is never rewritten,
  and the verdict on a proposal.
\<close>

section \<open>Lemmas\<close>

text \<open>Any state is a start for the part of the contract that needs no invariant.\<close>

interpretation mol_any: pallet "moloch_dispatch cfg" "\<lambda>_ _. True" "\<lambda>_. True" for cfg
  by unfold_locales (auto dest: moloch_dispatch_err)

lemma moloch_inv_init: "moloch_inv cfg (moloch_init l)"
  by (simp add: moloch_init_def moloch_inv_defs votes_ok_def shares_sum_def requested_sum_def
      queue_ordered_def)

definition proposal_evolves :: "'acc Proposal \<Rightarrow> 'acc Proposal \<Rightarrow> bool" where
  "proposal_evolves p r \<longleftrightarrow>
     proposer r = proposer p \<and> applicant r = applicant p \<and> shares_requested r = shares_requested p \<and>
     starting_period r = starting_period p \<and> details r = details p \<and>
     (processed p \<longrightarrow> processed r \<and> did_pass r = did_pass p) \<and> (aborted p \<longrightarrow> aborted r)"

definition history_kept :: "('acc, 'l) moloch \<Rightarrow> ('acc, 'l) moloch \<Rightarrow> bool" where
  "history_kept s t \<longleftrightarrow>
     length (ProposalQueue s) \<le> length (ProposalQueue t) \<and>
     (\<forall>i < length (ProposalQueue s). proposal_evolves (ProposalQueue s ! i) (ProposalQueue t ! i)) \<and>
     ProposalVotes s \<subseteq>\<^sub>m ProposalVotes t \<and> dom (Members s) \<subseteq> dom (Members t)"

lemma proposal_evolves_refl [simp]: "proposal_evolves p p"
  by (simp add: proposal_evolves_def)

lemma history_kept_refl: "history_kept s s"
  by (simp add: history_kept_def)

lemma proposal_evolves_trans:
  "proposal_evolves p q \<Longrightarrow> proposal_evolves q r \<Longrightarrow> proposal_evolves p r"
  by (auto simp: proposal_evolves_def)

lemma history_kept_trans: "history_kept a b \<Longrightarrow> history_kept b c \<Longrightarrow> history_kept a c"
  unfolding history_kept_def
  by (elim conjE, intro conjI)
    (force intro: proposal_evolves_trans map_le_trans, force intro: proposal_evolves_trans,
      rule map_le_trans, assumption+, rule subset_trans)

lemma evolves_update:
  "proposal_evolves (q ! i) p \<Longrightarrow> j < length q \<Longrightarrow> proposal_evolves (q ! j) (q[i := p] ! j)"
  by (cases "j = i") auto

lemma count_vote_evolves: "count_vote v w tot p = Some p' \<Longrightarrow> proposal_evolves p p'"
  by (auto simp: count_vote_def proposal_evolves_def split: Vote.splits)

lemma process_effect:
  assumes "process_proposal cfg now (Signed who) idx s = Ok t"
  obtains p p' where "p = ProposalQueue s ! unat idx" "unat idx < length (ProposalQueue s)"
    "\<not> processed p" "ProposalQueue t = (ProposalQueue s)[unat idx := p']" "proposal_evolves p p'"
    "processed p'" "ProposalVotes t = ProposalVotes s" "dom (Members s) \<subseteq> dom (Members t)"
  using assms
proof (cases rule: process_proposalE)
  case g: (1 w period av ag)
  from g(9) show thesis
  proof (cases rule: process_checkedE)
    case (1 tr bound granted p' ev s4 l ev')
    obtain ms ds tot l' cust where s4: "s4 = s\<lparr>TotalSharesRequested := tr, moloch_events := ev,
        Members := ms, AddressOfDelegates := ds, TotalShares := tot, ledger := l', ApplicantCustody := cust\<rparr>"
      using settled_frame [OF 1(5)] by metis
    have "dom (Members s) \<subseteq> dom (Members t)"
      using settled_keeps [OF 1(5)] by (auto simp: 1(6))
    with g(2,7) 1(4,6) s4 show thesis
      by (intro that [OF refl]) (auto simp: proposal_evolves_def)
  qed
qed

lemma dispatch_history:
  assumes "moloch_dispatch cfg x s = Ok t"
  shows "history_kept s t"
proof (cases "the_call x")
  case (SubmitVoteCall idx unit)
  with assms have "submit_vote cfg (at_time x) (signer x) idx unit s = Ok t"
    by (simp add: moloch_dispatch_def)
  then show ?thesis
  proof (cases rule: submit_voteE)
    case (1 who d period expiry counted ev)
    have "ProposalVotes s \<subseteq>\<^sub>m ProposalVotes t"
      using 1(11) by (auto simp: 1(14) map_insert_def map_le_def)
    moreover have "dom (Members s) \<subseteq> dom (Members t)"
      by (auto simp: 1(14) map_mutate_def map_insert_def)
    ultimately show ?thesis
      using evolves_update [OF count_vote_evolves [OF 1(13)]] by (simp add: history_kept_def 1(14))
  qed
next
  case (ProcessProposalCall idx)
  with assms have *: "process_proposal cfg (at_time x) (signer x) idx s = Ok t"
    by (simp add: moloch_dispatch_def)
  then obtain who where "signer x = Signed who" by (auto elim: process_proposalE)
  with * obtain p' where p': "unat idx < length (ProposalQueue s)"
    "ProposalQueue t = (ProposalQueue s)[unat idx := p']"
    "proposal_evolves (ProposalQueue s ! unat idx) p'"
    "ProposalVotes t = ProposalVotes s" "dom (Members s) \<subseteq> dom (Members t)"
    by (metis process_effect)
  then show ?thesis
    using evolves_update [OF p'(3)] by (simp add: history_kept_def)
next
  case (AbortCall idx)
  with assms have "abort cfg (at_time x) (signer x) idx s = Ok t"
    by (simp add: moloch_dispatch_def)
  then show ?thesis
    by (cases rule: abortE)
      (auto simp: history_kept_def intro!: evolves_update, auto simp: proposal_evolves_def)
qed (use assms in \<open>auto simp: moloch_dispatch_def history_kept_def map_insert_def
    nth_append elim!: summonE custodyE submit_proposalE ragequitE abortE update_delegateE\<close>)


lemma test_proposed_inv: "moloch_inv (test_moloch c) test_proposed"
proof -
  have "admissible_run (moloch_dispatch (test_moloch c)) first_summon test_calls (moloch_init test_balances)"
    by (simp add: test_calls_def first_summon_def moloch_init_def)
  moreover have "0 < MaxShares (test_moloch c)" by (simp add: test_moloch_def)
  ultimately show ?thesis
    using mol.run_inv [of "test_moloch c" "moloch_init test_balances" test_calls]
    by (simp add: moloch_inv_init test_run_proposed)
qed

lemma test_voted_inv: "moloch_inv (test_moloch c) test_voted"
  using submit_vote_inv [OF test_proposed_inv test_vote] .

section \<open>The invariant over runs\<close>

text \<open>C1: from the genesis state, after any sequence of extrinsics in which the pallet is summoned
  only while it has no members, the whole invariant holds: the recorded total of shares is the sum
  over the members, recorded plus requested shares stay within the limit, the queue is processed
  from the front with strictly increasing starting periods, the requested shares are those of the
  unprocessed proposals, votes and members point at existing proposals, and the parameters are
  within the configured limits.\<close>

theorem moloch_run_invariant:
  assumes "0 < MaxShares cfg"
    and "admissible_run (moloch_dispatch cfg) first_summon xs (moloch_init l)"
  shows "moloch_inv cfg (apply_extrinsics (moloch_dispatch cfg) xs (moloch_init l))"
  using mol.run_inv [of cfg "moloch_init l" xs] assms moloch_inv_init [of cfg l] by simp

theorem moloch_run_invariant_witness:
  "0 < MaxShares (test_moloch True) \<and>
   admissible_run (moloch_dispatch (test_moloch True)) first_summon test_calls (moloch_init test_balances) \<and>
   moloch_inv (test_moloch True)
     (apply_extrinsics (moloch_dispatch (test_moloch True)) test_calls (moloch_init test_balances))"
proof -
  have lim: "0 < MaxShares (test_moloch True)" by (simp add: test_moloch_def)
  have adm: "admissible_run (moloch_dispatch (test_moloch True)) first_summon test_calls (moloch_init test_balances)"
    by (simp add: test_calls_def first_summon_def moloch_init_def)
  show ?thesis using lim adm moloch_run_invariant [OF lim adm] by simp
qed

text \<open>No extrinsic ever rewrites history. Whatever is applied to whatever state, proposals stay
  in the queue at their position with the same proposer, applicant, requested shares, starting
  period and details; a processed proposal stays processed with its verdict; an aborted one stays
  aborted; recorded votes and members never disappear.\<close>

lemma moloch_history_kept:
  "history_kept s (apply_extrinsics (moloch_dispatch cfg) xs s)"
  by (rule mol_any.run_relates)
    (use history_kept_trans in \<open>auto intro: history_kept_refl dispatch_history\<close>)

section \<open>The verdict\<close>

text \<open>C10: a processed proposal is marked processed, and it passes exactly when it has more yes than
  no votes, the shares that existed at its last yes vote are within the dilution bound, the
  applicant has a custody record, the custody account holds the tribute, and it was not aborted.\<close>

theorem moloch_verdict:
  assumes "moloch_inv cfg s" and "process_proposal cfg now (Signed who) idx s = Ok t"
  shows "let p = ProposalQueue s ! unat idx; p' = ProposalQueue t ! unat idx in
    processed p' \<and>
    (did_pass p' \<longleftrightarrow>
       no_votes p < yes_votes p \<and>
       unat (max_total_shares_at_yes p) \<le> unat (TotalShares s) * unat (DilutionBound s) \<and>
       ApplicantCustody s (applicant p) \<noteq> None \<and>
       token_tribute p \<le> balance cfg (ledger s) (custody_account cfg) \<and> \<not> aborted p)"
  using assms(2)
proof (cases rule: process_proposalE)
  case g: (1 w period av ag)
  have ok: "proposal_ok (ProposalQueue s ! unat idx)"
    using assms(1) g(2) by (simp add: moloch_inv_defs)
  from g(9) show ?thesis
  proof (cases rule: process_checkedE)
    case (1 tr bound granted p' ev s4 l ev')
    then show ?thesis
      using ok g(2,7)
      by (auto simp: Let_def proposal_ok_def vote_outcome_def dilution_exceeded_def custody_outage_def
          deposit_event_def contains_key_def word_less_nat_alt word_le_nat_alt not_less)
  qed
qed

theorem moloch_verdict_witness:
  "\<exists>t. process_proposal (test_moloch True) 80000 (Signed 3) 0 test_voted = Ok t \<and>
       did_pass (ProposalQueue t ! 0)"
proof -
  obtain t where t: "process_proposal (test_moloch True) 80000 (Signed 3) 0 test_voted = Ok t"
    by (simp add: moloch_eval rust_eval test_states Let_def)
  have "no_votes (ProposalQueue test_voted ! 0) < yes_votes (ProposalQueue test_voted ! 0) \<and>
    unat (max_total_shares_at_yes (ProposalQueue test_voted ! 0)) \<le> unat (TotalShares test_voted) * unat (DilutionBound test_voted) \<and>
    ApplicantCustody test_voted (applicant (ProposalQueue test_voted ! 0)) \<noteq> None \<and>
    token_tribute (ProposalQueue test_voted ! 0) \<le>
      balance (test_moloch True) (ledger test_voted) (custody_account (test_moloch True)) \<and>
    \<not> aborted (ProposalQueue test_voted ! 0)"
    by (simp add: test_states test_env_defs custody_account_def)
  with moloch_verdict [OF test_voted_inv t] t show ?thesis by (simp add: Let_def)
qed

text \<open>C21: a proposal that passes makes its applicant a member: an existing member's shares grow by
  the requested shares, a new member starts with exactly those shares, with the applicant's own
  account as delegate key and delegate.\<close>

theorem moloch_passed_applicant:
  assumes "moloch_inv cfg s" and "process_proposal cfg now (Signed who) idx s = Ok t"
    and "did_pass (ProposalQueue t ! unat idx)"
  shows "let a = applicant (ProposalQueue s ! unat idx);
             requested = shares_requested (ProposalQueue s ! unat idx) in
    case Members s a of
      Some m \<Rightarrow> (\<exists>m'. Members t a = Some m' \<and> unat (shares m') = unat (shares m) + unat requested)
    | None \<Rightarrow> Members t a = Some \<lparr>shares = requested, highest_index_yes_vote = 0, exists = True,
                delegate_key = a\<rparr> \<and> AddressOfDelegates t a = Some a"
  using assms(2)
proof (cases rule: process_proposalE)
  case g: (1 w period av ag)
  have ok: "proposal_ok (ProposalQueue s ! unat idx)"
    using assms(1) g(2) by (simp add: moloch_inv_defs)
  from g(9) show ?thesis
  proof (cases rule: process_checkedE)
    case (1 tr bound granted p' ev s4 l ev')
    with assms(3) ok g(2,7) have granted by (auto simp: proposal_ok_def split: if_splits)
    with 1(5) obtain s1 total rest where
      "admit_applicant cfg p' (s\<lparr>TotalSharesRequested := tr, moloch_events := ev\<rparr>) = Some s1"
      "Members t = Members s1" "AddressOfDelegates t = AddressOfDelegates s1"
      by (cases rule: settledE) (auto simp: 1(6))
    then show ?thesis
      using 1(4) \<open>granted\<close>
      by (auto simp: Let_def admit_applicant_def member_of_def storage_defs rust_arith
          split: option.splits if_splits)
  qed
qed

theorem moloch_passed_applicant_witness:
  "\<exists>t. process_proposal (test_moloch True) 80000 (Signed 3) 0 test_voted = Ok t \<and>
       (\<exists>m. Members t 2 = Some m \<and> shares m = 5)"
proof -
  obtain t where t: "process_proposal (test_moloch True) 80000 (Signed 3) 0 test_voted = Ok t"
    and d: "did_pass (ProposalQueue t ! unat (0 :: u128))"
    by (simp add: moloch_eval rust_eval test_states Let_def)
  from moloch_passed_applicant [OF test_voted_inv t d] t show ?thesis
    by (simp add: test_states Let_def)
qed

end
