(* ===== verification/Moloch_Rights.thy ===== *)
theory Moloch_Rights
  imports Moloch_Props
begin

text \<open>
  What the Moloch pallet gives its members: one vote per member and proposal within the voting
  window, the lock that keeps yes voters in until their proposals are processed, a payout on
  leaving that never dilutes those who stay, and processing that makes progress.
\<close>

section \<open>Voting\<close>





text \<open>C11: one member, one vote: once a vote for a member has been counted on a proposal, no later
  vote on that proposal succeeds for the same member, whoever signs it, with whatever delegate
  keys, and whatever happened in between.\<close>

theorem moloch_one_vote:
  assumes "submit_vote cfg now (Signed who) idx unit s = Ok t"
    and "delegate_of cfg (apply_extrinsics (moloch_dispatch cfg) xs t) who' = delegate_of cfg s who"
  shows "submit_vote cfg now' (Signed who') idx unit' (apply_extrinsics (moloch_dispatch cfg) xs t) \<noteq> Ok u"
proof
  let ?t = "apply_extrinsics (moloch_dispatch cfg) xs t"
  assume again: "submit_vote cfg now' (Signed who') idx unit' ?t = Ok u"
  have "history_kept t ?t"
    by (rule mol_any.run_relates)
      (use history_kept_trans in \<open>auto intro: history_kept_refl dispatch_history\<close>)
  then have keep: "ProposalVotes t \<subseteq>\<^sub>m ProposalVotes ?t" by (simp add: history_kept_def)
  from assms(1) have "ProposalVotes t (idx, delegate_of cfg s who) = Some unit"
    by (cases rule: submit_voteE) (auto simp: map_insert_def)
  with keep have "ProposalVotes ?t (idx, delegate_of cfg s who) = Some unit"
    by (auto simp: map_le_def dom_def)
  moreover from again have "ProposalVotes ?t (idx, delegate_of cfg ?t who') = None"
    by (cases rule: submit_voteE) simp
  ultimately show False using assms(2) by simp
qed

theorem moloch_one_vote_witness:
  "submit_vote (test_moloch True) 20000 (Signed 1) 0 1 test_proposed = Ok test_voted \<and>
   (\<forall>u. submit_vote (test_moloch True) 20000 (Signed 1) 0 2 test_voted \<noteq> Ok u)"
  using moloch_one_vote [OF test_vote [of True], of "[]" 1] test_vote [of True]
  by (simp add: delegate_of_def test_states)

section \<open>Leaving\<close>


text \<open>The test state after processing, from which the voter may leave.\<close>

lemma test_process:
  "\<exists>t. process_proposal (test_moloch c) 80000 (Signed 3) 0 test_voted = Ok t \<and>
     ProposalVotes t (0, 1) = Some 1 \<and> (\<exists>u. ragequit (test_moloch c) (Signed 1) 1 t = Ok u)"
  by (cases c) (simp_all add: moloch_eval rust_eval test_states Let_def)


text \<open>C16: leaving never dilutes those who stay: after a \<open>ragequit\<close> the guild bank's balance per
  remaining share is at least what it was before, because the payout is the burned fraction of
  the balance, rounded down.\<close>

theorem moloch_ragequit_fair:
  assumes "lawful_currency (currency cfg)" and "ragequit cfg (Signed who) burn s = Ok t"
  shows "unat (balance cfg (ledger s) (moloch_account_id cfg)) * unat (TotalShares t)
       \<le> unat (balance cfg (ledger t) (moloch_account_id cfg)) * unat (TotalShares s)"
  using assms(2)
proof (cases rule: ragequitE)
  case (1 w m left total scaled payout ev)
  let ?bank = "moloch_account_id cfg"
  let ?A = "unat (balance cfg (ledger s) ?bank)" and ?B = "unat (balance cfg (ledger t) ?bank)"
  have sc: "unat scaled = ?A * unat burn" and tot: "unat (TotalShares s) = unat burn + unat total"
    and pay: "unat payout = ?A * unat burn div unat (TotalShares s)"
    using 1(7,8,9) by (simp_all add: rust_arith)
  have B: "?A \<le> ?B + unat payout"
  proof (cases "?bank = who")
    case True
    then show ?thesis using pay_self [OF assms(1)] 1(1) by (simp add: 1(10))
  next
    case False
    with pay_keep_alive [OF assms(1), of ?bank w "ledger s" payout] 1(1)
    show ?thesis by (auto simp: 1(10))
  qed
  have "?A * unat (TotalShares t) = ?A * (unat (TotalShares s) - unat burn)"
    by (simp add: 1(10) tot)
  also have "\<dots> \<le> ?A * unat (TotalShares s) - unat payout * unat (TotalShares s)"
    by (simp add: pay diff_mult_distrib2 diff_le_mono2)
  also have "\<dots> \<le> ?B * unat (TotalShares s)"
    using mult_le_mono1 [of "?A - unat payout" ?B "unat (TotalShares s)"] B
    by (simp add: diff_mult_distrib)
  finally show ?thesis .
qed

theorem moloch_ragequit_fair_witness:
  "\<exists>t u. ragequit (test_moloch True) (Signed 1) 1 t = Ok u \<and>
     unat (balance (test_moloch True) (ledger t) 100) * unat (TotalShares u)
       \<le> unat (balance (test_moloch True) (ledger u) 100) * unat (TotalShares t)"
proof -
  obtain t u where u: "ragequit (test_moloch True) (Signed 1) 1 t = Ok u"
    using test_process [of True] by blast
  have law: "lawful_currency (currency (test_moloch True))"
    using test_currency_lawful by (simp add: test_moloch_def)
  from moloch_ragequit_fair [OF law u] u show ?thesis
    by (auto simp: moloch_account_id_def test_moloch_def)
qed


section \<open>Progress of processing\<close>

text \<open>Settlement does not panic when shares and custody are within their bounds.\<close>

lemma settled_succeeds:
  assumes fin: "finite (dom (Members s))"
    and bound: "shares_sum s + unat (shares_requested p) < 2 ^ 128" "shares_sum s = unat (TotalShares s)"
    and cust: "overflow_checks cfg \<Longrightarrow> unat tribute \<le> unat (custody_of s (applicant p))"
  shows "settled cfg granted p tribute s \<noteq> None"
proof -
  have "unat (shares (member_of cfg s (applicant p))) \<le> shares_sum s"
    using register_total_le [OF fin, of "applicant p" _ "\<lambda>m. unat (shares m)"]
    by (auto simp: member_of_def map_get_def default_member_def shares_sum_def split: option.splits)
  with bound(1) have "checked_add (shares (member_of cfg s (applicant p))) (shares_requested p) \<noteq> None"
    by (simp add: rust_arith)
  then have "admit_applicant cfg p s \<noteq> None"
    by (simp add: admit_applicant_def Let_def)
  then obtain s1 where s1: "admit_applicant cfg p s = Some s1" by blast
  then obtain ms ds where fr: "s1 = s\<lparr>Members := ms, AddressOfDelegates := ds\<rparr>" by (rule admit_frame)
  have "checked_add (TotalShares s) (shares_requested p) \<noteq> None"
    using bound by (simp add: rust_arith)
  moreover have "plain_sub (overflow_checks cfg) (custody_of s (applicant p)) tribute \<noteq> None"
    using cust plain_sub_fits by (cases "overflow_checks cfg") (auto simp: plain_sub_def checked_sub_def word_le_nat_alt)
  ultimately show ?thesis
    using s1 by (auto simp: settled_def settle_passed_def settle_failed_def Let_def bind_eq_Some_conv
        send_def custody_of_def fr)
qed

lemma process_checked_succeeds:
  assumes "moloch_inv cfg s" and "unat (MaxShares cfg) * unat (MaxDilutionBound cfg) < 2 ^ 128"
    and "unat idx < length (ProposalQueue s)" and "\<not> processed (ProposalQueue s ! unat idx)"
    and "overflow_checks cfg \<longrightarrow> unat (token_tribute (ProposalQueue s ! unat idx))
           \<le> unat (custody_of s (applicant (ProposalQueue s ! unat idx)))"
  shows "\<exists>t. process_checked cfg who idx s = Ok t"
proof -
  let ?p = "(ProposalQueue s ! unat idx)\<lparr>processed := True\<rparr>"
  have inv: "finite (dom (Members s))" "shares_sum s = unat (TotalShares s)"
    "unat (TotalShares s) + unat (TotalSharesRequested s) \<le> unat (MaxShares cfg)"
    "requested_sum (ProposalQueue s) = unat (TotalSharesRequested s)"
    "unat (DilutionBound s) \<le> unat (MaxDilutionBound cfg)" "ProcessingReward s \<le> ProposalDeposit s"
    using assms(1) by (simp_all add: moloch_inv_defs word_le_nat_alt)
  have req: "unat (shares_requested ?p) \<le> unat (TotalSharesRequested s)"
    using requested_sum_ge [OF assms(3,4)] inv(4) by simp
  have "checked_sub (TotalSharesRequested s) (shares_requested ?p) \<noteq> None"
    using req by (simp add: rust_arith)
  then obtain tr where tr: "checked_sub (TotalSharesRequested s) (shares_requested ?p) = Some tr" by blast
  have "unat (TotalShares s) * unat (DilutionBound s) \<le> unat (MaxShares cfg) * unat (MaxDilutionBound cfg)"
    using inv(3,5) by (intro mult_le_mono) auto
  with assms(2) have "checked_mul (TotalShares s) (DilutionBound s) \<noteq> None" by (simp add: rust_arith)
  then obtain bound where bound: "checked_mul (TotalShares s) (DilutionBound s) = Some bound" by blast
  obtain passed s3 where vo: "vote_outcome cfg ?p (token_tribute ?p) bound (s\<lparr>TotalSharesRequested := tr\<rparr>)
      = (passed, s3)" by (cases "vote_outcome cfg ?p (token_tribute ?p) bound (s\<lparr>TotalSharesRequested := tr\<rparr>)")
  obtain ev where s3: "s3 = s\<lparr>TotalSharesRequested := tr, moloch_events := ev\<rparr>"
    using vote_outcome_frame [of cfg ?p "token_tribute ?p" bound "s\<lparr>TotalSharesRequested := tr\<rparr>"] vo by auto
  define g where "g \<longleftrightarrow> passed \<and> \<not> aborted ?p"
  define p' where "p' = (if g then ?p\<lparr>did_pass := True\<rparr> else ?p)"
  have small: "unat (MaxShares cfg) < 2 ^ 128" using unat_lt [of "MaxShares cfg"] by simp
  have "settled cfg g p' (token_tribute ?p) s3 \<noteq> None"
    using inv(1-3) req small assms(5)
    by (intro settled_succeeds) (auto simp: s3 p'_def shares_sum_def custody_of_def)
  then obtain s4 where s4: "settled cfg g p' (token_tribute ?p) s3 = Some s4" by blast
  obtain ms ds tot l cust where "s4 = s3\<lparr>Members := ms, AddressOfDelegates := ds,
    TotalShares := tot, ledger := l, ApplicantCustody := cust\<rparr>" using settled_frame [OF s4] .
  then have "plain_sub (overflow_checks cfg) (ProposalDeposit s4) (ProcessingReward s4) \<noteq> None"
    using plain_sub_fits [of "ProcessingReward s" "ProposalDeposit s"] inv(6)
    by (simp add: s3 word_le_nat_alt)
  with tr bound vo s4 show ?thesis
    by (auto simp: process_checked_def Let_def g_def p'_def settled_def send_def)
qed

text \<open>Processing makes progress: in a state that satisfies the invariant, once voting and grace
  period of the next unprocessed proposal are over, anybody's \<open>process_proposal\<close> succeeds. It
  neither returns an error nor panics, whatever the votes, the dilution bound or the custody
  account say (where overflow is checked, the applicant's custody record must cover the tribute).\<close>

lemma moloch_processing_progress:
  assumes "moloch_inv cfg s" and "unat (MaxShares cfg) * unat (MaxDilutionBound cfg) < 2 ^ 128"
    and "unat idx < length (ProposalQueue s)" and "\<not> processed (ProposalQueue s ! unat idx)"
    and "unat idx = 0 \<or> processed (ProposalQueue s ! (unat idx - 1))"
    and "get_current_period now s = Some period"
    and "unat (starting_period (ProposalQueue s ! unat idx)) + unat (VotingPeriodLength s)
           + unat (GracePeriodLength s) \<le> unat period"
    and "overflow_checks cfg \<longrightarrow> unat (token_tribute (ProposalQueue s ! unat idx))
           \<le> unat (custody_of s (applicant (ProposalQueue s ! unat idx)))"
  shows "\<exists>t. process_proposal cfg now (Signed who) idx s = Ok t"
proof -
  have "plain_sub c period (VotingPeriodLength s) = Some (period - VotingPeriodLength s)"
    and "plain_sub c (period - VotingPeriodLength s) (GracePeriodLength s)
      = Some (period - VotingPeriodLength s - GracePeriodLength s)"
    and "starting_period (ProposalQueue s ! unat idx) \<le> period - VotingPeriodLength s - GracePeriodLength s" for c
    using assms(7) by (auto simp: plain_sub_fits unat_sub_le word_le_nat_alt)
  with process_checked_succeeds [OF assms(1-4,8), of who] show ?thesis
    using assms(3-6) by (auto simp: process_proposal_def Let_def word_unat_eq_iff)
qed

lemma moloch_processing_progress_at_test:
  "\<exists>t. process_proposal (test_moloch True) 80000 (Signed 7) 0 test_voted = Ok t"
proof (rule moloch_processing_progress [OF test_voted_inv])
  show "get_current_period 80000 test_voted = Some 8"
    by (simp add: get_current_period_def test_states rust_eval)
qed (simp_all add: test_states test_moloch_def custody_of_def map_get_def)

text \<open>Processing takes at most the proposal deposit out of the guild bank: the reward of the
  processor and the rest returned to the proposer are together the deposit, and the tribute only
  ever flows into the bank.\<close>

lemma moloch_processing_cost:
  assumes "moloch_inv cfg s" and "lawful_currency (currency cfg)"
    and "custody_account cfg \<noteq> moloch_account_id cfg"
    and "process_proposal cfg now (Signed who) idx s = Ok t"
  shows "unat (balance cfg (ledger s) (moloch_account_id cfg))
       \<le> unat (balance cfg (ledger t) (moloch_account_id cfg)) + unat (ProposalDeposit s)"
proof -
  let ?bank = "moloch_account_id cfg"
  have drop: "unat (balance cfg l ?bank) \<le> unat (balance cfg (pay cfg l ?bank a amt KeepAlive) ?bank) + unat amt"
    for l a amt
    using pay_keep_alive [OF assms(2), of ?bank a l amt] pay_self [OF assms(2), of l ?bank amt KeepAlive]
    by (cases "a = ?bank") auto
  have grow: "unat (balance cfg l ?bank) \<le> unat (balance cfg (pay cfg l (custody_account cfg) a amt AllowDeath) ?bank)"
    for l a amt
    using assms(2)
  proof (cases rule: pay_cases [of cfg l "custody_account cfg" a amt AllowDeath])
    case moved
    from transfer_moved [OF assms(2) moved(2,1)] assms(3) show ?thesis
      by (cases "a = ?bank") (auto simp: transfer_effect_def)
  qed simp_all
  from assms(4) show ?thesis
  proof (cases rule: process_proposalE)
    case (1 w period av ag)
    from 1(9) show ?thesis
    proof (cases rule: process_checkedE)
      case (1 tr bound g p' ev s4 rest ev')
      have "unat (balance cfg (ledger s) ?bank) \<le> unat (balance cfg (ledger s4) ?bank)"
        using 1(5) by (cases rule: settledE) (use grow in simp_all)
      moreover have "ProcessingReward s \<le> ProposalDeposit s" using assms(1) by (simp add: moloch_inv_defs)
      then have "unat (ProposalDeposit s) = unat (ProcessingReward s) + unat rest"
        using 1(7) by (simp add: plain_sub_fits word_le_nat_alt) (auto simp: unat_sub_le word_le_nat_alt)
      ultimately show ?thesis
        using drop [of "ledger s4" w "ProcessingReward s"]
          drop [of "pay cfg (ledger s4) ?bank w (ProcessingReward s) KeepAlive"
            "proposer (ProposalQueue s ! unat idx)" rest]
        by (simp add: 1(6))
    qed
  qed
qed

lemma moloch_processing_cost_at_test:
  "\<exists>t. process_proposal (test_moloch True) 80000 (Signed 3) 0 test_voted = Ok t \<and>
     unat (ledger test_voted 100) \<le> unat (ledger t 100) + 100"
proof -
  obtain t where t: "process_proposal (test_moloch True) 80000 (Signed 3) 0 test_voted = Ok t"
    using test_process [of True] by blast
  have "lawful_currency (currency (test_moloch True))"
    using test_currency_lawful by (simp add: test_moloch_def)
  moreover have "custody_account (test_moloch True) \<noteq> moloch_account_id (test_moloch True)"
    by (simp add: custody_account_def moloch_account_id_def test_moloch_def)
  moreover have "ProposalDeposit test_voted = 100" by (simp add: test_states)
  ultimately show ?thesis
    using moloch_processing_cost [OF test_voted_inv _ _ t] t
    by (auto simp: moloch_account_id_def test_moloch_def test_currency_def)
qed

end
