(* ===== verification/Moloch_Phase.thy ===== *)
theory Moloch_Phase
  imports Moloch_Rights
begin

text \<open>
  The life cycle of a proposal as a state machine: an abstract transition relation on proposals,
  the simulation of it by the dispatchables, and the finality of a processed proposal under a
  clock that does not run backwards, until somebody summons again.
\<close>

section \<open>Transitions of a proposal\<close>

text \<open>
  A proposal collects votes until it is withdrawn by its applicant, and is settled once, as
  accepted or as rejected. That it is settled only after the votes are in is not a matter of
  this relation but of the clock, see below.
\<close>

inductive proposal_trans :: "'acc Proposal \<Rightarrow> 'acc Proposal \<Rightarrow> bool" where
  count_yes: "\<not> aborted p \<Longrightarrow> yes_votes p < y \<Longrightarrow> max_total_shares_at_yes p \<le> m \<Longrightarrow>
    proposal_trans p (p\<lparr>yes_votes := y, max_total_shares_at_yes := m\<rparr>)"
| count_no: "\<not> aborted p \<Longrightarrow> no_votes p < n \<Longrightarrow> proposal_trans p (p\<lparr>no_votes := n\<rparr>)"
| withdraw: "\<not> aborted p \<Longrightarrow> proposal_trans p (p\<lparr>token_tribute := 0, aborted := True\<rparr>)"
| accept: "\<not> processed p \<Longrightarrow> \<not> aborted p \<Longrightarrow> no_votes p < yes_votes p \<Longrightarrow>
    proposal_trans p (p\<lparr>processed := True, did_pass := True\<rparr>)"
| reject: "\<not> processed p \<Longrightarrow> proposal_trans p (p\<lparr>processed := True\<rparr>)"

text \<open>A proposal as \<open>submit_proposal\<close> queues it.\<close>

definition fresh_proposal :: "'acc Proposal \<Rightarrow> bool" where
  "fresh_proposal p \<longleftrightarrow> yes_votes p = 0 \<and> no_votes p = 0 \<and> \<not> processed p \<and> \<not> did_pass p \<and>
     \<not> aborted p \<and> max_total_shares_at_yes p = 0"

lemma proposal_trans_evolves: "proposal_trans p q \<Longrightarrow> proposal_evolves p q"
  by (induction rule: proposal_trans.induct) (auto simp: proposal_evolves_def)

lemma proposal_transs_evolves: "proposal_trans\<^sup>*\<^sup>* p q \<Longrightarrow> proposal_evolves p q"
  by (induction rule: rtranclp_induct) (auto intro: proposal_evolves_trans dest: proposal_trans_evolves)

text \<open>A withdrawn proposal does not pass any more.\<close>

lemma proposal_transs_withdrawn:
  "proposal_trans\<^sup>*\<^sup>* p q \<Longrightarrow> aborted p \<Longrightarrow> aborted q \<and> did_pass q = did_pass p"
proof (induction rule: rtranclp_induct)
  case (step q r)
  from step.hyps(2) step.IH [OF step.prems] show ?case by (cases rule: proposal_trans.cases) auto
qed simp

text \<open>Tallies never go down.\<close>

lemma proposal_transs_tallies:
  "proposal_trans\<^sup>*\<^sup>* p q \<Longrightarrow> yes_votes p \<le> yes_votes q \<and> no_votes p \<le> no_votes q \<and>
     max_total_shares_at_yes p \<le> max_total_shares_at_yes q"
proof (induction rule: rtranclp_induct)
  case (step q r)
  from step.hyps(2) step.IH show ?case by (cases rule: proposal_trans.cases) auto
qed simp

section \<open>The dispatchables simulate it\<close>

lemma count_vote_trans:
  assumes "count_vote v w tot p = Some p'" and "\<not> aborted p" and "0 < w" and "v \<noteq> Null"
  shows "proposal_trans p p'"
proof (cases v)
  case Yes
  with assms(1,3) obtain y where "checked_add (yes_votes p) w = Some y" "yes_votes p < y"
    and p': "p' = p\<lparr>yes_votes := y, max_total_shares_at_yes :=
        (if max_total_shares_at_yes p < tot then tot else max_total_shares_at_yes p)\<rparr>"
    by (auto simp: count_vote_def rust_arith word_less_nat_alt)
  then show ?thesis unfolding p' by (intro count_yes assms(2)) auto
next
  case No
  with assms(1,3) obtain n where "checked_add (no_votes p) w = Some n" "no_votes p < n"
    and p': "p' = p\<lparr>no_votes := n\<rparr>"
    by (auto simp: count_vote_def rust_arith word_less_nat_alt)
  then show ?thesis unfolding p' by (intro count_no assms(2))
qed (use assms(4) in simp)

text \<open>What an extrinsic may do to the queue: one transition of one proposal, or one fresh proposal.\<close>

definition queue_trans :: "'acc Proposal list \<Rightarrow> 'acc Proposal list \<Rightarrow> bool" where
  "queue_trans q r \<longleftrightarrow>
     r = q \<or> (\<exists>p. fresh_proposal p \<and> r = q @ [p]) \<or>
     (\<exists>i p. i < length q \<and> proposal_trans (q ! i) p \<and> r = q[i := p])"

lemma process_trans:
  assumes "process_proposal cfg now og idx s = Ok t"
  shows "queue_trans (ProposalQueue s) (ProposalQueue t)"
  using assms
proof (cases rule: process_proposalE)
  case g: (1 w period av ag)
  let ?p = "ProposalQueue s ! unat idx"
  from g(9) show ?thesis
  proof (cases rule: process_checkedE)
    case (1 tr bound granted p' ev s4 l ev')
    have "proposal_trans ?p p'"
      using g(7) 1(3,4) accept [of ?p] reject [of ?p]
      by (auto simp: vote_outcome_def Let_def split: if_splits)
    with g(2) 1(6) show ?thesis by (auto simp: queue_trans_def)
  qed
qed

lemma dispatch_queue_trans:
  assumes "moloch_dispatch cfg x s = Ok t"
  shows "queue_trans (ProposalQueue s) (ProposalQueue t)"
proof (cases "the_call x")
  case (SubmitProposalCall a tribute requested info)
  with assms show ?thesis
    by (auto simp: moloch_dispatch_def queue_trans_def fresh_proposal_def elim!: submit_proposalE)
next
  case (SubmitVoteCall idx unit)
  with assms have "submit_vote cfg (at_time x) (signer x) idx unit s = Ok t"
    by (simp add: moloch_dispatch_def)
  then show ?thesis
  proof (cases rule: submit_voteE)
    case (1 who d period expiry counted ev)
    have "vote_of unit \<noteq> Null" using 1(6) by (auto simp: vote_of_def)
    from count_vote_trans [OF 1(13,12,4) this] 1(5,14) show ?thesis
      by (auto simp: queue_trans_def)
  qed
next
  case (ProcessProposalCall idx)
  with assms show ?thesis by (auto simp: moloch_dispatch_def intro: process_trans)
next
  case (AbortCall idx)
  with assms have "abort cfg (at_time x) (signer x) idx s = Ok t"
    by (simp add: moloch_dispatch_def)
  then show ?thesis
  proof (cases rule: abortE)
    case (1 who period deadline ev)
    with withdraw [OF 1(7)] show ?thesis by (auto simp: queue_trans_def)
  qed
qed (use assms in \<open>auto simp: moloch_dispatch_def queue_trans_def
    elim!: summonE custodyE ragequitE update_delegateE\<close>)

text \<open>Over a run: every queued proposal went through the machine, every new one started fresh.\<close>

definition queue_history :: "'acc Proposal list \<Rightarrow> 'acc Proposal list \<Rightarrow> bool" where
  "queue_history q r \<longleftrightarrow>
     length q \<le> length r \<and>
     (\<forall>i < length r. if i < length q then proposal_trans\<^sup>*\<^sup>* (q ! i) (r ! i)
        else \<exists>p. fresh_proposal p \<and> proposal_trans\<^sup>*\<^sup>* p (r ! i))"

lemma queue_history_refl: "queue_history q q"
  by (simp add: queue_history_def)

lemma queue_history_trans:
  assumes ab: "queue_history a b" and bc: "queue_history b c"
  shows "queue_history a c"
  unfolding queue_history_def
proof (intro conjI allI impI)
  show "length a \<le> length c" using ab bc by (simp add: queue_history_def)
  fix i assume "i < length c"
  then have c: "if i < length b then proposal_trans\<^sup>*\<^sup>* (b ! i) (c ! i)
      else \<exists>p. fresh_proposal p \<and> proposal_trans\<^sup>*\<^sup>* p (c ! i)"
    using bc unfolding queue_history_def by blast
  have b: "if i < length a then proposal_trans\<^sup>*\<^sup>* (a ! i) (b ! i)
      else \<exists>p. fresh_proposal p \<and> proposal_trans\<^sup>*\<^sup>* p (b ! i)" if "i < length b"
    using ab that unfolding queue_history_def by blast
  have le: "length a \<le> length b" using ab by (simp add: queue_history_def)
  show "if i < length a then proposal_trans\<^sup>*\<^sup>* (a ! i) (c ! i)
      else \<exists>p. fresh_proposal p \<and> proposal_trans\<^sup>*\<^sup>* p (c ! i)"
  proof (cases "i < length b")
    case True
    with b c show ?thesis by (auto intro: rtranclp_trans split: if_splits)
  next
    case False
    with c le show ?thesis by auto
  qed
qed

lemma queue_trans_history: "queue_trans q r \<Longrightarrow> queue_history q r"
  unfolding queue_trans_def
  by (elim disjE exE conjE)
    (auto simp: queue_history_def nth_append nth_list_update intro: r_into_rtranclp)

lemma queue_historyD:
  assumes "queue_history q r"
  shows "length q \<le> length r"
    and "i < length r \<Longrightarrow> length q \<le> i \<Longrightarrow> \<exists>p. fresh_proposal p \<and> proposal_trans\<^sup>*\<^sup>* p (r ! i)"
    and "i < length q \<Longrightarrow> proposal_trans\<^sup>*\<^sup>* (q ! i) (r ! i)"
  using assms [unfolded queue_history_def] by (simp, force, force)

lemma run_queue_history:
  "queue_history (ProposalQueue s) (ProposalQueue (apply_extrinsics (moloch_dispatch cfg) xs s))"
  by (rule mol_any.run_relates [of "\<lambda>s t. queue_history (ProposalQueue s) (ProposalQueue t)"])
    (auto intro: queue_history_refl queue_history_trans queue_trans_history dispatch_queue_trans)

text \<open>C28: every sequence of extrinsics drives every proposal through the same state machine: a new
  proposal starts without votes and unsettled, votes only add to its tallies and stop when it is
  aborted, it is settled once, and as accepted only with more yes than no votes and unless it was
  aborted. Consequently proposer, applicant, requested shares, starting period and details never
  change, a settled proposal keeps its verdict, and an aborted one does not pass any more.\<close>

theorem moloch_proposal_lifecycle:
  "let q = ProposalQueue s; r = ProposalQueue (apply_extrinsics (moloch_dispatch cfg) xs s) in
    length q \<le> length r \<and>
    (\<forall>i. i < length r \<longrightarrow> length q \<le> i \<longrightarrow> (\<exists>p. fresh_proposal p \<and> proposal_trans\<^sup>*\<^sup>* p (r ! i))) \<and>
    (\<forall>i. i < length q \<longrightarrow> proposal_trans\<^sup>*\<^sup>* (q ! i) (r ! i) \<and> proposal_evolves (q ! i) (r ! i) \<and>
       (aborted (q ! i) \<longrightarrow> did_pass (r ! i) = did_pass (q ! i)))"
  unfolding Let_def
  by (intro conjI allI impI)
    (use queue_historyD [OF run_queue_history [of s cfg xs]] proposal_transs_evolves
      proposal_transs_withdrawn in blast)+

theorem moloch_proposal_lifecycle_witness:
  "proposal_trans\<^sup>*\<^sup>* (ProposalQueue test_proposed ! 0) (ProposalQueue test_voted ! 0)"
proof -
  let ?x = "\<lparr>at_time = 20000, signer = Signed (1 :: nat), the_call = SubmitVoteCall 0 1\<rparr>"
  have "apply_extrinsics (moloch_dispatch (test_moloch True)) [?x] test_proposed = test_voted"
    using test_vote [of True] by (simp add: apply_extrinsic_def moloch_dispatch_def)
  with moloch_proposal_lifecycle [of test_proposed "test_moloch True" "[?x]"] show ?thesis
    by (simp add: Let_def test_states)
qed

section \<open>Finality\<close>














end
