(* ===== verification/Moloch_Findings.thy ===== *)
theory Moloch_Findings
  imports Moloch_Phase
begin

text \<open>
  Where the Moloch pallet does not do what its comments, guide or checks say: theorems about the
  code as it is, stated in general where the behaviour is general.
\<close>

section \<open>Readiness of a proposal\<close>

text \<open>Where overflow is checked, a proposal is processed only after its voting and grace periods:
  the current period has reached the sum of starting period, voting period and grace period.\<close>

lemma moloch_ready_checked:
  assumes "overflow_checks cfg" and "process_proposal cfg now (Signed who) idx s = Ok t"
  shows "unat (starting_period (ProposalQueue s ! unat idx)) + unat (VotingPeriodLength s)
       + unat (GracePeriodLength s)
     \<le> (unat now - unat (SummonTime s)) div 1000 div unat (PeriodDuration s)"
  using assms(2)
  by (cases rule: process_proposalE)
    (use assms(1) in \<open>auto simp: plain_sub_def rust_arith get_current_period_Some word_le_nat_alt\<close>)

text \<open>C37: in a release build, where plain subtraction wraps around, the readiness check passes
  before the voting and grace periods have elapsed: as long as the current period is smaller than
  the sum of the two lengths, the difference wraps to a huge number, and anybody can process the
  next proposal at once, before a single vote.\<close>

theorem moloch_early_processing:
  assumes "\<not> overflow_checks cfg" and "moloch_inv cfg s"
    and "unat (MaxShares cfg) * unat (MaxDilutionBound cfg) < 2 ^ 128"
    and "unat idx < length (ProposalQueue s)" and "\<not> processed (ProposalQueue s ! unat idx)"
    and "unat idx = 0 \<or> processed (ProposalQueue s ! (unat idx - 1))"
    and "get_current_period now s = Some period"
    and "unat period < unat (VotingPeriodLength s) + unat (GracePeriodLength s)"
    and "unat (starting_period (ProposalQueue s ! unat idx)) + unat (VotingPeriodLength s)
           + unat (GracePeriodLength s) \<le> 2 ^ 128 + unat period"
  shows "\<exists>t. process_proposal cfg now (Signed who) idx s = Ok t \<and>
    processed (ProposalQueue t ! unat idx)"
proof -
  let ?v = "VotingPeriodLength s" and ?g = "GracePeriodLength s"
  have lt: "int (unat period) < int (unat ?v) + int (unat ?g)"
    using assms(8) by linarith
  have le: "int (unat (starting_period (ProposalQueue s ! unat idx))) + int (unat ?v) + int (unat ?g)
      \<le> 2 ^ 128 + int (unat period)"
    using iffD2 [OF of_nat_le_iff [where ?'a = int], OF assms(9)] by simp
  have "int (unat (period - ?v - ?g)) = (int (unat period) - int (unat ?v) - int (unat ?g)) mod 2 ^ 128"
    by (simp add: uint_word_ariths mod_simps flip: uint_nat)
  also have "\<dots> = (int (unat period) - int (unat ?v) - int (unat ?g) + 2 ^ 128) mod 2 ^ 128"
    by simp
  also have "\<dots> = int (unat period) - int (unat ?v) - int (unat ?g) + 2 ^ 128"
    using lt le of_nat_0_le_iff [of "unat (starting_period (ProposalQueue s ! unat idx))", where 'a = int]
    by (intro mod_pos_pos_trivial) linarith+
  finally have "int (unat (starting_period (ProposalQueue s ! unat idx))) \<le> int (unat (period - ?v - ?g))"
    using le by simp
  then have "starting_period (ProposalQueue s ! unat idx) \<le> period - ?v - ?g"
    by (simp only: word_le_nat_alt of_nat_le_iff)
  moreover have "plain_sub (overflow_checks cfg) a b = Some (a - b)" for a b :: u128
    using assms(1) by (simp add: plain_sub_def)
  moreover obtain t where t: "process_checked cfg who idx s = Ok t"
    using process_checked_succeeds [OF assms(2-5)] assms(1) by blast
  ultimately have p: "process_proposal cfg now (Signed who) idx s = Ok t"
    using assms(4-7) by (auto simp: process_proposal_def Let_def word_unat_eq_iff)
  moreover from p have "processed (ProposalQueue t ! unat idx)"
    by (rule process_effect) auto
  ultimately show ?thesis by blast
qed


theorem moloch_early_processing_witness:
  "\<exists>t. process_proposal (test_moloch False) 0 (Signed 9) 0 test_proposed = Ok t \<and>
     processed (ProposalQueue t ! 0)"
proof -
  have "get_current_period 0 test_proposed = Some 0"
    by (simp add: get_current_period_def test_states rust_eval)
  from moloch_early_processing [OF _ test_proposed_inv _ _ _ _ this, of False 0 9]
  show ?thesis by (simp add: test_moloch_def test_states)
qed

section \<open>Payments whose result is thrown away\<close>

text \<open>\<open>custody\<close> records the tribute whether or not it was paid: when the transfer fails, the
  ledger is unchanged, and the caller has a custody record all the same. A record also replaces
  the previous one instead of adding to it.\<close>

lemma moloch_custody_unpaid:
  assumes "lawful_currency (currency cfg)"
    and "fst (transfer (currency cfg) (ledger s) who (custody_account cfg) tribute KeepAlive) = False"
  shows "\<exists>t. custody cfg (Signed who) tribute s = Ok t \<and> ledger t = ledger s \<and>
    ApplicantCustody t who = Some tribute"
  using transfer_failed [OF assms(1), of "ledger s" who "custody_account cfg" tribute KeepAlive] assms(2)
  by (cases "transfer (currency cfg) (ledger s) who (custody_account cfg) tribute KeepAlive")
    (simp add: custody_def Let_def send_def pay_def deposit_event_def map_insert_def)

lemma moloch_custody_unpaid_at_test:
  "\<exists>t. custody (test_moloch True) (Signed 9) 1000000 test_proposed = Ok t \<and>
     ledger t = ledger test_proposed \<and> ApplicantCustody t 9 = Some 1000000"
proof -
  have "lawful_currency (currency (test_moloch True))"
    using test_currency_lawful by (simp add: test_moloch_def)
  moreover have "fst (transfer (currency (test_moloch True)) (ledger test_proposed) 9
      (custody_account (test_moloch True)) 1000000 KeepAlive) = False"
    by (simp add: test_env_defs test_states custody_account_def)
  ultimately show ?thesis by (rule moloch_custody_unpaid)
qed

text \<open>
  Two proposals for one applicant who paid one tribute of 50 (account 2), while another applicant
  (account 3) has paid 60 into the same custody account.
\<close>

definition test_two_proposals :: "(nat, test_ledger) moloch_outcome" where
  "test_two_proposals =
     (let cfg = test_moloch True in
      and_then (test_summoned True (moloch_init test_balances)) (\<lambda>s1.
      and_then (custody cfg (Signed 2) 50 s1) (\<lambda>s2.
      and_then (custody cfg (Signed 3) 60 s2) (\<lambda>s3.
      and_then (submit_proposal cfg 0 (Signed 1) 2 50 5 [] s3) (\<lambda>s4.
      submit_proposal cfg 0 (Signed 1) 2 50 5 [] s4)))))"

text \<open>One tribute is refunded twice: the applicant of two proposals aborts both and receives
  the tribute two times, the second time out of what another applicant has in custody.\<close>

lemma moloch_double_refund:
  "\<exists>s. test_two_proposals = Ok s \<and> ledger s 101 = 110 \<and> ledger s 2 = 2950 \<and>
     (\<exists>t. and_then (abort (test_moloch True) 0 (Signed 2) 0 s) (abort (test_moloch True) 0 (Signed 2) 1) = Ok t \<and>
        ledger t 101 = 10 \<and> ledger t 2 = 3050 \<and> ApplicantCustody t 3 = Some 60)"
  by (simp add: test_two_proposals_def test_summoned_def and_then_def moloch_eval rust_eval Let_def)

text \<open>
  In a build without overflow checks a proposal can be processed before its abort window has
  passed. The applicant gets the tribute back once when it fails and once more by aborting it.
\<close>

lemma moloch_abort_after_processing:
  "\<exists>s. test_two_proposals = Ok s \<and> ledger s 2 = 2950 \<and>
     (\<exists>t. and_then (process_proposal (test_moloch False) 0 (Signed 9) 0 s)
            (abort (test_moloch False) 0 (Signed 2) 0) = Ok t \<and>
        ledger t 101 = 10 \<and> ledger t 2 = 3050)"
  by (simp add: word_le_def test_two_proposals_def test_summoned_def and_then_def moloch_eval rust_eval Let_def)

text \<open>
  Deposits of pending proposals are in the same account as the guild bank, and \<open>ragequit\<close> divides
  the balance of that account. After the test of the pallet, account 1 proposes account 3 with a
  deposit of 100, and account 2 leaves with five of the six shares: it takes 125 of the 150 in the
  account, of which 100 are the deposit. When the proposal is processed, neither the processor
  (account 9) is rewarded nor the proposer gets anything back.
\<close>

definition test_leave_early :: "(nat, test_ledger) moloch_outcome" where
  "test_leave_early =
     (let cfg = test_moloch True in
      and_then (test_add_member True) (\<lambda>s1.
      and_then (custody cfg (Signed 3) 0 s1) (\<lambda>s2.
      and_then (submit_proposal cfg 80000 (Signed 1) 3 0 1 [] s2) (ragequit cfg (Signed 2) 5))))"

lemma moloch_ragequit_takes_deposit:
  "\<exists>s. test_leave_early = Ok s \<and> ledger s 100 = 25 \<and> ledger s 2 = 3075 \<and> ledger s 1 = 1850 \<and>
     (\<exists>t. process_proposal (test_moloch True) 130000 (Signed 9) 1 s = Ok t \<and>
        ledger t 1 = 1850 \<and> ledger t 9 = 0)"
  by (simp add: test_leave_early_def test_add_member_def test_summoned_def and_then_def
      moloch_eval rust_eval Let_def)

text \<open>C39: whoever holds all shares and leaves gets nothing: the payout is the whole balance of the
  guild bank, \<open>KeepAlive\<close> refuses it, and the refusal is thrown away after the shares were burned.
  The money stays in the bank, nobody holds a share any more, and no proposal or vote is accepted.\<close>

theorem moloch_last_member_unpaid:
  assumes "lawful_currency (currency cfg)" and "keeps_alive (currency cfg)"
    and "0 < minimum_balance (currency cfg)" and "moloch_inv cfg s"
    and "ragequit cfg (Signed who) (TotalShares s) s = Ok t" and "who \<noteq> moloch_account_id cfg"
    and "balance cfg (ledger s) (moloch_account_id cfg) \<noteq> 0"
  shows "ledger t = ledger s \<and> (\<forall>a m. Members t a = Some m \<longrightarrow> shares m = 0) \<and>
    (\<forall>now og idx unit u. submit_vote cfg now og idx unit t \<noteq> Ok u) \<and>
    (\<forall>now og a tribute requested info u. submit_proposal cfg now og a tribute requested info t \<noteq> Ok u)"
  using assms(5)
proof (cases rule: ragequitE)
  case (1 w m left total scaled payout ev)
  let ?bank = "moloch_account_id cfg"
  have "TotalShares s \<noteq> 0" using 1(9) by (auto simp: checked_div_def split: if_splits)
  then have "0 < unat (TotalShares s)" by (simp add: unat_gt_0)
  with 1(8,9) have "unat payout = unat (balance cfg (ledger s) ?bank)" by (simp add: rust_arith)
  then have pay: "payout = balance cfg (ledger s) ?bank" by (rule word_unat_eq_iff [THEN iffD2])
  from pay_everything [OF assms(1-3) assms(6) [symmetric] pay] assms(7) 1(1)
  have led: "ledger t = ledger s" by (simp add: 1(10) pay)
  have inv: "moloch_inv cfg t" using ragequit_inv [OF assms(4,5)] .
  have "TotalShares t = 0" using 1(7) by (simp add: 1(10) checked_sub_def split: if_splits)
  with inv have "finite (dom (Members t))" and sum: "shares_sum t = 0" by (auto simp: moloch_inv_defs)
  from register_total_le [OF this(1), of _ _ "\<lambda>m. unat (shares m)"] sum
  have zero: "shares m = 0" if "Members t a = Some m" for a m
    using that by (fastforce simp: shares_sum_def unat_eq_0)
  then have "shares (member_of cfg t a) = 0" for a
    by (auto simp: member_of_def map_get_def default_member_def split: option.splits)
  with led zero show ?thesis
    by (auto elim!: submit_voteE submit_proposalE)
qed

text \<open>After the proposal of the test has failed, account 1 leaves with the only share.\<close>

lemma test_rejected:
  "\<exists>s t. process_proposal (test_moloch c) 80000 (Signed 3) 0 test_proposed = Ok s \<and>
     TotalShares s = 1 \<and> ledger s 100 = 50 \<and> ragequit (test_moloch c) (Signed 1) (TotalShares s) s = Ok t"
  by (cases c) (simp_all add: moloch_eval rust_eval test_states Let_def)

theorem moloch_last_member_unpaid_witness:
  "\<exists>s t. ragequit (test_moloch True) (Signed 1) (TotalShares s) s = Ok t \<and> TotalShares s = 1 \<and>
     ledger s 100 = 50 \<and> ledger t = ledger s"
proof -
  obtain s t where s: "process_proposal (test_moloch True) 80000 (Signed 3) 0 test_proposed = Ok s"
    and t: "ragequit (test_moloch True) (Signed 1) (TotalShares s) s = Ok t"
    and bal: "TotalShares s = 1" "ledger s 100 = 50"
    using test_rejected [of True] by blast
  have bank: "moloch_account_id (test_moloch True) = 100" "currency (test_moloch True) = test_currency"
    "balance (test_moloch True) (ledger s) 100 = 50"
    using bal(2) by (simp_all add: moloch_account_id_def test_moloch_def test_currency_def)
  have "ledger t = ledger s"
    using moloch_last_member_unpaid [OF _ _ _ process_proposal_inv [OF test_proposed_inv s] t]
      test_currency_lawful test_currency_alive bank by simp
  with t bal show ?thesis by blast
qed

section \<open>Summoning and delegates\<close>

text \<open>Anybody can summon again. It resets the recorded total to one share while the members
  keep theirs, so that whenever somebody else holds shares the total is wrong, and the payout of
  \<open>ragequit\<close> is computed from it.\<close>

lemma moloch_resummon_breaks_total:
  assumes "moloch_inv cfg s" and "Members s b = Some m" and "0 < shares m" and "b \<noteq> who"
    and "summon cfg now (Signed who) pd vp gp aw db dep rew s = Ok t"
  shows "unat (TotalShares t) < shares_sum t \<and> \<not> share_inv cfg t"
  using assms(5)
proof (cases rule: summonE)
  case (1 w ev)
  then have who: "w = who" by simp
  let ?wt = "\<lambda>m. unat (shares m)"
  have fin: "finite (dom (Members t))" using assms(1) by (simp add: 1(7) moloch_inv_defs)
  have tw: "Members t who = Some \<lparr>shares = 1, highest_index_yes_vote = 0, exists = True, delegate_key = who\<rparr>"
    and tb: "Members t b = Some m"
    using assms(2,4) by (simp_all add: 1(7) who map_insert_def)
  have "(\<Sum>k\<in>{who, b}. ?wt (the (Members t k))) \<le> shares_sum t"
    unfolding shares_sum_def register_total_def using fin tw tb by (intro sum_mono2) auto
  moreover have "0 < unat (shares m)" using assms(3) by (simp add: word_less_nat_alt)
  ultimately have "1 < shares_sum t" using assms(4) tw tb by simp
  then show ?thesis by (simp add: 1(7) share_inv_def shares_sum_def)
qed

lemma moloch_resummon_breaks_total_at_test:
  "\<exists>t. summon (test_moloch True) 0 (Signed 9) 10 2 2 1 1 100 50 test_proposed = Ok t \<and>
     unat (TotalShares t) < shares_sum t"
proof -
  obtain t where t: "summon (test_moloch True) 0 (Signed 9) 10 2 2 1 1 100 50 test_proposed = Ok t"
    by (simp add: summon_def ensure_def test_moloch_def Let_def)
  from moloch_resummon_breaks_total [OF test_proposed_inv _ _ _ t, of 1] t show ?thesis
    by (auto simp: test_states)
qed




text \<open>A period length of zero is accepted by \<open>summon\<close> and then blocks the organisation: every
  later vote, processing and abort of an existing proposal panics on the division.\<close>

lemma moloch_zero_period_blocks:
  assumes "summon cfg now (Signed who) 0 vp gp aw db dep rew s = Ok t"
  shows "get_current_period now' t = None \<and>
    process_proposal cfg now' (Signed w) idx t \<in> {Panic, Err (Module ProposalNotExist) t} \<and>
    (\<forall>u. submit_vote cfg now' (Signed w) idx unit t \<noteq> Ok u) \<and>
    (\<forall>u. submit_proposal cfg now' (Signed w) a tribute requested info t \<noteq> Ok u) \<and>
    (\<forall>u. abort cfg now' (Signed w) idx t \<noteq> Ok u)"
proof -
  from assms have "PeriodDuration t = 0" by (cases rule: summonE) simp
  then have none: "get_current_period now' t = None"
    using get_current_period_Some [of now' t] by (cases "get_current_period now' t") auto
  then show ?thesis
    by (auto simp: process_proposal_def Let_def ensure_def
        elim!: submit_voteE submit_proposalE abortE)
qed

lemma moloch_zero_period_blocks_at_test:
  "\<exists>t. summon (test_moloch True) 5 (Signed 1) 0 2 2 1 1 100 50 (moloch_init test_balances) = Ok t \<and>
     get_current_period 9 t = None"
proof -
  obtain t where t: "summon (test_moloch True) 5 (Signed 1) 0 2 2 1 1 100 50 (moloch_init test_balances) = Ok t"
    by (simp add: summon_def ensure_def test_moloch_def Let_def)
  from moloch_zero_period_blocks [OF t] t show ?thesis by blast
qed

text \<open>Changing the delegate key twice leaves both keys valid: the new key is written to a
  copy of the member that is thrown away, so the second change removes the member's original key
  again and never the first replacement.\<close>

lemma moloch_delegate_key_stays:
  assumes "update_delegate cfg (Signed who) key1 s = Ok t"
    and "update_delegate cfg (Signed who) key2 t = Ok u"
    and "key1 \<noteq> key2" and "delegate_key (member_of cfg s who) \<noteq> key1"
  shows "Members u = Members s \<and> AddressOfDelegates u key1 = Some who \<and> AddressOfDelegates u key2 = Some who"
  using assms(1)
proof (cases rule: update_delegateE)
  case (1 w ev)
  from assms(2) show ?thesis
    by (cases rule: update_delegateE)
      (use 1 assms(3,4) in \<open>auto simp: member_of_def map_insert_def map_remove_def\<close>)
qed

lemma moloch_delegate_key_stays_at_test:
  "\<exists>t u. update_delegate (test_moloch True) (Signed 1) 8 test_proposed = Ok t \<and>
     update_delegate (test_moloch True) (Signed 1) 9 t = Ok u \<and>
     AddressOfDelegates u 8 = Some 1 \<and> AddressOfDelegates u 9 = Some 1"
proof -
  obtain t u where t: "update_delegate (test_moloch True) (Signed 1) 8 test_proposed = Ok t"
    and u: "update_delegate (test_moloch True) (Signed 1) 9 t = Ok u"
    by (simp add: update_delegate_def ensure_def test_states delegate_of_def member_of_def storage_defs
        test_moloch_def Let_def deposit_event_def)
  have "delegate_key (member_of (test_moloch True) test_proposed 1) \<noteq> 8"
    by (simp add: member_of_def map_get_def test_states)
  from moloch_delegate_key_stays [OF t u _ this] t u show ?thesis by auto
qed

end
