(* ===== verification/Moloch_Drain.thy ===== *)
theory Moloch_Drain
  imports Moloch_Phase
begin

text \<open>
  When the queue of the Moloch pallet can be drained: once the periods of all proposals are over,
  processing one after the other settles all of them. Where overflow is checked it succeeds exactly
  when the custody records of the applicants cover the pending tributes.
\<close>

section \<open>Custody records and pending tributes\<close>

text \<open>What an applicant has been proposed for in proposals that are not processed yet.\<close>

definition pending_tribute :: "'acc Proposal list \<Rightarrow> 'acc \<Rightarrow> nat" where
  "pending_tribute q a =
     sum_list (map (\<lambda>p. if processed p \<or> applicant p \<noteq> a then 0 else unat (token_tribute p)) q)"

definition custody_covers :: "('acc, 'l) moloch \<Rightarrow> bool" where
  "custody_covers s \<longleftrightarrow> (\<forall>a. pending_tribute (ProposalQueue s) a \<le> unat (custody_of s a))"

lemma pending_tribute_process:
  assumes "i < length q" and "\<not> processed (q ! i)" and "processed p"
  shows "pending_tribute (q[i := p]) a +
    (if applicant (q ! i) = a then unat (token_tribute (q ! i)) else 0) = pending_tribute q a"
  using sum_list_map_update [OF assms(1),
      of "\<lambda>p. if processed p \<or> applicant p \<noteq> a then 0 else unat (token_tribute p)" p]
    assms(2,3) by (simp add: pending_tribute_def split: if_splits)

lemma pending_tribute_ge:
  assumes "i < length q" and "\<not> processed (q ! i)"
  shows "unat (token_tribute (q ! i)) \<le> pending_tribute q (applicant (q ! i))"
  using sum_list_map_nth_le [OF assms(1),
      of "\<lambda>p. if processed p \<or> applicant p \<noteq> applicant (q ! i) then 0 else unat (token_tribute p)"]
    assms(2) by (simp add: pending_tribute_def)

text \<open>The change of the state by processing, as far as the next proposals depend on it.\<close>

lemma process_effect_params:
  assumes "process_proposal cfg now (Signed who) idx s = Ok t"
  defines "p \<equiv> ProposalQueue s ! unat idx"
  obtains p' rest where "unat idx < length (ProposalQueue s)" "\<not> processed p" "processed p'"
    "starting_period p' = starting_period p" "ProposalQueue t = (ProposalQueue s)[unat idx := p']"
    "plain_sub (overflow_checks cfg) (custody_of s (applicant p)) (token_tribute p) = Some rest"
    "ApplicantCustody t = map_insert (ApplicantCustody s) (applicant p) rest"
    "SummonTime t = SummonTime s" "PeriodDuration t = PeriodDuration s"
    "VotingPeriodLength t = VotingPeriodLength s" "GracePeriodLength t = GracePeriodLength s"
  using assms(1)
proof (cases rule: process_proposalE)
  case g: (1 w period av ag)
  from g(9) show thesis
  proof (cases rule: process_checkedE)
    case (1 tr bound granted p' ev s4 rest ev')
    obtain ms ds tot l cust where s4: "s4 = s\<lparr>TotalSharesRequested := tr, moloch_events := ev,
        Members := ms, AddressOfDelegates := ds, TotalShares := tot, ledger := l, ApplicantCustody := cust\<rparr>"
      using settled_frame [OF 1(5)] .
    have app: "applicant p' = applicant p" by (simp add: 1(4) p_def)
    obtain rest' where "plain_sub (overflow_checks cfg) (custody_of s (applicant p)) (token_tribute p) = Some rest'"
      "ApplicantCustody s4 = map_insert (ApplicantCustody s) (applicant p) rest'"
      using 1(5) by (cases rule: settledE) (simp_all add: app p_def custody_of_def)
    with g(2,7) 1(4,6) s4 show thesis
      by (intro that [of p' rest']) (simp_all add: p_def)
  qed
qed

lemma custody_covers_process:
  assumes "custody_covers s" and "overflow_checks cfg"
    and "process_proposal cfg now (Signed who) idx s = Ok t"
  shows "custody_covers t"
  unfolding custody_covers_def
proof
  fix a
  from assms(3) show "pending_tribute (ProposalQueue t) a \<le> unat (custody_of t a)"
  proof (cases rule: process_effect_params)
    case (1 p' rest)
    have "unat (custody_of s (applicant (ProposalQueue s ! unat idx))) =
        unat (token_tribute (ProposalQueue s ! unat idx)) + unat rest"
      using 1(6) assms(2) by (simp add: plain_sub_def rust_arith)
    with pending_tribute_process [OF 1(1-3), of a] assms(1) show ?thesis
      by (auto simp: custody_covers_def 1(5,7) custody_of_def map_get_def map_insert_def
          dest!: spec [of _ a] split: if_splits)
  qed
qed

section \<open>Draining the queue\<close>

text \<open>Everything up to position \<open>k\<close> is processed and the rest is ready at time \<open>now\<close>.\<close>

definition drained_to ::
  "('acc, 'l) moloch_config \<Rightarrow> u64 \<Rightarrow> nat \<Rightarrow> ('acc, 'l) moloch \<Rightarrow> bool" where
  "drained_to cfg now k s \<longleftrightarrow>
     moloch_inv cfg s \<and> (overflow_checks cfg \<longrightarrow> custody_covers s) \<and>
     (\<forall>i < length (ProposalQueue s). processed (ProposalQueue s ! i) \<longleftrightarrow> i < k) \<and>
     (\<exists>period. get_current_period now s = Some period \<and>
        (\<forall>p \<in> set (ProposalQueue s). unat (starting_period p) + unat (VotingPeriodLength s) +
           unat (GracePeriodLength s) \<le> unat period))"

abbreviation drain_call :: "u64 \<Rightarrow> 'acc \<Rightarrow> nat \<Rightarrow> 'acc moloch_extrinsic" where
  "drain_call now who i \<equiv> \<lparr>at_time = now, signer = Signed who, the_call = ProcessProposalCall (of_nat i)\<rparr>"

lemma drain_dispatch:
  "moloch_dispatch cfg (drain_call now who i) s = process_proposal cfg now (Signed who) (of_nat i) s"
  by (simp add: moloch_dispatch_def)

lemma drain_step:
  assumes "drained_to cfg now k s" and "k < length (ProposalQueue s)" and "length (ProposalQueue s) \<le> 2 ^ 128"
    and "unat (MaxShares cfg) * unat (MaxDilutionBound cfg) < 2 ^ 128"
  shows "\<exists>t. moloch_dispatch cfg (drain_call now who k) s = Ok t \<and> drained_to cfg now (Suc k) t \<and>
    length (ProposalQueue t) = length (ProposalQueue s)"
proof -
  let ?q = "ProposalQueue s" and ?i = "of_nat k :: u128"
  have i: "unat ?i = k" using assms(2,3) by (simp add: unat_of_nat take_bit_nat_eq_self)
  obtain period where inv: "moloch_inv cfg s" and cov: "overflow_checks cfg \<longrightarrow> custody_covers s"
    and pr: "\<And>j. j < length ?q \<Longrightarrow> processed (?q ! j) \<longleftrightarrow> j < k" and now: "get_current_period now s = Some period"
    and ready: "\<And>p. p \<in> set ?q \<Longrightarrow> unat (starting_period p) + unat (VotingPeriodLength s) +
      unat (GracePeriodLength s) \<le> unat period"
    using assms(1) unfolding drained_to_def by blast
  have prev: "k = 0 \<or> processed (?q ! (k - 1))" using pr [of "k - 1"] assms(2) by auto
  have "overflow_checks cfg \<longrightarrow> unat (token_tribute (?q ! k)) \<le> unat (custody_of s (applicant (?q ! k)))"
    using cov pending_tribute_ge [OF assms(2)] pr [OF assms(2)] unfolding custody_covers_def
    by (auto intro: order_trans)
  then obtain t where t: "process_proposal cfg now (Signed who) ?i s = Ok t"
    using moloch_processing_progress [OF inv assms(4), of ?i now period who] i assms(2) pr [OF assms(2)]
      prev now ready [OF nth_mem [OF assms(2)]] by auto
  then have d: "moloch_dispatch cfg (drain_call now who k) s = Ok t" by (simp add: moloch_dispatch_def)
  have inv': "moloch_inv cfg t" and cov': "overflow_checks cfg \<longrightarrow> custody_covers t"
    using process_proposal_inv [OF inv t] cov custody_covers_process [OF _ _ t] by simp_all
  from t show ?thesis
  proof (cases rule: process_effect_params)
    case (1 p' rest)
    have "processed (ProposalQueue t ! j) \<longleftrightarrow> j < Suc k" if "j < length (ProposalQueue t)" for j
      using that pr [of j] 1(3) by (auto simp: 1(5) i nth_list_update less_Suc_eq)
    moreover have "get_current_period now t = Some period"
      using now by (simp add: get_current_period_def 1(8,9))
    moreover have "unat (starting_period p) + unat (VotingPeriodLength t) + unat (GracePeriodLength t) \<le> unat period"
      if "p \<in> set (ProposalQueue t)" for p
      using that ready ready [OF nth_mem [OF assms(2)]] 1(4)
      by (auto simp: 1(5,10,11) i dest!: set_update_subset_insert [THEN subsetD])
    ultimately have "drained_to cfg now (Suc k) t"
      using inv' cov' by (auto simp: drained_to_def)
    then show ?thesis using d 1(5) by simp
  qed
qed

lemma drain_run:
  assumes "drained_to cfg now k s" and "k \<le> length (ProposalQueue s)" and "length (ProposalQueue s) \<le> 2 ^ 128"
    and "unat (MaxShares cfg) * unat (MaxDilutionBound cfg) < 2 ^ 128"
  shows "\<exists>t. all_ok (moloch_dispatch cfg) (map (drain_call now who) [k..<length (ProposalQueue s)]) s = Ok t \<and>
    drained_to cfg now (length (ProposalQueue s)) t \<and> length (ProposalQueue t) = length (ProposalQueue s)"
  using assms(1-3)
proof (induction "length (ProposalQueue s) - k" arbitrary: s k)
  case 0
  then show ?case by simp
next
  case (Suc n)
  then have lt: "k < length (ProposalQueue s)" by simp
  obtain u where u: "moloch_dispatch cfg (drain_call now who k) s = Ok u" "drained_to cfg now (Suc k) u"
    and len: "length (ProposalQueue u) = length (ProposalQueue s)"
    using drain_step [OF Suc.prems(1) lt Suc.prems(3) assms(4)] by blast
  have "\<exists>t. all_ok (moloch_dispatch cfg) (map (drain_call now who) [Suc k..<length (ProposalQueue u)]) u = Ok t \<and>
    drained_to cfg now (length (ProposalQueue u)) t \<and> length (ProposalQueue t) = length (ProposalQueue u)"
    using Suc.hyps(2) lt Suc.prems(3) by (intro Suc.hyps(1) u(2)) (simp_all add: len)
  then show ?case by (simp add: upt_conv_Cons [OF lt] and_then_def u(1) len)
qed

text \<open>In a queue that is processed from the front, the processed proposals are a prefix.\<close>

lemma processed_prefix:
  assumes "queue_ordered q" and "i < length q"
  shows "processed (q ! i) \<longleftrightarrow> i < length (takeWhile processed q)"
proof
  assume "processed (q ! i)"
  show "i < length (takeWhile processed q)"
  proof (rule ccontr)
    let ?k = "length (takeWhile processed q)"
    assume "\<not> i < ?k"
    then have "?k \<le> i" by simp
    moreover have "\<not> processed (q ! ?k)"
      using nth_length_takeWhile [of processed q] \<open>?k \<le> i\<close> assms(2) by simp
    ultimately show False
      using queue_orderedD(2) [OF assms(1), of ?k i] assms(2) \<open>processed (q ! i)\<close>
      by (cases "?k = i") auto
  qed
next
  assume "i < length (takeWhile processed q)"
  then show "processed (q ! i)"
    by (metis nth_mem set_takeWhileD takeWhile_nth)
qed

lemma requested_none: "(\<forall>p \<in> set q. processed p) \<Longrightarrow> requested_sum q = 0"
  by (simp add: requested_sum_def sum_list_eq_0_iff)

text \<open>Conversely, calls that succeeded have settled their proposals, and their tributes were covered.\<close>

lemma drained_processed:
  assumes "all_ok (moloch_dispatch cfg) (map (drain_call now who) is) s = Ok t"
    and "\<forall>i \<in> set is. i < length (ProposalQueue s)" and "length (ProposalQueue s) \<le> 2 ^ 128"
  shows "length (ProposalQueue t) = length (ProposalQueue s) \<and>
    (\<forall>j < length (ProposalQueue s). processed (ProposalQueue s ! j) \<or> j \<in> set is \<longrightarrow> processed (ProposalQueue t ! j))"
  using assms
proof (induction "is" arbitrary: s)
  case (Cons i "is")
  have i: "unat (of_nat i :: u128) = i" using Cons.prems(2,3) by (simp add: unat_of_nat take_bit_nat_eq_self)
  obtain u where u: "process_proposal cfg now (Signed who) (of_nat i) s = Ok u"
    and rest: "all_ok (moloch_dispatch cfg) (map (drain_call now who) is) u = Ok t"
    using Cons.prems(1) unfolding list.map all_ok_Cons_Ok drain_dispatch by blast
  from u show ?case
  proof (cases rule: process_effect_params)
    case (1 p' x)
    then have q: "ProposalQueue u = (ProposalQueue s)[i := p']" by (simp add: i)
    with Cons.IH [OF rest] Cons.prems(2,3) 1(3) show ?thesis by (auto simp: nth_list_update)
  qed
qed simp

lemma covered_before_process:
  assumes "custody_covers t" and "overflow_checks cfg"
    and "process_proposal cfg now (Signed who) idx s = Ok t"
  shows "custody_covers s"
  unfolding custody_covers_def
proof
  fix a
  from assms(3) show "pending_tribute (ProposalQueue s) a \<le> unat (custody_of s a)"
  proof (cases rule: process_effect_params)
    case (1 p' rest)
    have "unat (custody_of s (applicant (ProposalQueue s ! unat idx))) =
        unat (token_tribute (ProposalQueue s ! unat idx)) + unat rest"
      using 1(6) assms(2) by (simp add: plain_sub_def rust_arith)
    with pending_tribute_process [OF 1(1-3), of a] assms(1) show ?thesis
      by (auto simp: custody_covers_def 1(5,7) custody_of_def map_get_def map_insert_def
          dest!: spec [of _ a] split: if_splits)
  qed
qed

lemma covered_before_drain:
  assumes "all_ok (moloch_dispatch cfg) (map (drain_call now who) is) s = Ok t"
    and "overflow_checks cfg" and "custody_covers t"
  shows "custody_covers s"
  using assms
proof (induction "is" arbitrary: s)
  case (Cons i "is")
  then show ?case
    unfolding list.map all_ok_Cons_Ok drain_dispatch by (blast intro: covered_before_process)
qed simp

lemma settled_covers: "\<forall>p \<in> set (ProposalQueue t). processed p \<Longrightarrow> custody_covers t"
proof -
  assume "\<forall>p \<in> set (ProposalQueue t). processed p"
  then have "pending_tribute (ProposalQueue t) a = 0" for a
    by (simp add: pending_tribute_def sum_list_eq_0_iff)
  then show ?thesis by (simp add: custody_covers_def)
qed

text \<open>C20: when the queue of proposals can be emptied. Once voting and grace period of all proposals
  are over, anybody can process the unprocessed proposals one after the other, in the order of the
  queue. Without overflow checks every one of the calls succeeds. Where overflow is checked, they
  all succeed exactly when the custody record of every applicant covers the tributes it is still
  proposed for; otherwise one of them panics. Nothing else matters: not the votes, nor whether
  proposals were aborted, nor what the accounts hold. After the calls everything is processed and
  no shares are requested any more.\<close>

theorem moloch_queue_drains:
  fixes who
  assumes "moloch_inv cfg s" and "unat (MaxShares cfg) * unat (MaxDilutionBound cfg) < 2 ^ 128"
    and "length (ProposalQueue s) \<le> 2 ^ 128"
    and "get_current_period now s = Some period"
    and "\<forall>p \<in> set (ProposalQueue s). unat (starting_period p) + unat (VotingPeriodLength s) +
           unat (GracePeriodLength s) \<le> unat period"
  defines "drained \<equiv> all_ok (moloch_dispatch cfg)
      (map (\<lambda>i. \<lparr>at_time = now, signer = Signed who, the_call = ProcessProposalCall (of_nat i)\<rparr>)
        [length (takeWhile processed (ProposalQueue s))..<length (ProposalQueue s)]) s"
  shows "((\<exists>t. drained = Ok t) \<longleftrightarrow>
      (overflow_checks cfg \<longrightarrow> (\<forall>a. pending_tribute (ProposalQueue s) a \<le> unat (custody_of s a)))) \<and>
    (\<forall>t. drained = Ok t \<longrightarrow>
      length (ProposalQueue t) = length (ProposalQueue s) \<and>
      (\<forall>p \<in> set (ProposalQueue t). processed p) \<and> TotalSharesRequested t = 0)"
proof -
  let ?k = "length (takeWhile processed (ProposalQueue s))" and ?n = "length (ProposalQueue s)"
  note prefix = processed_prefix [of "ProposalQueue s"]
  have q: "queue_ordered (ProposalQueue s)" using assms(1) by (simp add: moloch_inv_defs)
  have ok: "\<exists>t. drained = Ok t \<and> length (ProposalQueue t) = ?n \<and>
      (\<forall>p \<in> set (ProposalQueue t). processed p) \<and> TotalSharesRequested t = 0"
    if "overflow_checks cfg \<longrightarrow> custody_covers s"
  proof -
    have "drained_to cfg now ?k s"
      using assms(1,4,5) that prefix [OF q] by (simp add: drained_to_def)
    from drain_run [OF this length_takeWhile_le assms(3,2), of who] obtain t
      where t: "drained = Ok t" "drained_to cfg now ?n t" "length (ProposalQueue t) = ?n"
      unfolding drained_def by blast
    then have settled: "\<forall>p \<in> set (ProposalQueue t). processed p" and inv: "moloch_inv cfg t"
      by (auto simp: drained_to_def in_set_conv_nth)
    then have "unat (TotalSharesRequested t) = 0"
      using requested_none [OF settled] by (simp add: moloch_inv_defs)
    with t settled show ?thesis by (auto simp: unat_eq_0)
  qed
  have covers: "custody_covers s" if t: "drained = Ok t" and ov: "overflow_checks cfg" for t
  proof -
    have "length (ProposalQueue t) = ?n \<and> (\<forall>j < ?n. processed (ProposalQueue t ! j))"
      using drained_processed [OF t [unfolded drained_def]] prefix [OF q] assms(3) by auto
    then have "custody_covers t" by (intro settled_covers) (auto simp: in_set_conv_nth)
    with covered_before_drain [OF t [unfolded drained_def] ov] show ?thesis by simp
  qed
  show ?thesis
    using ok covers unfolding custody_covers_def by (metis outcome.inject(1))
qed

theorem moloch_queue_drains_witness:
  "\<exists>t. all_ok (moloch_dispatch (test_moloch True))
      [\<lparr>at_time = 80000, signer = Signed 7, the_call = ProcessProposalCall 0\<rparr>] test_voted = Ok t \<and>
    length (ProposalQueue t) = 1 \<and> (\<forall>p \<in> set (ProposalQueue t). processed p)"
proof -
  have "get_current_period 80000 test_voted = Some 8"
    by (simp add: get_current_period_def test_states rust_eval)
  moreover have "custody_covers test_voted"
    by (simp add: custody_covers_def pending_tribute_def custody_of_def map_get_def test_states)
  ultimately show ?thesis
    using moloch_queue_drains [OF test_voted_inv [of True], of 80000 8 7]
    by (auto simp: custody_covers_def test_states test_moloch_def)
qed

end
