(* ===== verification/Moloch_Block.thy ===== *)
theory Moloch_Block
  imports Moloch_Drain
begin

text \<open>
  The other side of draining the queue: where overflow is checked, the applicant of a pending
  proposal can stop it and every later proposal, at no cost, and nobody else can undo it.
\<close>

section \<open>A blocked queue\<close>

text \<open>The proposal at position \<open>i\<close> asks for more tribute than the custody record of its applicant.\<close>

definition blocked :: "('acc, 'l) moloch_config \<Rightarrow> 'acc \<Rightarrow> nat \<Rightarrow> ('acc, 'l) moloch \<Rightarrow> bool" where
  "blocked cfg a i s \<longleftrightarrow>
     moloch_inv cfg s \<and> 0 < MaxShares cfg \<and> overflow_checks cfg \<and> i < length (ProposalQueue s) \<and>
     \<not> processed (ProposalQueue s ! i) \<and> applicant (ProposalQueue s ! i) = a \<and>
     custody_of s a < token_tribute (ProposalQueue s ! i)"

lemma blocked_not_processed:
  assumes "blocked cfg a i s" and "process_proposal cfg now og idx s = Ok t"
  shows "unat idx < i"
proof (rule ccontr)
  assume "\<not> unat idx < i"
  then have le: "i \<le> unat idx" by simp
  obtain who where og: "og = Signed who" using assms(2) by (cases rule: process_proposalE)
  have q: "queue_ordered (ProposalQueue s)" using assms(1) by (simp add: blocked_def moloch_inv_defs)
  from assms(2)[unfolded og] show False
  proof (cases rule: process_effect_params)
    case (1 p' rest)
    show False
    proof (cases "unat idx = i")
      case True
      with 1(6) assms(1) show False
        by (auto simp: blocked_def plain_sub_def checked_sub_def split: if_splits)
    next
      case False
      with le have "i \<le> unat idx - 1" "unat idx \<noteq> 0" by simp_all
      moreover have "idx = 0 \<or> processed (ProposalQueue s ! (unat idx - 1))"
        using assms(2) by (cases rule: process_proposalE)
      ultimately show False
        using queue_orderedD(2) [OF q, of i "unat idx - 1"] less_imp_diff_less [OF 1(1), of 1] assms(1)
        by (cases "i = unat idx - 1") (auto simp: blocked_def)
    qed
  qed
qed

lemma blocked_no_leave:
  assumes "blocked cfg a i s" and "Members s who = Some m" and "i \<le> unat (highest_index_yes_vote m)"
  shows "ragequit cfg (Signed who) burn s \<noteq> Ok t"
proof
  assume "ragequit cfg (Signed who) burn s = Ok t"
  then show False
  proof (cases rule: ragequitE)
    case (1 w m' left total scaled payout ev)
    have "queue_ordered (ProposalQueue s)" using assms(1) by (simp add: blocked_def moloch_inv_defs)
    from queue_orderedD(2) [OF this, of i "unat (highest_index_yes_vote m)"] 1(1,2,4,5) assms
    show False by (cases "i = unat (highest_index_yes_vote m)") (auto simp: blocked_def)
  qed
qed

lemma blocked_processing:
  assumes "blocked cfg a i s" and "process_proposal cfg now og idx s = Ok t" and "moloch_inv cfg t"
  shows "blocked cfg a i t"
proof -
  obtain who where og: "og = Signed who" using assms(2) by (cases rule: process_proposalE)
  have lt: "unat idx < i" using blocked_not_processed [OF assms(1,2)] .
  from assms(2)[unfolded og] show ?thesis
  proof (cases rule: process_effect_params)
    case (1 p' rest)
    have "rest \<le> custody_of s (applicant (ProposalQueue s ! unat idx))"
      using 1(6) assms(1) by (simp add: blocked_def plain_sub_def rust_arith word_le_nat_alt)
    then have "custody_of t a \<le> custody_of s a"
      by (simp add: 1(7) custody_of_def map_get_def map_insert_def)
    then show ?thesis
      using assms(1,3) lt by (auto simp: blocked_def 1(5))
  qed
qed

lemma blocked_dispatch:
  assumes "blocked cfg a i s" and "first_summon x s" and "signer x \<noteq> Signed a"
    and ok: "moloch_dispatch cfg x s = Ok t"
  shows "blocked cfg a i t"
proof -
  have inv: "moloch_inv cfg t"
    using mol.dispatch_inv [OF _ assms(2) ok] assms(1) by (simp add: blocked_def)
  show ?thesis
  proof (cases "the_call x")
    case (ProcessProposalCall idx)
    with ok have "process_proposal cfg (at_time x) (signer x) idx s = Ok t"
      by (simp add: moloch_dispatch_def)
    from blocked_processing [OF assms(1) this inv] show ?thesis .
  next
    case (SubmitVoteCall idx unit)
    with ok have "submit_vote cfg (at_time x) (signer x) idx unit s = Ok t"
      by (simp add: moloch_dispatch_def)
    then show ?thesis
    proof (cases rule: submit_voteE)
      case (1 who d period expiry counted ev)
      have "processed counted = processed (ProposalQueue s ! unat idx)"
        "applicant counted = applicant (ProposalQueue s ! unat idx)"
        "token_tribute counted = token_tribute (ProposalQueue s ! unat idx)"
        using 1(13) by (auto simp: count_vote_def split: Vote.splits)
      with assms(1) inv show ?thesis
        by (cases "unat idx = i") (auto simp: blocked_def 1(14) custody_of_def)
    qed
  next
    case (AbortCall idx)
    with ok have "abort cfg (at_time x) (signer x) idx s = Ok t"
      by (simp add: moloch_dispatch_def)
    then show ?thesis
      by (cases rule: abortE)
        (use assms(1,3) inv in \<open>auto simp: blocked_def custody_of_def map_get_def map_remove_def nth_list_update\<close>)
  qed (use assms(1,3) ok inv in \<open>auto simp: blocked_def moloch_dispatch_def custody_of_def map_get_def
      map_insert_def nth_append elim!: summonE custodyE submit_proposalE ragequitE update_delegateE\<close>)
qed

text \<open>Calls that do not come from the applicant; the pallet is summoned only while it has no members.\<close>

definition others_call :: "'acc \<Rightarrow> 'acc moloch_extrinsic \<Rightarrow> ('acc, 'l) moloch \<Rightarrow> bool" where
  "others_call a x s \<longleftrightarrow> first_summon x s \<and> signer x \<noteq> Signed a"

interpretation mol_blocked:
  pallet "moloch_dispatch cfg" "others_call a" "blocked cfg a i" for cfg a i
  by unfold_locales (auto simp: others_call_def intro: blocked_dispatch dest: moloch_dispatch_err)

text \<open>C38: an applicant can block the organisation for nothing. \<open>custody\<close> replaces the custody record
  instead of adding to it, so the applicant of a pending proposal lowers it below the tribute by
  calling \<open>custody\<close> with 0. From then on, where overflow is checked, neither this proposal nor any
  later one can be processed, whoever tries, at any time, and whatever anybody but the applicant
  does in between; and no member whose last yes vote is on one of them can leave.\<close>

theorem moloch_applicant_blocks:
  assumes "moloch_inv cfg s" and "0 < MaxShares cfg" and "overflow_checks cfg"
    and "i < length (ProposalQueue s)" and "\<not> processed (ProposalQueue s ! i)"
    and "applicant (ProposalQueue s ! i) = a" and "0 < token_tribute (ProposalQueue s ! i)"
  shows "\<exists>t. custody cfg (Signed a) 0 s = Ok t \<and>
    (\<forall>xs. admissible_run (moloch_dispatch cfg) (others_call a) xs t \<longrightarrow>
       (let later = apply_extrinsics (moloch_dispatch cfg) xs t in
         (\<forall>now og idx u. i \<le> unat idx \<longrightarrow> process_proposal cfg now og idx later \<noteq> Ok u) \<and>
         (\<forall>who m burn u. Members later who = Some m \<longrightarrow> i \<le> unat (highest_index_yes_vote m) \<longrightarrow>
            ragequit cfg (Signed who) burn later \<noteq> Ok u)))"
proof -
  obtain t where t: "custody cfg (Signed a) 0 s = Ok t"
    by (simp add: custody_def Let_def)
  have "moloch_inv cfg t" by (rule custody_inv [OF assms(1) t])
  moreover from t have "ProposalQueue t = ProposalQueue s" "custody_of t a = 0"
    by (auto elim!: custodyE simp: custody_of_def map_get_def map_insert_def)
  ultimately have "blocked cfg a i t"
    using assms(2-7) by (simp add: blocked_def)
  then have "blocked cfg a i (apply_extrinsics (moloch_dispatch cfg) xs t)"
    if "admissible_run (moloch_dispatch cfg) (others_call a) xs t" for xs
    using that by (rule mol_blocked.run_inv)
  with t show ?thesis
    unfolding Let_def by (meson blocked_not_processed blocked_no_leave not_le)
qed

theorem moloch_applicant_blocks_witness:
  "\<exists>t. custody (test_moloch True) (Signed 2) 0 test_voted = Ok t \<and>
     (\<forall>u. process_proposal (test_moloch True) 80000 (Signed 3) 0 t \<noteq> Ok u) \<and>
     (\<forall>u. ragequit (test_moloch True) (Signed 1) 1 t \<noteq> Ok u)"
proof -
  have "0 < MaxShares (test_moloch True)" "overflow_checks (test_moloch True)"
    by (simp_all add: test_moloch_def)
  from moloch_applicant_blocks [OF test_voted_inv this, of 0 2] obtain t
    where t: "custody (test_moloch True) (Signed 2) 0 test_voted = Ok t"
      and blocked: "\<And>xs. admissible_run (moloch_dispatch (test_moloch True)) (others_call 2) xs t \<Longrightarrow>
        (let later = apply_extrinsics (moloch_dispatch (test_moloch True)) xs t in
         (\<forall>now og idx u. 0 \<le> unat idx \<longrightarrow> process_proposal (test_moloch True) now og idx later \<noteq> Ok u) \<and>
         (\<forall>who m burn u. Members later who = Some m \<longrightarrow> 0 \<le> unat (highest_index_yes_vote m) \<longrightarrow>
            ragequit (test_moloch True) (Signed who) burn later \<noteq> Ok u))"
    by (auto simp: test_states)
  have "\<exists>m. Members t 1 = Some m" using t by (auto elim!: custodyE simp: test_states)
  with t blocked [of "[]"] show ?thesis by auto
qed

end
