(* ===== verification/Moloch_Panic.thy ===== *)
theory Moloch_Panic
  imports Moloch_Rights
begin

text \<open>
  What can go wrong beyond an error: a panic of a dispatchable is not charged to its caller but
  stops the execution of the block. In a state that satisfies the invariant, most of the checked
  operations that the code unwraps cannot fail; this theory lists those that can.
\<close>

section \<open>The causes\<close>

text \<open>The clock of the organisation can be read: it has started, and a period has a length.\<close>

definition clock_ok :: "u64 \<Rightarrow> ('acc, 'z) moloch_storage_scheme \<Rightarrow> bool" where
  "clock_ok now s \<longleftrightarrow> SummonTime s \<le> now \<and> PeriodDuration s \<noteq> 0"

lemma clock_ok_period:
  assumes "clock_ok now s"
  obtains period where "get_current_period now s = Some period" "unat period < 2 ^ 64"
proof -
  let ?n = "(unat now - unat (SummonTime s)) div 1000 div unat (PeriodDuration s)"
  have "?n \<le> unat now" by (meson diff_le_self div_le_dividend le_trans)
  also have "unat now < 2 ^ 64" using unat_lt [of now] by simp
  finally have small: "?n < 2 ^ 64" .
  then have "?n < 2 ^ LENGTH(128)" by simp
  then obtain period :: u128 where "unat period = ?n" by (rule word_of_fitting)
  with assms small show thesis by (intro that [of period]) (auto simp: get_current_period_Some clock_ok_def)
qed

text \<open>The vote's side of the tally, which a vote with more than two options does not change.\<close>

definition tally_of :: "u8 \<Rightarrow> 'acc Proposal \<Rightarrow> nat" where
  "tally_of unit p = (if unit = 1 then unat (yes_votes p) else if unit = 2 then unat (no_votes p) else 0)"

text \<open>Each call with the arithmetic in it that is not protected by a check or by the invariant.\<close>

definition panic_cause ::
  "('acc, 'l) moloch_config \<Rightarrow> 'acc moloch_extrinsic \<Rightarrow> ('acc, 'l) moloch \<Rightarrow> bool" where
  "panic_cause cfg x s \<longleftrightarrow>
     (case the_call x of
        SubmitProposalCall a tribute requested info \<Rightarrow>
          2 ^ 128 \<le> unat (TotalShares s) + unat (TotalSharesRequested s) + unat requested \<or>
          \<not> clock_ok (at_time x) s \<or> unat (proposal_period (ProposalQueue s)) = 2 ^ 128 - 1
      | SubmitVoteCall idx unit \<Rightarrow>
          (let p = ProposalQueue s ! unat idx in
             \<not> clock_ok (at_time x) s \<or>
             overflow_checks cfg \<and> 2 ^ 128 \<le> unat (VotingPeriodLength s) + unat (starting_period p) \<or>
             (\<exists>who. signer x = Signed who \<and>
                2 ^ 128 \<le> tally_of unit p + unat (shares (member_of cfg s (delegate_of cfg s who)))))
      | ProcessProposalCall idx \<Rightarrow>
          (let p = ProposalQueue s ! unat idx in
             \<not> clock_ok (at_time x) s \<or>
             overflow_checks cfg \<and>
               (custody_of s (applicant p) < token_tribute p \<or>
                (\<exists>period. get_current_period (at_time x) s = Some period \<and>
                   unat period < unat (VotingPeriodLength s) + unat (GracePeriodLength s))))
      | RagequitCall burn \<Rightarrow>
          TotalShares s = 0 \<or>
          2 ^ 128 \<le> unat (balance cfg (ledger s) (moloch_account_id cfg)) * unat burn
      | AbortCall idx \<Rightarrow>
          \<not> clock_ok (at_time x) s \<or>
          2 ^ 128 \<le> unat (starting_period (ProposalQueue s ! unat idx)) + unat (AbortWindow s)
      | _ \<Rightarrow> False)"

section \<open>Call by call\<close>

lemma no_panic_simple:
  "summon cfg now og pd vp gp aw db dep rew s \<noteq> Panic"
  "custody cfg og tribute s \<noteq> Panic"
  "update_delegate cfg og key s \<noteq> Panic"
  by (auto simp: summon_def custody_def update_delegate_def Let_def signed_simps)

lemma submit_proposal_panic:
  assumes "submit_proposal cfg now og a tribute requested info s = Panic" and "clock_ok now s"
    and "unat (TotalShares s) + unat (TotalSharesRequested s) + unat requested < 2 ^ 128"
  shows "unat (proposal_period (ProposalQueue s)) = 2 ^ 128 - 1"
proof -
  obtain period where period: "get_current_period now s = Some period" "unat period < 2 ^ 64"
    using clock_ok_period [OF assms(2)] .
  obtain tr where tr: "checked_add (TotalSharesRequested s) requested = Some tr"
    using assms(3) by (cases "checked_add (TotalSharesRequested s) requested") (auto simp: rust_arith)
  then have "checked_add (TotalShares s) tr \<noteq> None" using assms(3) by (simp add: rust_arith)
  moreover have "get_current_period now (s\<lparr>TotalSharesRequested := tr, ledger := l\<rparr>) = Some period" for l
    using period(1) by (simp add: get_current_period_def)
  ultimately have "checked_add (max (proposal_period (ProposalQueue s)) period) 1 = None"
    using assms(1) tr
    by (auto simp: submit_proposal_def Let_def signed_simps outcome_simps send_def balance_to_u128)
  then have "2 ^ 128 \<le> max (unat (proposal_period (ProposalQueue s))) (unat period) + 1"
    by (auto simp: rust_arith max_def word_le_nat_alt split: if_splits)
  with period(2) unat_lt [of "proposal_period (ProposalQueue s)"] show ?thesis by (auto simp: max_def split: if_splits)
qed

lemma count_vote_None:
  assumes "count_vote (vote_of unit) w tot p = None"
  shows "2 ^ 128 \<le> tally_of unit p + unat w"
  using assms by (auto simp: count_vote_def vote_of_def tally_of_def rust_arith split: if_splits)

lemma submit_vote_panic:
  assumes "submit_vote cfg now (Signed who) idx unit s = Panic" and "clock_ok now s"
  shows "overflow_checks cfg \<and>
      2 ^ 128 \<le> unat (VotingPeriodLength s) + unat (starting_period (ProposalQueue s ! unat idx)) \<or>
    2 ^ 128 \<le> tally_of unit (ProposalQueue s ! unat idx) +
      unat (shares (member_of cfg s (delegate_of cfg s who)))"
proof -
  obtain period where "get_current_period now s = Some period" using clock_ok_period [OF assms(2)] .
  with assms(1) show ?thesis
    using count_vote_None [of unit "shares (member_of cfg s (delegate_of cfg s who))" "TotalShares s"
        "ProposalQueue s ! unat idx"]
    by (cases "plain_add (overflow_checks cfg) (VotingPeriodLength s) (starting_period (ProposalQueue s ! unat idx))")
      (auto simp: submit_vote_def Let_def outcome_simps plain_add_def rust_arith split: if_splits)
qed

lemma process_proposal_panic:
  assumes "process_proposal cfg now (Signed who) idx s = Panic" and "clock_ok now s"
    and "moloch_inv cfg s" and "unat (MaxShares cfg) * unat (MaxDilutionBound cfg) < 2 ^ 128"
  shows "overflow_checks cfg \<and>
    (custody_of s (applicant (ProposalQueue s ! unat idx)) < token_tribute (ProposalQueue s ! unat idx) \<or>
     (\<exists>period. get_current_period now s = Some period \<and>
        unat period < unat (VotingPeriodLength s) + unat (GracePeriodLength s)))"
proof -
  let ?p = "ProposalQueue s ! unat idx"
  obtain period where period: "get_current_period now s = Some period" using clock_ok_period [OF assms(2)] .
  show ?thesis
  proof (cases "overflow_checks cfg \<and> unat period < unat (VotingPeriodLength s) + unat (GracePeriodLength s)")
    case True
    with period show ?thesis by blast
  next
    case False
    then obtain av where "plain_sub (overflow_checks cfg) period (VotingPeriodLength s) = Some av"
      "plain_sub (overflow_checks cfg) av (GracePeriodLength s) \<noteq> None"
      by (cases "overflow_checks cfg")
        (auto simp: plain_sub_def checked_sub_def word_le_nat_alt unat_sub_le split: if_splits)
    with assms(1) period have "process_checked cfg who idx s = Panic"
      and "unat idx < length (ProposalQueue s)" "\<not> processed ?p"
      by (auto simp: process_proposal_def Let_def outcome_simps)
    with process_checked_succeeds [OF assms(3,4), of idx who]
    have "overflow_checks cfg" "\<not> unat (token_tribute ?p) \<le> unat (custody_of s (applicant ?p))" by auto
    then show ?thesis by (simp add: word_less_nat_alt)
  qed
qed

lemma ragequit_panic:
  assumes "ragequit cfg (Signed who) burn s = Panic" and "moloch_inv cfg s"
    and "unat (balance cfg (ledger s) (moloch_account_id cfg)) * unat burn < 2 ^ 128"
  shows "TotalShares s = 0"
proof (rule ccontr)
  assume pos: "TotalShares s \<noteq> 0"
  from assms(1) obtain m where m: "Members s who = Some m" "burn \<le> shares m"
    by (auto simp: ragequit_def Let_def contains_key_def member_of_def map_get_def)
  have fin: "finite (dom (Members s))" and sum: "shares_sum s = unat (TotalShares s)"
    using assms(2) by (simp_all add: moloch_inv_defs)
  have "unat (shares m) \<le> unat (TotalShares s)"
    using register_total_le [OF fin m(1), of "\<lambda>m. unat (shares m)"] sum by (simp add: shares_sum_def)
  with m(2) have "burn \<le> TotalShares s" by (simp add: word_le_nat_alt)
  then have "checked_sub (shares m) burn = Some (shares m - burn)"
    "checked_sub (TotalShares s) burn = Some (TotalShares s - burn)"
    using m(2) by (simp_all add: checked_sub_def)
  moreover have "checked_mul (balance cfg (ledger s) (moloch_account_id cfg)) burn =
      Some (balance cfg (ledger s) (moloch_account_id cfg) * burn)"
    using assms(3) by (simp add: checked_mul_def)
  moreover have "checked_div x (TotalShares s) = Some (x div TotalShares s)" for x
    using pos by (simp add: checked_div_def)
  ultimately show False
    using assms(1) m(1)
    by (simp add: ragequit_def Let_def contains_key_def member_of_def map_get_def del: rust_defs)
qed

lemma abort_panic:
  assumes "abort cfg now og idx s = Panic" and "clock_ok now s"
  shows "2 ^ 128 \<le> unat (starting_period (ProposalQueue s ! unat idx)) + unat (AbortWindow s)"
proof -
  obtain period where "get_current_period now s = Some period" using clock_ok_period [OF assms(2)] .
  with assms(1) show ?thesis
    by (cases "checked_add (starting_period (ProposalQueue s ! unat idx)) (AbortWindow s)")
      (auto simp: abort_def Let_def signed_simps outcome_simps rust_arith)
qed

section \<open>Panics that a caller can bring about\<close>

text \<open>A member can ask for so many shares that the sum overflows before it is compared with the limit.\<close>

lemma huge_request_panics:
  assumes "contains_key (AddressOfDelegates s) who"
    and "0 < shares (member_of cfg s (delegate_of cfg s who))"
    and "2 ^ 128 \<le> unat (TotalSharesRequested s) + unat requested"
  shows "submit_proposal cfg now (Signed who) a tribute requested info s = Panic"
proof -
  have "checked_add (TotalSharesRequested s) requested = None" using assms(3) by (simp add: rust_arith)
  with assms(1,2) show ?thesis by (simp add: submit_proposal_def Let_def ensure_def)
qed

text \<open>Where overflow is checked, anybody can ask for a proposal to be processed too early.\<close>

lemma early_processing_panics:
  assumes "overflow_checks cfg" and "unat idx < length (ProposalQueue s)"
    and "get_current_period now s = Some period"
    and "unat period < unat (VotingPeriodLength s) + unat (GracePeriodLength s)"
  shows "process_proposal cfg now (Signed who) idx s = Panic"
proof (cases "VotingPeriodLength s \<le> period")
  case True
  with assms(4) have "\<not> GracePeriodLength s \<le> period - VotingPeriodLength s"
    by (auto simp: word_le_nat_alt unat_sub_le)
  with True assms(1-3) show ?thesis
    by (simp add: process_proposal_def Let_def plain_sub_def checked_sub_def)
next
  case False
  with assms(1-3) show ?thesis
    by (simp add: process_proposal_def Let_def plain_sub_def checked_sub_def)
qed

section \<open>The theorem\<close>

lemma panic_signed:
  assumes "moloch_dispatch cfg x s = Panic"
  obtains who where "signer x = Signed who"
  using assms
  by (cases "the_call x")
    (auto simp: moloch_dispatch_def no_panic_simple submit_proposal_def submit_vote_def process_proposal_def
      ragequit_def abort_def signed_simps)

text \<open>C25: in a state that satisfies the invariant, a call to the pallet returns, with a result or
  with an error that wrote nothing, unless one of the listed causes holds for it: the clock cannot
  be read, a sum or a product that no check bounds overflows, or (where overflow is checked) the
  plain subtractions of \<open>process_proposal\<close> do. All the other operations that the code unwraps
  succeed; in particular those on the totals of shares, of requested shares and of the rewards.\<close>

theorem moloch_panic_causes:
  assumes "moloch_inv cfg s" and "unat (MaxShares cfg) * unat (MaxDilutionBound cfg) < 2 ^ 128"
    and "\<not> panic_cause cfg x s"
  shows "(\<exists>t. moloch_dispatch cfg x s = Ok t) \<or> (\<exists>e. moloch_dispatch cfg x s = Err e s)"
proof -
  have "moloch_dispatch cfg x s \<noteq> Panic"
  proof
    assume panic: "moloch_dispatch cfg x s = Panic"
    then obtain who where who: "signer x = Signed who" by (rule panic_signed)
    show False
    proof (cases "the_call x")
      case (SubmitProposalCall a tribute requested info)
      with panic have "submit_proposal cfg (at_time x) (signer x) a tribute requested info s = Panic"
        by (simp add: moloch_dispatch_def)
      from submit_proposal_panic [OF this] assms(3) SubmitProposalCall show False
        by (simp add: panic_cause_def not_le)
    next
      case (SubmitVoteCall idx unit)
      with panic who have "submit_vote cfg (at_time x) (Signed who) idx unit s = Panic"
        by (simp add: moloch_dispatch_def)
      from submit_vote_panic [OF this] assms(3) SubmitVoteCall who show False
        by (auto simp: panic_cause_def Let_def)
    next
      case (ProcessProposalCall idx)
      with panic who have "process_proposal cfg (at_time x) (Signed who) idx s = Panic"
        by (simp add: moloch_dispatch_def)
      from process_proposal_panic [OF this _ assms(1,2)] assms(3) ProcessProposalCall show False
        by (auto simp: panic_cause_def Let_def)
    next
      case (RagequitCall burn)
      with panic who have "ragequit cfg (Signed who) burn s = Panic" by (simp add: moloch_dispatch_def)
      from ragequit_panic [OF this assms(1)] assms(3) RagequitCall show False
        by (simp add: panic_cause_def not_le)
    next
      case (AbortCall idx)
      with panic have "abort cfg (at_time x) (signer x) idx s = Panic" by (simp add: moloch_dispatch_def)
      from abort_panic [OF this] assms(3) AbortCall show False by (auto simp: panic_cause_def)
    qed (use panic in \<open>simp_all add: moloch_dispatch_def no_panic_simple\<close>)
  qed
  then show ?thesis
    using moloch_dispatch_err [of cfg x s] by (cases "moloch_dispatch cfg x s") auto
qed

theorem moloch_panic_causes_witness:
  "\<exists>t. moloch_dispatch (test_moloch True)
     \<lparr>at_time = 20000, signer = Signed 1, the_call = SubmitVoteCall 0 2\<rparr> test_proposed = Ok t \<or>
   (\<exists>e. moloch_dispatch (test_moloch True)
     \<lparr>at_time = 20000, signer = Signed 1, the_call = SubmitVoteCall 0 2\<rparr> test_proposed = Err e test_proposed)"
proof -
  have "\<not> panic_cause (test_moloch True)
     \<lparr>at_time = 20000, signer = Signed 1, the_call = SubmitVoteCall 0 2\<rparr> test_proposed"
    by (simp add: panic_cause_def clock_ok_def tally_of_def test_states member_of_def delegate_of_def map_get_def)
  from moloch_panic_causes [OF test_proposed_inv _ this] show ?thesis by (auto simp: test_moloch_def)
qed

end
