(* ===== verification/Moloch_Delegates.thy ===== *)
theory Moloch_Delegates
  imports Moloch_Props
begin

text \<open>
  Delegate keys: who may propose and vote for a member. A key acts for a member only when it is
  the member's own account or when the member has appointed it.
\<close>

section \<open>Appointments\<close>

definition appoints :: "'acc moloch_extrinsic \<Rightarrow> 'acc \<Rightarrow> 'acc \<Rightarrow> bool" where
  "appoints x d k \<longleftrightarrow> signer x = Signed d \<and> the_call x = UpdateDelegateCall k"

lemma admit_delegates:
  assumes "admit_applicant cfg p s = Some t" and "AddressOfDelegates t k = Some d" and "k \<noteq> d"
  shows "AddressOfDelegates s k = Some d"
  using assms by (auto simp: admit_applicant_def Let_def storage_defs split: if_splits)

lemma settled_delegates:
  assumes "settled cfg granted p tribute s = Some t" and "AddressOfDelegates t k = Some d" and "k \<noteq> d"
  shows "AddressOfDelegates s k = Some d"
  using assms(1) by (cases rule: settledE) (use assms(2,3) in \<open>auto dest: admit_delegates\<close>)

lemma dispatch_delegates:
  assumes "moloch_dispatch cfg x s = Ok t" and "AddressOfDelegates t k = Some d" and "k \<noteq> d"
  shows "AddressOfDelegates s k = Some d \<or> appoints x d k"
proof (cases "the_call x")
  case (ProcessProposalCall idx)
  with assms(1) obtain who where "process_checked cfg who idx s = Ok t"
    by (auto simp: moloch_dispatch_def elim: process_proposalE)
  then show ?thesis
    by (cases rule: process_checkedE) (use assms(2,3) in \<open>auto dest!: settled_delegates\<close>)
qed (use assms in \<open>auto simp: moloch_dispatch_def appoints_def map_insert_def map_remove_def
      elim!: summonE custodyE submit_proposalE submit_voteE ragequitE abortE update_delegateE
      split: if_splits\<close>)

lemma run_delegates:
  assumes "AddressOfDelegates (apply_extrinsics (moloch_dispatch cfg) xs s) k = Some d" and "k \<noteq> d"
  shows "AddressOfDelegates s k = Some d \<or> (\<exists>x\<in>set xs. appoints x d k)"
proof (rule mol_any.run_origin [where P = "\<lambda>s. AddressOfDelegates s k = Some d"])
  show "AddressOfDelegates s k = Some d \<or> appoints x d k"
    if "moloch_dispatch cfg x s = Ok t" and "AddressOfDelegates t k = Some d" for s x t
    using dispatch_delegates [OF that assms(2)] .
qed (rule assms(1))

text \<open>C12: nobody acts for a member without consent: after any run from genesis, a key whose vote is
  counted for a member, or whose proposal is entered under the member's name, is the member's own
  account or a key that this member has appointed with a call of its own to \<open>update_delegate\<close>.\<close>

theorem moloch_delegate_consent:
  assumes "s = apply_extrinsics (moloch_dispatch cfg) xs (moloch_init l)"
    and "submit_vote cfg now (Signed k) idx unit s = Ok t \<or>
         submit_proposal cfg now (Signed k) a tribute requested info s = Ok t"
  shows "let d = delegate_of cfg s k in
    (k = d \<or> (\<exists>x\<in>set xs. signer x = Signed d \<and> the_call x = UpdateDelegateCall k)) \<and>
    0 < shares (member_of cfg s d) \<and>
    (ProposalVotes t = (ProposalVotes s)((idx, d) \<mapsto> unit) \<or>
     ProposalVotes t = ProposalVotes s \<and> proposer (last (ProposalQueue t)) = d)"
proof -
  let ?d = "delegate_of cfg s k"
  have "contains_key (AddressOfDelegates s) k \<and> 0 < shares (member_of cfg s ?d) \<and>
    (ProposalVotes t = (ProposalVotes s)((idx, ?d) \<mapsto> unit) \<or>
     ProposalVotes t = ProposalVotes s \<and> proposer (last (ProposalQueue t)) = ?d)"
    using assms(2) by (auto elim!: submit_voteE submit_proposalE simp: map_insert_def)
  moreover from this have "AddressOfDelegates s k = Some ?d"
    by (auto simp: contains_key_def delegate_of_def map_get_def)
  with run_delegates [of cfg xs "moloch_init l" k ?d]
  have "k = ?d \<or> (\<exists>x\<in>set xs. appoints x ?d k)"
    by (auto simp: assms(1) moloch_init_def)
  ultimately show ?thesis by (simp add: Let_def appoints_def)
qed

text \<open>In the test, account 1 has appointed the key 8, which then votes for it.\<close>

definition test_appointed :: "(nat, test_ledger) moloch" where
  "test_appointed =
     apply_extrinsics (moloch_dispatch (test_moloch True))
       [\<lparr>at_time = 0, signer = Signed 1, the_call = UpdateDelegateCall 8\<rparr>] test_proposed"

lemma test_appointed_votes:
  "\<exists>t. submit_vote (test_moloch True) 20000 (Signed 8) 0 1 test_appointed = Ok t"
  "delegate_of (test_moloch True) test_appointed 8 = 1"
  by (simp_all add: test_appointed_def apply_extrinsic_def moloch_dispatch_def moloch_eval rust_eval
      test_states Let_def)

theorem moloch_delegate_consent_witness:
  "\<exists>t. submit_vote (test_moloch True) 20000 (Signed 8) 0 1 test_appointed = Ok t \<and>
     ProposalVotes t = (ProposalVotes test_appointed)((0, 1) \<mapsto> 1)"
proof -
  let ?xs = "test_calls @ [\<lparr>at_time = 0, signer = Signed 1, the_call = UpdateDelegateCall 8\<rparr>]"
  obtain t where t: "submit_vote (test_moloch True) 20000 (Signed 8) 0 1 test_appointed = Ok t"
    using test_appointed_votes(1) by blast
  have "test_appointed = apply_extrinsics (moloch_dispatch (test_moloch True)) ?xs (moloch_init test_balances)"
    by (simp add: test_appointed_def test_run_proposed)
  from moloch_delegate_consent [OF this disjI1 [OF t]]
  have "ProposalVotes t = (ProposalVotes test_appointed)((0, 1) \<mapsto> 1) \<or>
      ProposalVotes t = ProposalVotes test_appointed"
    by (simp add: Let_def test_appointed_votes(2)) blast
  moreover from t have "ProposalVotes t \<noteq> ProposalVotes test_appointed"
  proof (cases rule: submit_voteE)
    case (1 w d period expiry counted ev)
    then have "ProposalVotes t (0, d) = Some 1" by (simp add: map_insert_def)
    with 1(11) show ?thesis by auto
  qed
  ultimately show ?thesis using t by blast
qed

end
