(* ===== verification/Moloch_Ledger.thy ===== *)
theory Moloch_Ledger
  imports Moloch_Phase
begin

text \<open>
  Where every single share comes from: what each call mints and burns, and the shares of an account
  recounted from the calls of a run and the proposals in the queue.
\<close>

section \<open>Shares earned and burned\<close>

definition share_of :: "('acc, 'z) moloch_storage_scheme \<Rightarrow> 'acc \<Rightarrow> nat" where
  "share_of s a = (case Members s a of None \<Rightarrow> 0 | Some m \<Rightarrow> unat (shares m))"

text \<open>The shares of the proposals for an account that have passed.\<close>

definition earned :: "'acc Proposal list \<Rightarrow> 'acc \<Rightarrow> nat" where
  "earned q a =
     sum_list (map (\<lambda>p. if did_pass p \<and> applicant p = a then unat (shares_requested p) else 0) q)"

text \<open>What a successful call adds to and takes from an account's shares, apart from proposals.\<close>

definition summoned_by :: "'acc \<Rightarrow> 'acc moloch_extrinsic \<Rightarrow> nat" where
  "summoned_by a x =
     (case the_call x of SummonCall _ _ _ _ _ _ _ \<Rightarrow> if signer x = Signed a then 1 else 0 | _ \<Rightarrow> 0)"

definition burned_by :: "'acc \<Rightarrow> 'acc moloch_extrinsic \<Rightarrow> nat" where
  "burned_by a x =
     (case the_call x of RagequitCall burn \<Rightarrow> if signer x = Signed a then unat burn else 0 | _ \<Rightarrow> 0)"

lemma share_of_members: "Members t = Members s \<Longrightarrow> share_of t a = share_of s a"
  by (simp add: share_of_def)

lemma earned_append: "earned (q @ [p]) a = earned q a + (if did_pass p \<and> applicant p = a then unat (shares_requested p) else 0)"
  by (simp add: earned_def)

lemma earned_update:
  assumes "i < length q" and "applicant p = applicant (q ! i)" and "shares_requested p = shares_requested (q ! i)"
    and "did_pass (q ! i) \<Longrightarrow> did_pass p"
  shows "earned (q[i := p]) a = earned q a +
    (if did_pass p \<and> \<not> did_pass (q ! i) \<and> applicant p = a then unat (shares_requested p) else 0)"
  using sum_list_map_update [OF assms(1),
      of "\<lambda>p. if did_pass p \<and> applicant p = a then unat (shares_requested p) else 0" p] assms(2-4)
  by (auto simp: earned_def split: if_splits)

lemma earned_same:
  assumes "i < length q" and "applicant p = applicant (q ! i)" and "shares_requested p = shares_requested (q ! i)"
    and "did_pass p = did_pass (q ! i)"
  shows "earned (q[i := p]) a = earned q a"
  using earned_update [OF assms(1-3), of a] assms(4) by auto

section \<open>Admission\<close>

lemma admit_share:
  assumes "admit_applicant cfg p s = Some t"
  shows "share_of t a = share_of s a + (if applicant p = a then unat (shares_requested p) else 0)"
  using assms
  by (auto simp: admit_applicant_def Let_def share_of_def member_of_def storage_defs default_member_def
      rust_arith split: if_splits option.splits)

lemma settled_share:
  assumes "settled cfg granted p tribute s = Some t"
  shows "share_of t a = share_of s a + (if granted \<and> applicant p = a then unat (shares_requested p) else 0)"
  using assms
  by (cases rule: settledE) (auto dest: admit_share [of _ _ _ _ a] simp: share_of_def)

section \<open>Supply\<close>

text \<open>
  What any run keeps, also when the pallet is summoned again: there are finitely many members, and
  a proposal that has passed has been processed.
\<close>

definition register_sane :: "('acc, 'l) moloch \<Rightarrow> bool" where
  "register_sane s \<longleftrightarrow> finite (dom (Members s)) \<and> (\<forall>p \<in> set (ProposalQueue s). did_pass p \<longrightarrow> processed p)"

lemma queue_trans_passed:
  assumes "queue_trans q r" and "\<forall>p \<in> set q. did_pass p \<longrightarrow> processed p"
  shows "\<forall>p \<in> set r. did_pass p \<longrightarrow> processed p"
  using assms
  by (auto simp: queue_trans_def fresh_proposal_def elim!: proposal_trans.cases
      dest!: set_update_subset_insert [THEN subsetD])

lemma dispatch_finite:
  assumes "finite (dom (Members s))" and "moloch_dispatch cfg x s = Ok t"
  shows "finite (dom (Members t))"
proof (cases "the_call x")
  case (ProcessProposalCall idx)
  with assms(2) have "process_proposal cfg (at_time x) (signer x) idx s = Ok t"
    by (simp add: moloch_dispatch_def)
  then show ?thesis
  proof (cases rule: process_proposalE)
    case (1 w period av ag)
    from 1(9) show ?thesis
    proof (cases rule: process_checkedE)
      case (1 tr bound granted p' ev s4 l ev')
      from settled_shares(1) [OF 1(5)] assms(1) show ?thesis by (simp add: 1(6))
    qed
  qed
qed (use assms in \<open>auto simp: moloch_dispatch_def map_mutate_def
    elim!: summonE custodyE submit_proposalE submit_voteE ragequitE abortE update_delegateE\<close>)

interpretation mol_register: pallet "moloch_dispatch cfg" "\<lambda>_ _. True" register_sane for cfg
  by unfold_locales (auto simp: register_sane_def dest: dispatch_finite moloch_dispatch_err
      queue_trans_passed [OF dispatch_queue_trans, THEN bspec])

text \<open>
  The shares that a successful call mints and burns. Summoning mints one share for the caller and
  replaces the shares the caller may have had.
\<close>

definition share_change ::
  "'acc moloch_extrinsic \<Rightarrow> ('acc, 'l) moloch \<Rightarrow> ('acc, 'l) moloch \<Rightarrow> nat \<times> nat" where
  "share_change x s t =
     (case the_call x of
        SummonCall _ _ _ _ _ _ _ \<Rightarrow> (1, case signer x of Signed who \<Rightarrow> share_of s who | _ \<Rightarrow> 0)
      | ProcessProposalCall idx \<Rightarrow>
          let p = ProposalQueue t ! unat idx in (if did_pass p then unat (shares_requested p) else 0, 0)
      | RagequitCall burn \<Rightarrow> (0, unat burn)
      | _ \<Rightarrow> (0, 0))"

text \<open>The register moves by it with every call, and the total with every call but \<open>summon\<close>.\<close>

lemma dispatch_share_change:
  assumes sane: "register_sane s" and ok: "moloch_dispatch cfg x s = Ok t" and "share_change x s t = (minted, burned)"
  shows "shares_sum t + burned = shares_sum s + minted"
    and "unat (TotalShares t) = (case the_call x of SummonCall _ _ _ _ _ _ _ \<Rightarrow> 1
      | _ \<Rightarrow> unat (TotalShares s) + minted - burned)"
proof -
  have fin: "finite (dom (Members s))" using sane by (simp add: register_sane_def)
  have "shares_sum t + burned = shares_sum s + minted \<and>
    unat (TotalShares t) = (case the_call x of SummonCall _ _ _ _ _ _ _ \<Rightarrow> 1
      | _ \<Rightarrow> unat (TotalShares s) + minted - burned)"
  proof (cases "the_call x")
    case (SummonCall pd vp gp aw db dep rew)
    with ok have "summon cfg (at_time x) (signer x) pd vp gp aw db dep rew s = Ok t"
      by (simp add: moloch_dispatch_def)
    then show ?thesis
    proof (cases rule: summonE)
      case (1 who ev)
      let ?m = "\<lparr>shares = 1, highest_index_yes_vote = 0, exists = True, delegate_key = who\<rparr>"
      from register_total_insert [OF fin, of "\<lambda>m. unat (shares m)" who ?m] assms(3) show ?thesis
        by (simp add: 1(1,7) SummonCall share_change_def shares_sum_def share_of_def)
    qed
  next
    case (ProcessProposalCall idx)
    with ok have "process_proposal cfg (at_time x) (signer x) idx s = Ok t"
      by (simp add: moloch_dispatch_def)
    then show ?thesis
    proof (cases rule: process_proposalE)
      case g: (1 w period av ag)
      have fresh: "\<not> did_pass (ProposalQueue s ! unat idx)"
        using sane g(2,7) by (auto simp: register_sane_def)
      from g(9) show ?thesis
      proof (cases rule: process_checkedE)
        case (1 tr bound granted p' ev s4 l ev')
        from settled_shares [OF 1(5), simplified, OF fin] g(2) fresh assms(3) show ?thesis
          by (auto simp: 1(4,6) ProcessProposalCall share_change_def shares_sum_def)
      qed
    qed
  next
    case (RagequitCall burn)
    with ok have "ragequit cfg (signer x) burn s = Ok t" by (simp add: moloch_dispatch_def)
    then show ?thesis
    proof (cases rule: ragequitE)
      case (1 who m left total scaled payout ev)
      from register_total_insert [OF fin, of "\<lambda>m. unat (shares m)" who "m\<lparr>shares := left\<rparr>"] 1(2,6,7) assms(3)
      show ?thesis by (simp add: 1(10) RagequitCall share_change_def shares_sum_def rust_arith)
    qed
  next
    case (SubmitVoteCall idx unit)
    with ok have "submit_vote cfg (at_time x) (signer x) idx unit s = Ok t"
      by (simp add: moloch_dispatch_def)
    then show ?thesis
    proof (cases rule: submit_voteE)
      case (1 who d period expiry counted ev)
      from register_total_mutate_same [OF fin, of "\<lambda>m. unat (shares m)" "default_member cfg"
          "\<lambda>mem. mem\<lparr>highest_index_yes_vote := idx\<rparr>" d] assms(3)
      show ?thesis
        by (simp add: 1(14) SubmitVoteCall share_change_def shares_sum_def default_member_def)
    qed
  qed (use ok assms(3) in \<open>auto simp: moloch_dispatch_def share_change_def shares_sum_def
      elim!: custodyE submit_proposalE abortE update_delegateE\<close>)
  then show "shares_sum t + burned = shares_sum s + minted"
    and "unat (TotalShares t) = (case the_call x of SummonCall _ _ _ _ _ _ _ \<Rightarrow> 1
      | _ \<Rightarrow> unat (TotalShares s) + minted - burned)" by blast+
qed

lemma shares_sum_empty: "Members s = Map.empty \<Longrightarrow> shares_sum s = 0 \<and> share_of s a = 0"
  by (simp add: shares_sum_def register_total_def share_of_def)

text \<open>C6: which calls change the shares, and by how much, after any run, also one in which the pallet
  is summoned again. Only \<open>process_proposal\<close> mints, exactly the requested shares when the proposal
  has passed; only \<open>ragequit\<close> burns, exactly the given shares; and \<open>summon\<close> gives its caller one
  share in place of those the caller had. The sum over the members moves by what is minted and
  burned with every call. The recorded total does so too, except that \<open>summon\<close> sets it to one;
  the two agree again after a call if they agreed before and the call does not summon an
  organisation that has members.\<close>

theorem moloch_share_supply:
  assumes "s = apply_extrinsics (moloch_dispatch cfg) xs (moloch_init l)"
    and "moloch_dispatch cfg x s = Ok t"
  shows "let (minted, burned) = share_change x s t in
    shares_sum t + burned = shares_sum s + minted \<and>
    unat (TotalShares t) = (case the_call x of SummonCall _ _ _ _ _ _ _ \<Rightarrow> 1
      | _ \<Rightarrow> unat (TotalShares s) + minted - burned) \<and>
    (first_summon x s \<longrightarrow> shares_sum s = unat (TotalShares s) \<longrightarrow> shares_sum t = unat (TotalShares t))"
proof -
  obtain minted burned where c: "share_change x s t = (minted, burned)" by force
  have "register_sane (moloch_init l)" by (simp add: register_sane_def moloch_init_def)
  from mol_register.run_inv [OF this admissible_any] have "register_sane s" by (simp add: assms(1))
  note change = dispatch_share_change [OF this assms(2) c]
  have "shares_sum t = unat (TotalShares t)" if "first_summon x s" "shares_sum s = unat (TotalShares s)"
  proof (cases "the_call x")
    case (SummonCall pd vp gp aw db dep rew)
    with that(1) have "shares_sum s = 0 \<and> share_of s a = 0" for a
      by (intro shares_sum_empty) (simp add: first_summon_def)
    with change c show ?thesis by (auto simp: SummonCall share_change_def split: origin.splits)
  qed (use change that(2) in simp_all)
  with c change show ?thesis by simp
qed

text \<open>The proposal of the test is processed and its applicant becomes a member.\<close>

theorem moloch_share_supply_witness:
  "\<exists>t. moloch_dispatch (test_moloch True)
         \<lparr>at_time = 80000, signer = Signed 3, the_call = ProcessProposalCall 0\<rparr> test_voted = Ok t \<and>
       shares_sum t = shares_sum test_voted + 5"
proof -
  let ?x = "\<lparr>at_time = 80000, signer = Signed (3::nat), the_call = ProcessProposalCall 0\<rparr>"
    and ?v = "\<lparr>at_time = 20000, signer = Signed (1::nat), the_call = SubmitVoteCall 0 1\<rparr>"
  obtain t where t: "moloch_dispatch (test_moloch True) ?x test_voted = Ok t"
    and q: "did_pass (ProposalQueue t ! 0)" "shares_requested (ProposalQueue t ! 0) = 5"
    by (simp add: moloch_dispatch_def moloch_eval rust_eval test_states Let_def)
  have "test_voted = apply_extrinsics (moloch_dispatch (test_moloch True)) (test_calls @ [?v]) (moloch_init test_balances)"
    by (simp add: test_run_proposed apply_extrinsic_def moloch_dispatch_def test_vote del: One_nat_def)
  from moloch_share_supply [OF this t] t q show ?thesis
    by (simp add: share_change_def Let_def)
qed

section \<open>The balance of shares\<close>

definition share_balance :: "('acc, 'z) moloch_storage_scheme \<Rightarrow> 'acc \<Rightarrow> int" where
  "share_balance s a = int (share_of s a) - int (earned (ProposalQueue s) a)"

lemma dispatch_share_balance:
  assumes inv: "moloch_inv cfg s" and "first_summon x s" and ok: "moloch_dispatch cfg x s = Ok t"
  shows "share_balance t a = share_balance s a + (int (summoned_by a x) - int (burned_by a x))"
proof (cases "the_call x")
  case (SummonCall pd vp gp aw db dep rew)
  with assms(2) have "Members s = Map.empty" by (simp add: first_summon_def)
  with SummonCall ok show ?thesis
    by (auto simp: moloch_dispatch_def share_balance_def share_of_def map_insert_def
        summoned_by_def burned_by_def elim!: summonE)
next
  case (SubmitProposalCall b tribute requested info)
  with ok show ?thesis
    by (auto simp: moloch_dispatch_def share_balance_def share_of_def earned_append
        summoned_by_def burned_by_def elim!: submit_proposalE)
next
  case (SubmitVoteCall idx unit)
  with ok have "submit_vote cfg (at_time x) (signer x) idx unit s = Ok t"
    by (simp add: moloch_dispatch_def)
  then show ?thesis
  proof (cases rule: submit_voteE)
    case (1 who d period expiry counted ev)
    have "applicant counted = applicant (ProposalQueue s ! unat idx)"
      "shares_requested counted = shares_requested (ProposalQueue s ! unat idx)"
      "did_pass counted = did_pass (ProposalQueue s ! unat idx)"
      using 1(13) by (auto simp: count_vote_def split: Vote.splits)
    then have "earned (ProposalQueue t) a = earned (ProposalQueue s) a"
      by (simp add: 1(14) earned_same [OF 1(5)])
    moreover have "share_of t a = share_of s a"
      by (simp add: 1(14) share_of_def storage_defs default_member_def split: option.split)
    ultimately show ?thesis
      by (simp add: share_balance_def summoned_by_def burned_by_def SubmitVoteCall)
  qed
next
  case (ProcessProposalCall idx)
  with ok have "process_proposal cfg (at_time x) (signer x) idx s = Ok t"
    by (simp add: moloch_dispatch_def)
  then show ?thesis
  proof (cases rule: process_proposalE)
    case g: (1 w period av ag)
    have fresh: "\<not> did_pass (ProposalQueue s ! unat idx)"
      using inv g(2,7) by (auto simp: moloch_inv_defs proposal_ok_def)
    from g(9) show ?thesis
    proof (cases rule: process_checkedE)
      case (1 tr bound granted p' ev s4 l ev')
      have p': "applicant p' = applicant (ProposalQueue s ! unat idx)"
        "shares_requested p' = shares_requested (ProposalQueue s ! unat idx)" "did_pass p' = granted"
        using fresh by (simp_all add: 1(4))
      have "share_of t a = share_of s a + (if granted \<and> applicant p' = a then unat (shares_requested p') else 0)"
        using settled_share [OF 1(5), of a] by (simp add: 1(6) share_of_def)
      moreover have "earned (ProposalQueue t) a = earned (ProposalQueue s) a +
          (if granted \<and> applicant p' = a then unat (shares_requested p') else 0)"
        using earned_update [OF g(2) p'(1,2), of a] fresh by (simp add: 1(6) p')
      ultimately show ?thesis
        by (simp add: share_balance_def summoned_by_def burned_by_def ProcessProposalCall)
    qed
  qed
next
  case (RagequitCall burn)
  with ok have "ragequit cfg (signer x) burn s = Ok t" by (simp add: moloch_dispatch_def)
  then show ?thesis
    by (cases rule: ragequitE)
      (auto simp: share_balance_def share_of_def map_insert_def summoned_by_def burned_by_def
        RagequitCall rust_arith)
next
  case (AbortCall idx)
  with ok have "abort cfg (at_time x) (signer x) idx s = Ok t" by (simp add: moloch_dispatch_def)
  then show ?thesis
    by (cases rule: abortE)
      (simp add: share_balance_def share_of_def earned_same summoned_by_def burned_by_def AbortCall)
qed (use ok in \<open>auto simp: moloch_dispatch_def share_balance_def share_of_def summoned_by_def
      burned_by_def elim!: custodyE update_delegateE\<close>)

lemma over_run_diff:
  "over_run dispatch (\<lambda>c. int (f c) - int (g c)) cs s =
     int (over_run dispatch f cs s) - int (over_run dispatch g cs s)"
  by (induction cs arbitrary: s) (auto split: outcome.split)

text \<open>C7: every share is accounted for: after any run from genesis in which the pallet is summoned
  only while it has no members, an account's shares and the shares it burned itself by \<open>ragequit\<close>
  are together the shares of the passed proposals for it and the share of the summoning, if it
  summoned. Nobody gets shares in any other way, and nobody loses shares to a call of others.\<close>

theorem moloch_share_ledger:
  assumes "0 < MaxShares cfg"
    and "admissible_run (moloch_dispatch cfg) first_summon xs (moloch_init l)"
    and "t = apply_extrinsics (moloch_dispatch cfg) xs (moloch_init l)"
  shows "share_of t a + over_run (moloch_dispatch cfg) (burned_by a) xs (moloch_init l) =
    earned (ProposalQueue t) a + over_run (moloch_dispatch cfg) (summoned_by a) xs (moloch_init l)"
proof -
  have "share_balance t a = share_balance (moloch_init l) a +
      over_run (moloch_dispatch cfg) (\<lambda>x. int (summoned_by a x) - int (burned_by a x)) xs (moloch_init l)"
    unfolding assms(3)
    by (rule mol.run_recount [OF _ _ assms(2)]) (auto simp: assms(1) moloch_inv_init intro: dispatch_share_balance)
  then show ?thesis
    by (simp add: share_balance_def over_run_diff share_of_def earned_def moloch_init_def)
qed

text \<open>The test run with a vote, the processing, and a member that leaves with two of five shares.\<close>

definition test_ledger_run :: "nat moloch_extrinsic list" where
  "test_ledger_run = test_calls @
     [\<lparr>at_time = 20000, signer = Signed 1, the_call = SubmitVoteCall 0 1\<rparr>,
      \<lparr>at_time = 80000, signer = Signed 3, the_call = ProcessProposalCall 0\<rparr>,
      \<lparr>at_time = 80000, signer = Signed 2, the_call = RagequitCall 2\<rparr>]"

lemma over_run_none: "\<forall>c\<in>set cs. weight c = 0 \<Longrightarrow> over_run dispatch weight cs s = 0"
  by (induction cs arbitrary: s) (auto split: outcome.split)

lemma test_leaves:
  "\<exists>t u. process_proposal (test_moloch True) 80000 (Signed 3) 0 test_voted = Ok t \<and>
     ragequit (test_moloch True) (Signed 2) 2 t = Ok u \<and> share_of u 2 = 3 \<and> earned (ProposalQueue u) 2 = 5"
  by (simp add: moloch_eval rust_eval test_states Let_def share_of_def earned_def)

lemma test_ledger_end:
  "\<exists>u. apply_extrinsics (moloch_dispatch (test_moloch True)) test_ledger_run (moloch_init test_balances) = u \<and>
     share_of u 2 = 3 \<and> earned (ProposalQueue u) 2 = 5"
proof -
  obtain t u where "process_proposal (test_moloch True) 80000 (Signed 3) 0 test_voted = Ok t"
    "ragequit (test_moloch True) (Signed 2) 2 t = Ok u" "share_of u 2 = 3" "earned (ProposalQueue u) 2 = 5"
    using test_leaves by blast
  then show ?thesis
    by (simp add: test_ledger_run_def test_run_proposed apply_extrinsic_def moloch_dispatch_def test_vote
        del: One_nat_def)
qed

theorem moloch_share_ledger_witness:
  "over_run (moloch_dispatch (test_moloch True)) (burned_by 2) test_ledger_run (moloch_init test_balances) = 2"
proof -
  have "0 < MaxShares (test_moloch True)" by (simp add: test_moloch_def)
  moreover have "admissible_run (moloch_dispatch (test_moloch True)) first_summon test_ledger_run (moloch_init test_balances)"
    by (simp add: test_ledger_run_def test_calls_def first_summon_def moloch_init_def)
  moreover have "over_run (moloch_dispatch (test_moloch True)) (summoned_by 2) test_ledger_run (moloch_init test_balances) = 0"
    by (rule over_run_none) (simp add: test_ledger_run_def test_calls_def summoned_by_def)
  ultimately show ?thesis
    using moloch_share_ledger [of "test_moloch True" test_ledger_run test_balances _ 2] test_ledger_end
    by auto
qed

end
