(* ===== verification/QF_State.thy ===== *)
theory QF_State
  imports Frame
begin

text \<open>
  Data model of the quadratic-funding pallet (\<open>pallets/quadratic-funding/src/lib.rs\<close>): the
  stored structs, the storage maps, events, errors, the configuration trait, and the helpers of
  \<open>impl Module\<close> that compute prices.
\<close>

section \<open>Stored data\<close>

record 'acc Project =
  total_votes :: u128
  grants :: u128
  support_area :: u128
  withdrew :: u128
  name :: "u8 list"
  owner :: 'acc

record Round =
  ongoing :: bool
  support_pool :: u128
  pre_tax_support_pool :: u128
  total_support_area :: u128
  total_tax :: u128

text \<open>The double maps are maps on pairs of keys.\<close>

record ('acc, 'h) qf_storage =
  Rounds :: "u32 \<rightharpoonup> Round"
  Projects :: "u32 \<times> 'h \<rightharpoonup> 'acc Project"
  ProjectVotes :: "'h \<times> 'acc \<rightharpoonup> u128"

datatype ('acc, 'h) qf_event =
    ProjectRegistered 'h 'acc
  | VoteCost 'h u128
  | VoteSucceed 'h 'acc u128
  | RoundStarted u32
  | RoundEnded u32
  | DonateSucceed u32 'acc u128

datatype qf_error =
    NoneValue_qf
  | StorageOverflow_qf
  | DuplicateProject
  | ProjectNotExist
  | ProjectNameTooLong
  | ProjectNameTooShort
  | InvalidBallot
  | DonationTooSmall
  | RoundExisted
  | RoundNotExist
  | RoundHasEnded
  | DuplicateRound

text \<open>The world a dispatchable runs in: the pallet's storage, the bank and the deposited events.\<close>

record ('acc, 'h, 'l) qf = "('acc, 'h) qf_storage" +
  bank :: 'l
  qf_events :: "('acc, 'h) qf_event list"

type_synonym ('acc, 'h, 'l) qf_outcome = "(qf_error, ('acc, 'h, 'l) qf) outcome"

section \<open>Configuration\<close>

text \<open>
  Beside the constants of the trait, the configuration holds what the pallet takes from
  elsewhere: whether an origin passes \<open>AdminOrigin\<close>, the hash of a pair of project hash and
  round, and the order in which \<open>iter_prefix\<close> visits the second keys of a first key.
\<close>

record ('acc, 'h, 'l) qf_config = "('acc, 'l) frame" +
  AdminOrigin :: "'acc origin \<Rightarrow> bool"
  UnitOfVote :: u128
  NumberOfUnitPerVote :: u128
  FeeRatioPerVote :: u128
  NameMinLength :: nat
  NameMaxLength :: nat
  hash_of :: "'h \<times> u32 \<Rightarrow> 'h"
  prefix_keys :: "(u32 \<times> 'h \<rightharpoonup> 'acc Project) \<Rightarrow> u32 \<Rightarrow> 'h list"

text \<open>The documented behaviour of \<open>iter_prefix\<close>: it visits every key of the prefix once.\<close>

definition lawful_iteration :: "('acc, 'h, 'l) qf_config \<Rightarrow> bool" where
  "lawful_iteration cfg \<longleftrightarrow>
     (\<forall>m r. finite (dom m) \<longrightarrow>
        distinct (prefix_keys cfg m r) \<and> set (prefix_keys cfg m r) = {h. (r, h) \<in> dom m})"

definition qf_ensure_admin ::
  "('acc, 'h, 'l) qf_config \<Rightarrow> 'acc origin \<Rightarrow> ('acc, 'h, 'l) qf \<Rightarrow> ('acc, 'h, 'l) qf_outcome
     \<Rightarrow> ('acc, 'h, 'l) qf_outcome" where
  "qf_ensure_admin cfg origin s k = (if AdminOrigin cfg origin then k else Err BadOrigin s)"

section \<open>Reading the storage\<close>

definition default_round :: Round where
  "default_round = \<lparr>ongoing = False, support_pool = 0, pre_tax_support_pool = 0,
     total_support_area = 0, total_tax = 0\<rparr>"

definition default_project :: "('acc, 'l, 'z) frame_scheme \<Rightarrow> 'acc Project" where
  "default_project cfg = \<lparr>total_votes = 0, grants = 0, support_area = 0, withdrew = 0,
     name = [], owner = default_account cfg\<rparr>"

definition rounds :: "('acc, 'h, 'l) qf \<Rightarrow> u32 \<Rightarrow> Round" where
  "rounds s round_id = map_get default_round (Rounds s) round_id"

definition projects ::
  "('acc, 'h, 'l) qf_config \<Rightarrow> ('acc, 'h, 'l) qf \<Rightarrow> u32 \<Rightarrow> 'h \<Rightarrow> 'acc Project" where
  "projects cfg s round_id hash = map_get (default_project cfg) (Projects s) (round_id, hash)"

definition project_votes :: "('acc, 'h, 'l) qf \<Rightarrow> 'h \<Rightarrow> 'acc \<Rightarrow> u128" where
  "project_votes s vote_hash who = map_get 0 (ProjectVotes s) (vote_hash, who)"

text \<open>\<open>Projects::<T>::iter_prefix(round_id)\<close>\<close>

definition iter_prefix ::
  "('acc, 'h, 'l) qf_config \<Rightarrow> ('acc, 'h, 'l) qf \<Rightarrow> u32 \<Rightarrow> ('h \<times> 'acc Project) list" where
  "iter_prefix cfg s round_id =
     map (\<lambda>h. (h, projects cfg s round_id h)) (prefix_keys cfg (Projects s) round_id)"

definition qf_deposit_event ::
  "('acc, 'h) qf_event \<Rightarrow> ('acc, 'h, 'l) qf \<Rightarrow> ('acc, 'h, 'l) qf" where
  "qf_deposit_event e s = s\<lparr>qf_events := qf_events s @ [e]\<rparr>"

section \<open>Prices and conversions\<close>

definition qf_account_id :: "('acc, 'h, 'l) qf_config \<Rightarrow> 'acc" where
  "qf_account_id cfg = into_account cfg (ModuleId cfg)"

definition cal_cost :: "u128 \<Rightarrow> u128 \<Rightarrow> u128 option" where
  "cal_cost voted ballot = do {
     next \<leftarrow> checked_add ballot 1;
     square \<leftarrow> checked_mul ballot next;
     product \<leftarrow> checked_mul ballot voted;
     checked_add (square div 2) product
   }"

definition cal_amount :: "('acc, 'h, 'l) qf_config \<Rightarrow> u128 \<Rightarrow> bool \<Rightarrow> u128 option" where
  "cal_amount cfg amount is_fee =
     (let uov = UnitOfVote cfg; nup = NumberOfUnitPerVote cfg; frpv = FeeRatioPerVote cfg in
      if is_fee then checked_mul uov frpv \<bind> (\<lambda>u. checked_mul u amount)
      else checked_mul uov nup \<bind> (\<lambda>u. checked_mul u amount))"

definition qf_u128_to_balance :: "u128 \<Rightarrow> u128 option" where
  "qf_u128_to_balance cost = try_into cost"

definition qf_balance_to_u128 :: "u128 \<Rightarrow> u128 option" where
  "qf_balance_to_u128 amount = try_into amount"

lemma qf_u128_to_balance [simp]: "qf_u128_to_balance x = Some x"
  by (simp add: qf_u128_to_balance_def)

lemma qf_balance_to_u128 [simp]: "qf_balance_to_u128 x = Some x"
  by (simp add: qf_balance_to_u128_def)

text \<open>
  The cost of \<open>b\<close> more votes after \<open>v\<close> is the sum \<open>(v + 1) + \<dots> + (v + b)\<close>, written over the
  triangular numbers.
\<close>

definition tri :: "nat \<Rightarrow> nat" where
  "tri n = n * (n + 1) div 2"

lemma tri_double: "2 * tri n = n * (n + 1)"
  by (simp add: tri_def)

lemma tri_0 [simp]: "tri 0 = 0"
  by (simp add: tri_def)

lemma tri_Suc: "tri (Suc n) = tri n + Suc n"
  by (simp add: tri_def)

lemma tri_add: "tri (m + n) = tri m + tri n + m * n"
proof -
  have "2 * tri (m + n) = 2 * (tri m + tri n + m * n)"
    by (simp only: distrib_left tri_double) (simp add: algebra_simps)
  then show ?thesis by simp
qed

lemma tri_mono: "m \<le> n \<Longrightarrow> tri m \<le> tri n"
  by (auto simp: le_iff_add tri_add)

lemma tri_ge: "n \<le> tri n"
  by (induction n) (auto simp: tri_Suc)

lemma cal_cost_iff:
  "cal_cost v b = Some c \<longleftrightarrow>
     unat b * (unat b + 1) < 2 ^ 128 \<and> unat c = tri (unat b) + unat b * unat v"
  (is "?lhs \<longleftrightarrow> ?rhs")
proof
  assume ?lhs
  then obtain n sq pr where "checked_add b 1 = Some n" "checked_mul b n = Some sq"
    "checked_mul b v = Some pr" "checked_add (sq div 2) pr = Some c"
    by (auto simp: cal_cost_def bind_eq_Some_conv)
  moreover from this have "unat sq < 2 ^ 128" using unat_lt [of sq] by simp
  ultimately show ?rhs by (simp add: rust_arith unat_div tri_def)
next
  assume r: ?rhs
  have lt: "unat b + 1 < 2 ^ 128"
  proof (cases "unat b = 0")
    case False
    then have "unat b + 1 \<le> unat b * (unat b + 1)" by (cases "unat b") auto
    with r show ?thesis by linarith
  qed simp
  then have n: "unat (b + 1) = unat b + 1"
    by (subst unat_add_fits) simp_all
  then have m: "unat (b * (b + 1)) = unat b * (unat b + 1)"
    using r by (subst unat_mult_fits) simp_all
  have p: "unat b * unat v < 2 ^ 128" using r unat_lt [of c] by simp
  then have e: "checked_mul b v = Some (b * v)" and u: "unat (b * v) = unat b * unat v"
    by (auto simp: checked_mul_def unat_mult_fits)
  have e1: "checked_add b 1 = Some (b + 1)" and e2: "checked_mul b (b + 1) = Some (b * (b + 1))"
    using n m by (simp_all add: rust_arith)
  have "cal_cost v b = checked_add (b * (b + 1) div 2) (b * v)"
    by (simp add: cal_cost_def e e1 e2)
  moreover have "unat (b * (b + 1) div 2) = tri (unat b)"
    by (simp add: unat_div m tri_def del: mult_Suc_right)
  ultimately show ?lhs using r u by (simp add: checked_add_Some)
qed

lemma cal_cost_tri:
  "cal_cost v b = Some c \<Longrightarrow> unat c + tri (unat v) = tri (unat v + unat b)"
  by (simp add: cal_cost_iff tri_add)

text \<open>The number of ballots of an account never wraps around: it is at most the cost.\<close>

lemma cal_cost_bound:
  assumes "cal_cost v b = Some c" and "0 < b"
  shows "unat v + unat b \<le> unat c"
proof -
  have "0 < unat b" using assms(2) by (simp add: word_less_nat_alt)
  then have "1 * unat v \<le> unat b * unat v" by (intro mult_le_mono1) simp
  moreover have "unat c = tri (unat b) + unat b * unat v" using assms(1) by (simp add: cal_cost_iff)
  ultimately show ?thesis using tri_ge [of "unat b"] by linarith
qed

lemma cal_amount_price:
  "cal_amount cfg c False = Some a \<Longrightarrow>
     unat a = unat (UnitOfVote cfg) * unat (NumberOfUnitPerVote cfg) * unat c"
  by (auto simp: cal_amount_def rust_arith bind_eq_Some_conv)

lemma cal_amount_fee:
  "cal_amount cfg c True = Some a \<Longrightarrow>
     unat a = unat (UnitOfVote cfg) * unat (FeeRatioPerVote cfg) * unat c"
  by (auto simp: cal_amount_def rust_arith bind_eq_Some_conv)

end
