(* ===== verification/QF_Ops.thy ===== *)
theory QF_Ops
  imports QF_State
begin

text \<open>
  The dispatchables and the views of the quadratic-funding pallet, one definition per function,
  with the guards, writes, transfers and events in the order of the code. \<open>unwrap\<close> is the
  code's \<open>unwrap()\<close>, and the panic of a plain operator.
\<close>

definition qf_genesis :: "('acc, 'h, 'l) qf_config \<Rightarrow> 'l \<Rightarrow> 'l" where
  "qf_genesis cfg l =
     make_free_balance_be (currency cfg) l (qf_account_id cfg) (minimum_balance (currency cfg))"

definition qf_init :: "'l \<Rightarrow> ('acc, 'h, 'l) qf" where
  "qf_init l = \<lparr>Rounds = Map.empty, Projects = Map.empty, ProjectVotes = Map.empty,
     bank = l, qf_events = []\<rparr>"

text \<open>\<open>let _ = T::Currency::transfer(&from, &to, amount, KeepAlive)\<close>\<close>

definition qf_send ::
  "('acc, 'h, 'l) qf_config \<Rightarrow> 'acc \<Rightarrow> 'acc \<Rightarrow> u128 \<Rightarrow> ('acc, 'h, 'l) qf \<Rightarrow> ('acc, 'h, 'l) qf" where
  "qf_send cfg src dst amt s = s\<lparr>bank := pay cfg (bank s) src dst amt KeepAlive\<rparr>"

section \<open>Rounds\<close>

text \<open>The closure that \<open>donate\<close> applies to its round; \<open>None\<close> is a panic inside it.\<close>

definition credit_donation :: "bool \<Rightarrow> u128 \<Rightarrow> u128 \<Rightarrow> Round \<Rightarrow> Round option" where
  "credit_donation checks amount_number fee_number rnd = do {
     pre \<leftarrow> checked_add amount_number (pre_tax_support_pool rnd);
     net \<leftarrow> plain_sub checks amount_number fee_number;
     pool \<leftarrow> checked_add net (support_pool rnd);
     tax \<leftarrow> checked_add fee_number (total_tax rnd);
     Some (rnd\<lparr>pre_tax_support_pool := pre, support_pool := pool, total_tax := tax\<rparr>)
   }"

definition donation_fee :: "('acc, 'h, 'l) qf_config \<Rightarrow> u128 \<Rightarrow> u128 option" where
  "donation_fee cfg amount_number = do {
     units \<leftarrow> checked_div amount_number (NumberOfUnitPerVote cfg);
     checked_mul (FeeRatioPerVote cfg) units
   }"

definition donate ::
  "('acc, 'h, 'l) qf_config \<Rightarrow> 'acc origin \<Rightarrow> u32 \<Rightarrow> u128 \<Rightarrow> ('acc, 'h, 'l) qf
     \<Rightarrow> ('acc, 'h, 'l) qf_outcome" where
  "donate cfg origin round_id amount s =
     ensure_signed origin s (\<lambda>who.
     ensure (contains_key (Rounds s) round_id) RoundNotExist s (
     let round = rounds s round_id in
     ensure (ongoing round) RoundHasEnded s (
     unwrap (cal_amount cfg 1 False) (\<lambda>min_unit_number.
     unwrap (qf_balance_to_u128 amount) (\<lambda>amount_number.
     unwrap (donation_fee cfg amount_number) (\<lambda>fee_number.
     ensure (min_unit_number < amount_number) DonationTooSmall s (
     let s1 = qf_send cfg who (qf_account_id cfg) amount s in
     unwrap (credit_donation (overflow_checks cfg) amount_number fee_number (rounds s1 round_id)) (\<lambda>rnd.
     let s2 = s1\<lparr>Rounds := map_insert (Rounds s1) round_id rnd\<rparr>
     in Ok (qf_deposit_event (DonateSucceed round_id who amount_number) s2)))))))))"

definition new_round :: Round where
  "new_round = \<lparr>ongoing = True, support_pool = 0, pre_tax_support_pool = 0,
     total_support_area = 0, total_tax = 0\<rparr>"

definition start_round ::
  "('acc, 'h, 'l) qf_config \<Rightarrow> 'acc origin \<Rightarrow> u32 \<Rightarrow> ('acc, 'h, 'l) qf
     \<Rightarrow> ('acc, 'h, 'l) qf_outcome" where
  "start_round cfg origin round_id s =
     qf_ensure_admin cfg origin s (
     ensure (\<not> contains_key (Rounds s) round_id) RoundExisted s (
     let s1 = s\<lparr>Rounds := map_insert (Rounds s) round_id new_round\<rparr>
     in Ok (qf_deposit_event (RoundStarted round_id) s1)))"

text \<open>The final grants of a project: what it was granted by votes and its part of the pool.\<close>

definition final_grants :: "u128 \<Rightarrow> u128 \<Rightarrow> 'acc Project \<Rightarrow> u128 option" where
  "final_grants area pool project =
     (if 0 < area
      then checked_div pool area \<bind> (\<lambda>unit. checked_mul (support_area project) unit)
             \<bind> checked_add (grants project)
      else Some (grants project))"

text \<open>
  The loop of \<open>end_round\<close>. The changed \<open>project\<close> is a local copy, which the code does not
  store.
\<close>

fun pay_projects ::
  "('acc, 'h, 'l) qf_config \<Rightarrow> u128 \<Rightarrow> u128 \<Rightarrow> ('h \<times> 'acc Project) list \<Rightarrow> ('acc, 'h, 'l) qf
     \<Rightarrow> ('acc, 'h, 'l) qf_outcome" where
  "pay_projects cfg area pool [] s = Ok s"
| "pay_projects cfg area pool ((hash, project) # rest) s =
     unwrap (final_grants area pool project) (\<lambda>total.
     unwrap (qf_u128_to_balance total) (\<lambda>amount.
     pay_projects cfg area pool rest (qf_send cfg (qf_account_id cfg) (owner project) amount s)))"

definition end_round ::
  "('acc, 'h, 'l) qf_config \<Rightarrow> 'acc origin \<Rightarrow> u32 \<Rightarrow> ('acc, 'h, 'l) qf
     \<Rightarrow> ('acc, 'h, 'l) qf_outcome" where
  "end_round cfg origin round_id s =
     qf_ensure_admin cfg origin s (
     ensure (contains_key (Rounds s) round_id) RoundNotExist s (
     let round = rounds s round_id in
     ensure (ongoing round) RoundHasEnded s (
     let area = total_support_area round;
         pool = support_pool round in
     and_then (pay_projects cfg area pool (iter_prefix cfg s round_id) s) (\<lambda>s1.
     let s2 = s1\<lparr>Rounds := map_insert (Rounds s1) round_id (round\<lparr>ongoing := False\<rparr>)\<rparr>
     in Ok (qf_deposit_event (RoundEnded round_id) s2)))))"

section \<open>Projects and votes\<close>

definition register_project ::
  "('acc, 'h, 'l) qf_config \<Rightarrow> 'acc origin \<Rightarrow> u32 \<Rightarrow> 'h \<Rightarrow> u8 list \<Rightarrow> ('acc, 'h, 'l) qf
     \<Rightarrow> ('acc, 'h, 'l) qf_outcome" where
  "register_project cfg origin round_id hash title s =
     ensure_signed origin s (\<lambda>who.
     ensure (NameMinLength cfg \<le> length title) ProjectNameTooShort s (
     ensure (length title \<le> NameMaxLength cfg) ProjectNameTooLong s (
     ensure (\<not> contains_key (Projects s) (round_id, hash)) DuplicateProject s (
     let project = \<lparr>total_votes = 0, grants = 0, support_area = 0, withdrew = 0,
                    name = title, owner = who\<rparr>;
         s1 = s\<lparr>Projects := map_insert (Projects s) (round_id, hash) project\<rparr>
     in Ok (qf_deposit_event (ProjectRegistered hash who) s1)))))"

text \<open>
  The closure that \<open>vote\<close> applies to its project, with the support area that the vote adds, and
  the closure it applies to the round.
\<close>

definition credit_vote ::
  "bool \<Rightarrow> u128 \<Rightarrow> u128 \<Rightarrow> u128 \<Rightarrow> u128 \<Rightarrow> 'acc Project \<Rightarrow> (u128 \<times> 'acc Project) option" where
  "credit_vote checks voted ballot amount fee poj = do {
     others \<leftarrow> plain_sub checks (total_votes poj) voted;
     added \<leftarrow> checked_mul ballot others;
     area \<leftarrow> checked_add added (support_area poj);
     votes \<leftarrow> plain_add checks (total_votes poj) ballot;
     net \<leftarrow> plain_sub checks amount fee;
     granted \<leftarrow> plain_add checks (grants poj) net;
     Some (added, poj\<lparr>support_area := area, total_votes := votes, grants := granted\<rparr>)
   }"

definition credit_area :: "u128 \<Rightarrow> u128 \<Rightarrow> Round \<Rightarrow> Round option" where
  "credit_area added fee rnd = do {
     area \<leftarrow> checked_add added (total_support_area rnd);
     tax \<leftarrow> checked_add fee (total_tax rnd);
     Some (rnd\<lparr>total_support_area := area, total_tax := tax\<rparr>)
   }"

definition vote ::
  "('acc, 'h, 'l) qf_config \<Rightarrow> 'acc origin \<Rightarrow> u32 \<Rightarrow> 'h \<Rightarrow> u128 \<Rightarrow> ('acc, 'h, 'l) qf
     \<Rightarrow> ('acc, 'h, 'l) qf_outcome" where
  "vote cfg origin round_id hash ballot s =
     ensure_signed origin s (\<lambda>who.
     ensure (contains_key (Projects s) (round_id, hash)) ProjectNotExist s (
     ensure (0 < ballot) InvalidBallot s (
     ensure (contains_key (Rounds s) round_id) RoundNotExist s (
     let round = rounds s round_id in
     ensure (ongoing round) RoundHasEnded s (
     let vote_hash = hash_of cfg (hash, round_id);
         voted = project_votes s vote_hash who in
     unwrap (cal_cost voted ballot) (\<lambda>cost.
     unwrap (cal_amount cfg cost False) (\<lambda>amount.
     unwrap (cal_amount cfg cost True) (\<lambda>fee.
     unwrap (qf_u128_to_balance amount) (\<lambda>price.
     let s1 = qf_send cfg who (qf_account_id cfg) price s in
     unwrap (plain_add (overflow_checks cfg) ballot voted) (\<lambda>votes.
     let s2 = s1\<lparr>ProjectVotes := map_insert (ProjectVotes s1) (vote_hash, who) votes\<rparr> in
     unwrap (credit_vote (overflow_checks cfg) voted ballot amount fee (projects cfg s2 round_id hash))
       (\<lambda>(added, poj).
     unwrap (credit_area added fee (rounds s2 round_id)) (\<lambda>rnd.
     let s3 = s2\<lparr>Rounds := map_insert (Rounds s2) round_id rnd,
                 Projects := map_insert (Projects s2) (round_id, hash) poj\<rparr>
     in Ok (qf_deposit_event (VoteSucceed hash who ballot) s3)))))))))))))"

section \<open>Views\<close>

text \<open>
  The two functions that the runtime API exposes. They return values of 32 bits; \<open>None\<close> is a
  panic, which is what a value that does not fit leads to.
\<close>

definition vote_cost ::
  "('acc, 'h, 'l) qf_config \<Rightarrow> 'acc \<Rightarrow> u32 \<Rightarrow> 'h \<Rightarrow> u32 \<Rightarrow> ('acc, 'h, 'l) qf \<Rightarrow> u32 option" where
  "vote_cost cfg who round_id hash ballot s =
     (let vote_hash = hash_of cfg (hash, round_id);
          voted = project_votes s vote_hash who
      in cal_cost voted (ucast ballot) \<bind> try_into)"

definition project_row ::
  "('acc, 'h, 'l) qf_config \<Rightarrow> u128 \<Rightarrow> u128 \<Rightarrow> 'h \<times> 'acc Project
     \<Rightarrow> ('h \<times> u32 \<times> u32 \<times> u32) option" where
  "project_row cfg area pool row =
     (let (hash, project) = row in do {
        sg \<leftarrow> (if 0 < area
               then checked_div pool area \<bind> (\<lambda>unit. checked_mul (support_area project) unit)
               else Some 0);
        votes \<leftarrow> try_into (total_votes project);
        granted \<leftarrow> checked_div (grants project) (UnitOfVote cfg) \<bind> try_into;
        support_grants \<leftarrow> checked_div sg (UnitOfVote cfg) \<bind> try_into;
        Some (hash, votes, granted, support_grants)
      })"

fun project_rows ::
  "('acc, 'h, 'l) qf_config \<Rightarrow> u128 \<Rightarrow> u128 \<Rightarrow> ('h \<times> 'acc Project) list
     \<Rightarrow> ('h \<times> u32 \<times> u32 \<times> u32) list \<Rightarrow> ('h \<times> u32 \<times> u32 \<times> u32) list option" where
  "project_rows cfg area pool [] acc = Some acc"
| "project_rows cfg area pool (row # rest) acc =
     project_row cfg area pool row \<bind> (\<lambda>r. project_rows cfg area pool rest (acc @ [r]))"

definition projects_per_round ::
  "('acc, 'h, 'l) qf_config \<Rightarrow> u32 \<Rightarrow> ('acc, 'h, 'l) qf \<Rightarrow> ('h \<times> u32 \<times> u32 \<times> u32) list option" where
  "projects_per_round cfg round_id s =
     (let round = rounds s round_id
      in project_rows cfg (total_support_area round) (support_pool round) (iter_prefix cfg s round_id) [])"

section \<open>Dispatch\<close>

datatype 'h qf_call =
    DonateCall u32 u128
  | StartRoundCall u32
  | EndRoundCall u32
  | RegisterProjectCall u32 'h "u8 list"
  | VoteCall u32 'h u128

record ('acc, 'h) qf_extrinsic =
  qf_origin :: "'acc origin"
  qf_the_call :: "'h qf_call"

definition qf_dispatch ::
  "('acc, 'h, 'l) qf_config \<Rightarrow> ('acc, 'h) qf_extrinsic \<Rightarrow> ('acc, 'h, 'l) qf
     \<Rightarrow> ('acc, 'h, 'l) qf_outcome" where
  "qf_dispatch cfg x s =
     (case qf_the_call x of
        DonateCall round_id amount \<Rightarrow> donate cfg (qf_origin x) round_id amount s
      | StartRoundCall round_id \<Rightarrow> start_round cfg (qf_origin x) round_id s
      | EndRoundCall round_id \<Rightarrow> end_round cfg (qf_origin x) round_id s
      | RegisterProjectCall round_id hash title \<Rightarrow>
          register_project cfg (qf_origin x) round_id hash title s
      | VoteCall round_id hash ballot \<Rightarrow> vote cfg (qf_origin x) round_id hash ballot s)"

end
