(* ===== verification/QF_Inv.thy ===== *)
theory QF_Inv
  imports QF_Ops
begin

text \<open>
  The invariant of the quadratic-funding pallet, and the inversion rules of its dispatchables.
  What a project stores is a running summary of the ballots of its voters; the invariant says
  which function of the ballots it is.
\<close>

section \<open>Tallies of ballots\<close>

text \<open>Of a map from voters to ballots: the number of votes, the sum of squares, and the units paid for.\<close>

definition votes_of :: "('acc \<rightharpoonup> u128) \<Rightarrow> nat" where
  "votes_of m = register_total unat m"

definition squares_of :: "('acc \<rightharpoonup> u128) \<Rightarrow> nat" where
  "squares_of m = register_total (\<lambda>v. unat v * unat v) m"

definition units_of :: "('acc \<rightharpoonup> u128) \<Rightarrow> nat" where
  "units_of m = register_total (\<lambda>v. tri (unat v)) m"

lemmas tally_defs = votes_of_def squares_of_def units_of_def

lemma tally_empty [simp]: "votes_of Map.empty = 0" "squares_of Map.empty = 0" "units_of Map.empty = 0"
  by (simp_all add: tally_defs)

lemma register_total_ballot:
  assumes "finite (dom m)" and "weight 0 = 0"
  shows "register_total weight (map_insert m k v) + weight (map_get 0 m k)
    = register_total weight m + weight v"
  using register_total_insert [OF assms(1), of weight k v] assms(2)
  by (simp add: map_get_def split: option.splits)

lemma register_total_bound:
  assumes "\<And>k v. m k = Some v \<Longrightarrow> f v \<le> c * g v"
  shows "register_total f m \<le> c * register_total g m"
  unfolding register_total_def sum_distrib_left
  by (rule sum_mono) (auto intro: assms)

lemma ballot_le_votes:
  "finite (dom m) \<Longrightarrow> unat (map_get 0 m k) \<le> votes_of m"
  using register_total_le [of m k _ unat] by (auto simp: votes_of_def map_get_def split: option.splits)

text \<open>
  The quadratic formula: twice the support area is the square of the votes less the squares of
  the ballots, that is, the sum of the products of the ballots of each two voters.
\<close>

definition tally_ok :: "u128 \<Rightarrow> u128 \<Rightarrow> ('acc \<rightharpoonup> u128) \<Rightarrow> bool" where
  "tally_ok votes area m \<longleftrightarrow>
     unat votes = votes_of m \<and> 2 * unat area + squares_of m = unat votes * unat votes"

text \<open>
  The total of votes of a project cannot wrap around, although the code adds with a plain
  \<open>+=\<close>: the support area, which is checked, grows with the square of the total.
\<close>

lemma votes_fit:
  assumes area: "2 * A + squares_of m = votes_of m * votes_of m" "A < 2 ^ 128"
    and small: "\<And>k v. m k = Some v \<Longrightarrow> unat v \<le> 2 ^ 127"
  shows "votes_of m < 2 ^ 128"
proof (rule ccontr)
  assume "\<not> votes_of m < 2 ^ 128"
  then obtain d where d: "votes_of m = 2 ^ 128 + d" by (metis le_Suc_ex not_less)
  have "squares_of m \<le> 2 ^ 127 * votes_of m"
    unfolding tally_defs using small by (intro register_total_bound mult_le_mono1) auto
  then have "votes_of m * votes_of m \<le> 2 * A + 2 ^ 127 * votes_of m" using area(1) by linarith
  then have "(2 ^ 128 + d) * (2 ^ 127 + d) \<le> 2 * A" unfolding d by (simp add: algebra_simps)
  moreover have "(2 ^ 128 + d) * (2 ^ 127 + d) \<ge> 2 ^ 128 * 2 ^ 127" by (intro mult_le_mono) auto
  ultimately show False using assms(2) by simp
qed

lemma tally_step:
  assumes ok: "tally_ok T A m" and fin: "finite (dom m)"
    and small: "\<And>k v. m k = Some v \<Longrightarrow> unat v \<le> 2 ^ 127"
    and w: "unat w = unat b + unat (map_get 0 m k)" "unat w \<le> 2 ^ 127"
    and area: "unat A' = unat A + unat b * (unat T - unat (map_get 0 m k))"
  shows "tally_ok (T + b) A' (map_insert m k w)" and "unat (T + b) = unat T + unat b"
proof -
  let ?v = "map_get 0 m k" and ?m = "map_insert m k w"
  have v: "unat ?v \<le> unat T" using ballot_le_votes [OF fin, of k] ok by (simp add: tally_ok_def)
  then obtain r where r: "unat T = unat ?v + r" by (auto simp: le_iff_add)
  have votes: "votes_of ?m = unat T + unat b"
    using register_total_ballot [OF fin, of unat k w] ok w by (simp add: tally_ok_def votes_of_def)
  have "squares_of ?m + unat ?v * unat ?v = squares_of m + unat w * unat w"
    unfolding squares_of_def by (rule register_total_ballot [OF fin]) simp
  moreover have sq: "2 * unat A + squares_of m = (unat ?v + r) * (unat ?v + r)"
    using ok by (simp add: tally_ok_def r)
  ultimately have eq: "2 * unat A' + squares_of ?m = (unat T + unat b) * (unat T + unat b)"
    using sq unfolding w(1) area r by (simp add: algebra_simps)
  have "votes_of ?m < 2 ^ 128"
  proof (rule votes_fit [where A = "unat A'"])
    show "2 * unat A' + squares_of ?m = votes_of ?m * votes_of ?m" by (simp only: eq votes)
    show "unat A' < 2 ^ 128" using unat_lt [of A'] by simp
    show "unat v \<le> 2 ^ 127" if "?m j = Some v" for j v
      using that small w(2) by (auto simp: map_insert_def split: if_splits)
  qed
  then show u: "unat (T + b) = unat T + unat b" by (subst unat_add_fits) (simp_all add: votes)
  show "tally_ok (T + b) A' ?m" unfolding tally_ok_def u using votes eq by simp
qed

section \<open>The invariant\<close>

definition ballots :: "('acc, 'h, 'l) qf \<Rightarrow> 'h \<Rightarrow> ('acc \<rightharpoonup> u128)" where
  "ballots s vote_hash = (\<lambda>a. ProjectVotes s (vote_hash, a))"

definition projects_in :: "('acc, 'h, 'l) qf \<Rightarrow> u32 \<Rightarrow> ('h \<rightharpoonup> 'acc Project)" where
  "projects_in s r = (\<lambda>h. Projects s (r, h))"

definition vote_key :: "('acc, 'h, 'l) qf_config \<Rightarrow> u32 \<times> 'h \<Rightarrow> 'h" where
  "vote_key cfg k = hash_of cfg (snd k, fst k)"

definition area_sum :: "('acc, 'h, 'l) qf \<Rightarrow> u32 \<Rightarrow> nat" where
  "area_sum s r = register_total (\<lambda>p. unat (support_area p)) (projects_in s r)"

definition round_units :: "('acc, 'h, 'l) qf_config \<Rightarrow> ('acc, 'h, 'l) qf \<Rightarrow> u32 \<Rightarrow> nat" where
  "round_units cfg s r = (\<Sum>h\<in>dom (projects_in s r). units_of (ballots s (vote_key cfg (r, h))))"

text \<open>A project stores its votes, its area, and what its voters paid less the fees (as a word).\<close>

definition project_inv :: "('acc, 'h, 'l) qf_config \<Rightarrow> ('acc, 'h, 'l) qf \<Rightarrow> bool" where
  "project_inv cfg s \<longleftrightarrow>
     (\<forall>k p. Projects s k = Some p \<longrightarrow>
        tally_ok (total_votes p) (support_area p) (ballots s (vote_key cfg k)) \<and>
        grants p = UnitOfVote cfg * (NumberOfUnitPerVote cfg - FeeRatioPerVote cfg)
                     * of_nat (units_of (ballots s (vote_key cfg k))) \<and>
        withdrew p = 0)"

text \<open>A round stores the sum of the areas, and every fee it took is in its total of taxes.\<close>

definition round_inv :: "('acc, 'h, 'l) qf_config \<Rightarrow> ('acc, 'h, 'l) qf \<Rightarrow> bool" where
  "round_inv cfg s \<longleftrightarrow>
     (\<forall>r. unat (total_support_area (rounds s r)) = area_sum s r \<and>
          unat (support_pool (rounds s r)) + unat (total_tax (rounds s r)) =
            unat (pre_tax_support_pool (rounds s r))
            + unat (UnitOfVote cfg) * unat (FeeRatioPerVote cfg) * round_units cfg s r)"

text \<open>The keys of the projects that can have ballots: those of a round that was started.\<close>

definition voted_keys :: "('acc, 'h, 'l) qf \<Rightarrow> (u32 \<times> 'h) set" where
  "voted_keys s = {k \<in> dom (Projects s). fst k \<in> dom (Rounds s)}"

text \<open>Ballots belong to such projects, are positive, and their price fits.\<close>

definition ballot_inv :: "('acc, 'h, 'l) qf_config \<Rightarrow> ('acc, 'h, 'l) qf \<Rightarrow> bool" where
  "ballot_inv cfg s \<longleftrightarrow>
     (\<forall>vh a v. ProjectVotes s (vh, a) = Some v \<longrightarrow>
        vh \<in> vote_key cfg ` voted_keys s \<and> 0 < v \<and>
        unat (UnitOfVote cfg) * unat (NumberOfUnitPerVote cfg) * unat v < 2 ^ 128)"

definition key_inv :: "('acc, 'h, 'l) qf_config \<Rightarrow> ('acc, 'h, 'l) qf \<Rightarrow> bool" where
  "key_inv cfg s \<longleftrightarrow>
     finite (dom (Rounds s)) \<and> finite (dom (Projects s)) \<and> finite (dom (ProjectVotes s)) \<and>
     inj_on (vote_key cfg) (dom (Projects s))"

definition qf_inv :: "('acc, 'h, 'l) qf_config \<Rightarrow> ('acc, 'h, 'l) qf \<Rightarrow> bool" where
  "qf_inv cfg s \<longleftrightarrow> key_inv cfg s \<and> ballot_inv cfg s \<and> project_inv cfg s \<and> round_inv cfg s"

lemmas qf_inv_defs = qf_inv_def key_inv_def ballot_inv_def project_inv_def round_inv_def

text \<open>
  The runtime's constants: a vote costs at least two base units, and the fee is a part of the
  price. A registration is admissible when the hash of its key is not the hash of the key of
  another project.
\<close>

definition prices_ok :: "('acc, 'h, 'l) qf_config \<Rightarrow> bool" where
  "prices_ok cfg \<longleftrightarrow>
     1 < unat (UnitOfVote cfg) * unat (NumberOfUnitPerVote cfg) \<and>
     FeeRatioPerVote cfg \<le> NumberOfUnitPerVote cfg"

definition no_collision ::
  "('acc, 'h, 'l) qf_config \<Rightarrow> ('acc, 'h) qf_extrinsic \<Rightarrow> ('acc, 'h, 'l) qf \<Rightarrow> bool" where
  "no_collision cfg x s =
     (case qf_the_call x of
        RegisterProjectCall r h title \<Rightarrow> vote_key cfg (r, h) \<notin> vote_key cfg ` (dom (Projects s) - {(r, h)})
      | _ \<Rightarrow> True)"

lemma finite_ballots: "finite (dom (ProjectVotes s)) \<Longrightarrow> finite (dom (ballots s vh))"
  by (rule finite_subset [OF _ finite_imageI [of "dom (ProjectVotes s)" snd]])
    (force simp: ballots_def image_iff dom_def)

lemma finite_projects_in: "finite (dom (Projects s)) \<Longrightarrow> finite (dom (projects_in s r))"
  by (rule finite_subset [OF _ finite_imageI [of "dom (Projects s)" snd]])
    (force simp: projects_in_def image_iff dom_def)

lemma tally_ok_empty [simp]: "tally_ok 0 0 Map.empty"
  by (simp add: tally_ok_def)

lemma voted_keys_mono:
  "dom (Projects s) \<subseteq> dom (Projects t) \<Longrightarrow> dom (Rounds s) \<subseteq> dom (Rounds t) \<Longrightarrow>
     voted_keys s \<subseteq> voted_keys t"
  by (auto simp: voted_keys_def)

text \<open>Other keys have no ballots.\<close>

lemma ballots_unregistered:
  assumes "ballot_inv cfg s" and "vh \<notin> vote_key cfg ` voted_keys s"
  shows "ballots s vh = Map.empty"
proof (rule ext)
  show "ballots s vh a = None" for a
    using assms by (cases "ballots s vh a") (auto simp: ballot_inv_def ballots_def)
qed

lemma qf_init_inv: "qf_inv cfg (qf_init l)"
  by (simp add: qf_inv_defs qf_init_def rounds_def default_round_def map_get_def area_sum_def
      round_units_def projects_in_def ballots_def)

text \<open>The invariant is about the storage only, not about the ledger.\<close>

lemma qf_inv_storage:
  assumes "qf_storage.truncate s = qf_storage.truncate t"
  shows "qf_inv cfg s \<longleftrightarrow> qf_inv cfg t"
  using assms
  by (simp add: qf_storage.defs qf_inv_defs rounds_def area_sum_def round_units_def projects_in_def
      ballots_def voted_keys_def)

end
