(* ===== verification/QF_Preserve.thy ===== *)
theory QF_Preserve
  imports QF_Inv
begin

text \<open>
  What each dispatchable of the quadratic-funding pallet does when it succeeds, field by field,
  the preservation of the invariant by each of them, and the pallet's interpretation of the
  executor's contract.
\<close>

section \<open>Inversion of the dispatchables\<close>

lemma qf_send_frame [simp]:
  "Rounds (qf_send cfg a b x s) = Rounds s" "Projects (qf_send cfg a b x s) = Projects s"
  "ProjectVotes (qf_send cfg a b x s) = ProjectVotes s" "qf_events (qf_send cfg a b x s) = qf_events s"
  "bank (qf_send cfg a b x s) = pay cfg (bank s) a b x KeepAlive"
  by (simp_all add: qf_send_def)

lemma qf_deposit_frame [simp]:
  "Rounds (qf_deposit_event e s) = Rounds s" "Projects (qf_deposit_event e s) = Projects s"
  "ProjectVotes (qf_deposit_event e s) = ProjectVotes s" "bank (qf_deposit_event e s) = bank s"
  "qf_events (qf_deposit_event e s) = qf_events s @ [e]"
  by (simp_all add: qf_deposit_event_def)

lemma qf_admin_Ok [simp]: "qf_ensure_admin cfg og s k = Ok t \<longleftrightarrow> AdminOrigin cfg og \<and> k = Ok t"
  by (simp add: qf_ensure_admin_def)

lemma qf_admin_Err [simp]:
  "qf_ensure_admin cfg og s k = Err e t \<longleftrightarrow>
     (if AdminOrigin cfg og then k = Err e t else e = BadOrigin \<and> t = s)"
  by (auto simp: qf_ensure_admin_def)

lemma donateE:
  assumes "donate cfg og r amount s = Ok t"
  obtains who fee unit rnd where "og = Signed who" "contains_key (Rounds s) r" "ongoing (rounds s r)"
    "cal_amount cfg 1 False = Some unit" "unit < amount" "donation_fee cfg amount = Some fee"
    "credit_donation (overflow_checks cfg) amount fee (rounds s r) = Some rnd"
    "Rounds t = map_insert (Rounds s) r rnd" "Projects t = Projects s"
    "ProjectVotes t = ProjectVotes s" "bank t = pay cfg (bank s) who (qf_account_id cfg) amount KeepAlive"
    "qf_events t = qf_events s @ [DonateSucceed r who amount]"
  using assms
  by (auto simp: donate_def Let_def signed_simps outcome_simps rounds_def)

lemma start_roundE:
  assumes "start_round cfg og r s = Ok t"
  obtains "AdminOrigin cfg og" "\<not> contains_key (Rounds s) r"
    "Rounds t = map_insert (Rounds s) r new_round" "Projects t = Projects s"
    "ProjectVotes t = ProjectVotes s" "bank t = bank s" "qf_events t = qf_events s @ [RoundStarted r]"
  using assms by (auto simp: start_round_def Let_def)

lemma pay_projects_frame:
  assumes "pay_projects cfg area pool items s = Ok t"
  shows "Rounds t = Rounds s \<and> Projects t = Projects s \<and> ProjectVotes t = ProjectVotes s \<and>
    qf_events t = qf_events s"
  using assms
  by (induction cfg area pool items s rule: pay_projects.induct) (auto simp: outcome_simps)

lemma pay_projects_Err [simp]: "pay_projects cfg area pool items s \<noteq> Err e t"
  by (induction cfg area pool items s rule: pay_projects.induct) (auto simp: outcome_simps)

lemma end_roundE:
  assumes "end_round cfg og r s = Ok t"
  obtains s1 where "AdminOrigin cfg og" "contains_key (Rounds s) r" "ongoing (rounds s r)"
    "pay_projects cfg (total_support_area (rounds s r)) (support_pool (rounds s r))
       (iter_prefix cfg s r) s = Ok s1"
    "Rounds t = map_insert (Rounds s) r ((rounds s r)\<lparr>ongoing := False\<rparr>)" "Projects t = Projects s"
    "ProjectVotes t = ProjectVotes s" "bank t = bank s1" "qf_events t = qf_events s @ [RoundEnded r]"
proof -
  from assms obtain s1 where g: "AdminOrigin cfg og" "contains_key (Rounds s) r" "ongoing (rounds s r)"
    and p: "pay_projects cfg (total_support_area (rounds s r)) (support_pool (rounds s r))
       (iter_prefix cfg s r) s = Ok s1"
    and t: "t = qf_deposit_event (RoundEnded r)
       (s1\<lparr>Rounds := map_insert (Rounds s1) r ((rounds s r)\<lparr>ongoing := False\<rparr>)\<rparr>)"
    by (auto simp: end_round_def Let_def and_then_Ok)
  show thesis
    using pay_projects_frame [OF p] by (intro that [OF g p]) (simp_all add: t)
qed

lemma register_projectE:
  assumes "register_project cfg og r h title s = Ok t"
  obtains who where "og = Signed who" "NameMinLength cfg \<le> length title" "length title \<le> NameMaxLength cfg"
    "\<not> contains_key (Projects s) (r, h)" "Rounds t = Rounds s"
    "Projects t = map_insert (Projects s) (r, h) \<lparr>total_votes = 0, grants = 0, support_area = 0,
       withdrew = 0, name = title, owner = who\<rparr>"
    "ProjectVotes t = ProjectVotes s" "bank t = bank s" "qf_events t = qf_events s @ [ProjectRegistered h who]"
  using assms by (auto simp: register_project_def Let_def signed_simps)

lemma voteE:
  assumes "vote cfg og r h b s = Ok t"
  obtains who cost amount fee votes added poj rnd where "og = Signed who"
    "contains_key (Projects s) (r, h)" "0 < b" "contains_key (Rounds s) r" "ongoing (rounds s r)"
    "cal_cost (project_votes s (vote_key cfg (r, h)) who) b = Some cost"
    "cal_amount cfg cost False = Some amount" "cal_amount cfg cost True = Some fee"
    "plain_add (overflow_checks cfg) b (project_votes s (vote_key cfg (r, h)) who) = Some votes"
    "credit_vote (overflow_checks cfg) (project_votes s (vote_key cfg (r, h)) who) b amount fee
       (projects cfg s r h) = Some (added, poj)"
    "credit_area added fee (rounds s r) = Some rnd"
    "Rounds t = map_insert (Rounds s) r rnd" "Projects t = map_insert (Projects s) (r, h) poj"
    "ProjectVotes t = map_insert (ProjectVotes s) (vote_key cfg (r, h), who) votes"
    "bank t = pay cfg (bank s) who (qf_account_id cfg) amount KeepAlive"
    "qf_events t = qf_events s @ [VoteSucceed h who b]"
  using assms
  by (auto simp: vote_def Let_def signed_simps outcome_simps rounds_def projects_def
      project_votes_def vote_key_def)

lemma qf_dispatch_err:
  "qf_dispatch cfg x s = Err e t \<Longrightarrow> t = s"
  by (cases "qf_the_call x")
    (auto simp: qf_dispatch_def donate_def start_round_def end_round_def register_project_def
      vote_def Let_def signed_simps outcome_simps and_then_Err split: if_splits)

section \<open>Reading a written state\<close>

lemma rounds_insert:
  "Rounds t = map_insert (Rounds s) r rnd \<Longrightarrow> rounds t j = (if j = r then rnd else rounds s j)"
  by (simp add: rounds_def storage_defs)

lemma rounds_same: "Rounds t = Rounds s \<Longrightarrow> rounds t = rounds s"
  by (rule ext) (simp add: rounds_def)

lemma area_sum_same: "Projects t = Projects s \<Longrightarrow> area_sum t r = area_sum s r"
  by (simp add: area_sum_def projects_in_def)

lemma ballots_same: "ProjectVotes t = ProjectVotes s \<Longrightarrow> ballots t = ballots s"
  by (simp add: ballots_def fun_eq_iff)

lemma round_units_same:
  "Projects t = Projects s \<Longrightarrow> ProjectVotes t = ProjectVotes s \<Longrightarrow> round_units cfg t r = round_units cfg s r"
  by (simp add: round_units_def projects_in_def ballots_def)

lemma ballots_insert:
  "ProjectVotes t = map_insert (ProjectVotes s) (vh, who) v \<Longrightarrow>
     ballots t k = (if k = vh then map_insert (ballots s vh) who v else ballots s k)"
  by (auto simp: ballots_def map_insert_def fun_eq_iff)

lemma projects_in_insert:
  "Projects t = map_insert (Projects s) (r, h) p \<Longrightarrow>
     projects_in t j = (if j = r then map_insert (projects_in s r) h p else projects_in s j)"
  by (auto simp: projects_in_def map_insert_def fun_eq_iff)

lemma projects_registered: "Projects s (r, h) = Some p \<Longrightarrow> projects cfg s r h = p"
  by (simp add: projects_def map_get_def)

lemma project_votes_ballots: "project_votes s vh who = map_get 0 (ballots s vh) who"
  by (simp add: project_votes_def ballots_def map_get_def)

section \<open>Rounds\<close>

text \<open>Writes to rounds alone keep the facts about projects and ballots.\<close>

lemma rounds_only_inv:
  assumes "qf_inv cfg s" and "Projects t = Projects s" "ProjectVotes t = ProjectVotes s"
    and "Rounds t = map_insert (Rounds s) r rnd"
    and "total_support_area rnd = total_support_area (rounds s r)"
    and "unat (support_pool rnd) + unat (total_tax rnd) + unat (pre_tax_support_pool (rounds s r)) =
         unat (support_pool (rounds s r)) + unat (total_tax (rounds s r)) + unat (pre_tax_support_pool rnd)"
  shows "qf_inv cfg t"
proof -
  have "round_inv cfg t"
    unfolding round_inv_def
  proof
    fix j
    have "unat (total_support_area (rounds s j)) = area_sum s j"
      "unat (support_pool (rounds s j)) + unat (total_tax (rounds s j)) =
         unat (pre_tax_support_pool (rounds s j))
         + unat (UnitOfVote cfg) * unat (FeeRatioPerVote cfg) * round_units cfg s j"
      using assms(1) by (simp_all add: qf_inv_def round_inv_def)
    then show "unat (total_support_area (rounds t j)) = area_sum t j \<and>
      unat (support_pool (rounds t j)) + unat (total_tax (rounds t j)) =
         unat (pre_tax_support_pool (rounds t j))
         + unat (UnitOfVote cfg) * unat (FeeRatioPerVote cfg) * round_units cfg t j"
      using assms(5,6)
      by (auto simp: rounds_insert [OF assms(4)] area_sum_same [OF assms(2)]
          round_units_same [OF assms(2,3)])
  qed
  moreover have "ballot_inv cfg t"
    using assms(1) image_mono [OF voted_keys_mono [of s t], of "vote_key cfg"]
    by (fastforce simp: qf_inv_def ballot_inv_def assms(2-4) map_insert_def)
  ultimately show ?thesis
    using assms(1) by (simp add: qf_inv_def key_inv_def project_inv_def assms(2-4)
        ballots_same [OF assms(3)])
qed

lemma credit_donation_sums:
  assumes "credit_donation checks a f rnd = Some rnd'" and "f \<le> a"
  shows "total_support_area rnd' = total_support_area rnd" "ongoing rnd' = ongoing rnd"
    "unat (pre_tax_support_pool rnd') = unat (pre_tax_support_pool rnd) + unat a"
    "unat (support_pool rnd') = unat (support_pool rnd) + (unat a - unat f)"
    "unat (total_tax rnd') = unat (total_tax rnd) + unat f"
  using assms
  by (auto simp: credit_donation_def bind_eq_Some_conv rust_arith plain_sub_fits word_le_nat_alt unat_sub_le)

lemma donation_fee_le:
  assumes "donation_fee cfg a = Some f" and "FeeRatioPerVote cfg \<le> NumberOfUnitPerVote cfg"
  shows "f \<le> a" and "unat f = unat (FeeRatioPerVote cfg) * (unat a div unat (NumberOfUnitPerVote cfg))"
proof -
  show f: "unat f = unat (FeeRatioPerVote cfg) * (unat a div unat (NumberOfUnitPerVote cfg))"
    using assms(1) by (auto simp: donation_fee_def bind_eq_Some_conv rust_arith)
  have "unat f \<le> unat (NumberOfUnitPerVote cfg) * (unat a div unat (NumberOfUnitPerVote cfg))"
    unfolding f using assms(2) by (intro mult_le_mono1) (simp add: word_le_nat_alt)
  also have "\<dots> \<le> unat a" by simp
  finally show "f \<le> a" by (simp add: word_le_nat_alt)
qed

lemma donate_inv:
  assumes "qf_inv cfg s" and "prices_ok cfg" and "donate cfg og r amount s = Ok t"
  shows "qf_inv cfg t"
  using assms(3)
proof (cases rule: donateE)
  case (1 who fee unit rnd)
  have le: "fee \<le> amount" using donation_fee_le(1) [OF 1(6)] assms(2) by (simp add: prices_ok_def)
  then have "unat fee \<le> unat amount" by (simp add: word_le_nat_alt)
  with credit_donation_sums [OF 1(7) le] show ?thesis
    by (intro rounds_only_inv [OF assms(1) 1(9,10,8)]) simp_all
qed

lemma start_round_inv:
  assumes "qf_inv cfg s" and "start_round cfg og r s = Ok t"
  shows "qf_inv cfg t"
  using assms(2)
proof (cases rule: start_roundE)
  case 1
  have "rounds s r = default_round"
    using 1(2) by (simp add: rounds_def storage_defs)
  then show ?thesis
    by (intro rounds_only_inv [OF assms(1) 1(4,5,3)]) (simp_all add: new_round_def default_round_def)
qed

lemma end_round_inv:
  assumes "qf_inv cfg s" and "end_round cfg og r s = Ok t"
  shows "qf_inv cfg t"
  using assms(2)
proof (cases rule: end_roundE)
  case (1 s1)
  then show ?thesis by (intro rounds_only_inv [OF assms(1) 1(6,7,5)]) simp_all
qed

end
