(* ===== verification/QF_Votes.thy ===== *)
theory QF_Votes
  imports QF_Preserve
begin

text \<open>
  Registration and voting keep the invariant: the running summaries that \<open>vote\<close> updates stay
  the function of the ballots that the invariant states. With the lemmas of
  \<^theory_text>\<open>QF_Preserve\<close> this discharges the executor's contract for the pallet.
\<close>

section \<open>Registration\<close>

lemma register_project_inv:
  assumes inv: "qf_inv cfg s"
    and fresh: "vote_key cfg (r, h) \<notin> vote_key cfg ` (dom (Projects s) - {(r, h)})"
    and ok: "register_project cfg og r h title s = Ok t"
  shows "qf_inv cfg t"
  using ok
proof (cases rule: register_projectE)
  case (1 who)
  let ?k = "vote_key cfg (r, h)"
  have new: "(r, h) \<notin> dom (Projects s)" using 1(4) by (auto simp: contains_key_def)
  then have unreg: "?k \<notin> vote_key cfg ` dom (Projects s)" using fresh by simp
  have empty: "ballots s ?k = Map.empty"
    using inv unreg by (intro ballots_unregistered) (auto simp: qf_inv_def voted_keys_def)
  have fin: "finite (dom (projects_in s j))" for j
    using inv by (intro finite_projects_in) (simp add: qf_inv_def key_inv_def)
  have "key_inv cfg t"
    using inv unreg new 1(5-7) by (auto simp: qf_inv_def key_inv_def map_insert_def)
  moreover have "ballot_inv cfg t"
    using inv image_mono [OF voted_keys_mono [of s t], of "vote_key cfg"]
    by (fastforce simp: qf_inv_def ballot_inv_def 1(5-7) map_insert_def)
  moreover have "project_inv cfg t"
    using inv empty 1(6) ballots_same [OF 1(7)]
    by (auto simp: qf_inv_def project_inv_def map_insert_def)
  moreover have "round_inv cfg t"
  proof -
    have h: "h \<notin> dom (projects_in s r)" using new by (auto simp: projects_in_def)
    then have hn: "projects_in s r h = None" by auto
    have "area_sum t j = area_sum s j" for j
      using register_total_insert [OF fin, of "\<lambda>p. unat (support_area p)" r h] hn
      by (simp add: area_sum_def projects_in_insert [OF 1(6)])
    moreover have "round_units cfg t j = round_units cfg s j" for j
      using h fin [of j] empty
      by (auto simp: round_units_def projects_in_insert [OF 1(6)] ballots_same [OF 1(7)] map_insert_def
          domIff)
    ultimately show ?thesis
      using inv rounds_same [OF 1(5)] by (simp add: qf_inv_def round_inv_def)
  qed
  ultimately show ?thesis by (simp add: qf_inv_def)
qed

section \<open>Voting\<close>

lemma credit_vote_sums:
  assumes "credit_vote checks v b a f p = Some (d, p')" and "unat v \<le> unat (total_votes p)" and "f \<le> a"
  shows "unat d = unat b * (unat (total_votes p) - unat v)"
    "unat (support_area p') = unat (support_area p) + unat d"
    "total_votes p' = total_votes p + b" "grants p' = grants p + (a - f)"
    "withdrew p' = withdrew p" "owner p' = owner p" "name p' = name p"
  using assms
  by (auto simp: credit_vote_def bind_eq_Some_conv rust_arith plain_sub_fits word_le_nat_alt
      unat_sub_le dest!: plain_add_value)

lemma credit_area_sums:
  assumes "credit_area d f rnd = Some rnd'"
  shows "unat (total_support_area rnd') = unat (total_support_area rnd) + unat d"
    "unat (total_tax rnd') = unat (total_tax rnd) + unat f"
    "support_pool rnd' = support_pool rnd" "pre_tax_support_pool rnd' = pre_tax_support_pool rnd"
    "ongoing rnd' = ongoing rnd"
  using assms by (auto simp: credit_area_def bind_eq_Some_conv rust_arith)

text \<open>The price of a vote and its fee are multiples of the units it costs.\<close>

lemma vote_price:
  assumes "prices_ok cfg" and "cal_amount cfg c False = Some a" and "cal_amount cfg c True = Some f"
  shows "f \<le> a" and "a - f = UnitOfVote cfg * (NumberOfUnitPerVote cfg - FeeRatioPerVote cfg) * c"
    and "unat f = unat (UnitOfVote cfg) * unat (FeeRatioPerVote cfg) * unat c"
    and "unat (UnitOfVote cfg) * unat (NumberOfUnitPerVote cfg) * unat c < 2 ^ 128"
proof -
  show f: "unat f = unat (UnitOfVote cfg) * unat (FeeRatioPerVote cfg) * unat c"
    by (rule cal_amount_fee [OF assms(3)])
  have a: "unat a = unat (UnitOfVote cfg) * unat (NumberOfUnitPerVote cfg) * unat c"
    by (rule cal_amount_price [OF assms(2)])
  then show "unat (UnitOfVote cfg) * unat (NumberOfUnitPerVote cfg) * unat c < 2 ^ 128"
    using unat_lt [of a] by simp
  show "f \<le> a"
    using assms(1) unfolding word_le_nat_alt f a prices_ok_def
    by (intro mult_le_mono1 mult_le_mono2) simp
  have "a = UnitOfVote cfg * NumberOfUnitPerVote cfg * c" "f = UnitOfVote cfg * FeeRatioPerVote cfg * c"
    using assms(2,3) by (auto simp: cal_amount_def Let_def bind_eq_Some_conv checked_mul_def split: if_splits)
  then show "a - f = UnitOfVote cfg * (NumberOfUnitPerVote cfg - FeeRatioPerVote cfg) * c"
    by (simp add: algebra_simps)
qed

lemma small_of_price:
  assumes "prices_ok cfg"
    and "unat (UnitOfVote cfg) * unat (NumberOfUnitPerVote cfg) * n < 2 ^ 128"
  shows "n \<le> 2 ^ 127"
proof -
  have "2 * n \<le> unat (UnitOfVote cfg) * unat (NumberOfUnitPerVote cfg) * n"
    using assms(1) by (intro mult_le_mono1) (simp add: prices_ok_def)
  from order.strict_trans1 [OF this assms(2)] show ?thesis by simp
qed

text \<open>All the numbers a successful vote writes, without wrap-around.\<close>

lemma vote_numbers:
  assumes inv: "qf_inv cfg s" and prices: "prices_ok cfg"
    and p: "Projects s (r, h) = Some p" and b: "0 < b"
    and v: "v = project_votes s (vote_key cfg (r, h)) who"
    and cost: "cal_cost v b = Some cost"
    and amount: "cal_amount cfg cost False = Some amount" and fee: "cal_amount cfg cost True = Some fee"
    and votes: "plain_add (overflow_checks cfg) b v = Some votes"
    and credit: "credit_vote (overflow_checks cfg) v b amount fee p = Some (added, p')"
  shows "unat votes = unat b + unat v"
    and "unat (UnitOfVote cfg) * unat (NumberOfUnitPerVote cfg) * unat votes < 2 ^ 128"
    and "tally_ok (total_votes p') (support_area p')
           (map_insert (ballots s (vote_key cfg (r, h))) who votes)"
    and "units_of (map_insert (ballots s (vote_key cfg (r, h))) who votes) =
           units_of (ballots s (vote_key cfg (r, h))) + unat cost"
    and "unat (total_votes p') = unat (total_votes p) + unat b"
    and "unat (support_area p') = unat (support_area p) + unat added"
    and "unat added = unat b * (unat (total_votes p) - unat v)"
proof -
  let ?m = "ballots s (vote_key cfg (r, h))"
  have vm: "v = map_get 0 ?m who" by (simp add: v project_votes_ballots)
  have fin: "finite (dom ?m)" using inv by (intro finite_ballots) (simp add: qf_inv_def key_inv_def)
  have ok: "tally_ok (total_votes p) (support_area p) ?m"
    using inv p by (auto simp: qf_inv_def project_inv_def)
  have bound: "unat v + unat b \<le> unat cost" by (rule cal_cost_bound [OF cost b])
  then have "unat b + unat v < 2 ^ LENGTH(128)" using unat_lt [of cost] by simp
  then show votes': "unat votes = unat b + unat v"
    using votes by (auto simp: plain_add_fits unat_add_fits)
  have "unat (UnitOfVote cfg) * unat (NumberOfUnitPerVote cfg) * unat votes
      \<le> unat (UnitOfVote cfg) * unat (NumberOfUnitPerVote cfg) * unat cost"
    using bound votes' by (intro mult_le_mono2) simp
  with vote_price(4) [OF prices amount fee]
  show fits: "unat (UnitOfVote cfg) * unat (NumberOfUnitPerVote cfg) * unat votes < 2 ^ 128"
    by (rule order.strict_trans1 [rotated])
  have small: "unat w \<le> 2 ^ 127" if "?m k = Some w" for k w
    using inv that by (intro small_of_price [OF prices]) (auto simp: qf_inv_def ballot_inv_def ballots_def)
  have le: "unat v \<le> unat (total_votes p)"
    using ballot_le_votes [OF fin, of who] ok by (simp add: vm tally_ok_def)
  note c = credit_vote_sums [OF credit le vote_price(1) [OF prices amount fee]]
  show "unat added = unat b * (unat (total_votes p) - unat v)"
    and "unat (support_area p') = unat (support_area p) + unat added" by (rule c)+
  have area: "unat (support_area p') = unat (support_area p) + unat b * (unat (total_votes p) - unat (map_get 0 ?m who))"
    using c(1,2) by (simp add: vm)
  have w: "unat votes = unat b + unat (map_get 0 ?m who)" using votes' by (simp add: vm)
  note step = tally_step [OF ok fin small w small_of_price [OF prices fits] area]
  show "tally_ok (total_votes p') (support_area p') (map_insert ?m who votes)"
    using step(1) by (simp add: c(3))
  show "unat (total_votes p') = unat (total_votes p) + unat b"
    using step(2) by (simp add: c(3))
  have "units_of (map_insert ?m who votes) + tri (unat v) = units_of ?m + tri (unat votes)"
    unfolding units_of_def vm by (rule register_total_ballot [OF fin]) simp
  then show "units_of (map_insert ?m who votes) = units_of ?m + unat cost"
    using cal_cost_tri [OF cost] by (simp add: votes' add.commute)
qed

lemma sum_change_one:
  fixes f g :: "'k \<Rightarrow> nat"
  assumes "finite K" and "k \<in> K" and "\<And>j. j \<in> K \<Longrightarrow> j \<noteq> k \<Longrightarrow> g j = f j" and "g k = f k + d"
  shows "sum g K = sum f K + d"
proof -
  have "sum g (K - {k}) = sum f (K - {k})" using assms(3) by (intro sum.cong) auto
  then show ?thesis using assms(1,2,4) by (simp add: sum.remove)
qed

text \<open>
  The writes of a successful vote, in the numbers they stand for: \<open>cost\<close> units are paid, \<open>added\<close>
  is the area that the project and the round gain, and only the ballots of the project change.
\<close>

lemma voteE_numbers:
  assumes inv: "qf_inv cfg s" and prices: "prices_ok cfg" and ok: "vote cfg og r h b s = Ok t"
  obtains who cost amount fee votes added p poj rnd where
    "Projects s (r, h) = Some p" "0 < b"
    "Rounds t = map_insert (Rounds s) r rnd" "Projects t = map_insert (Projects s) (r, h) poj"
    "ProjectVotes t = map_insert (ProjectVotes s) (vote_key cfg (r, h), who) votes"
    "unat votes = unat b + unat (project_votes s (vote_key cfg (r, h)) who)"
    "unat (UnitOfVote cfg) * unat (NumberOfUnitPerVote cfg) * unat votes < 2 ^ 128"
    "tally_ok (total_votes poj) (support_area poj) (ballots t (vote_key cfg (r, h)))"
    "units_of (ballots t (vote_key cfg (r, h))) = units_of (ballots s (vote_key cfg (r, h))) + unat cost"
    "unat (support_area poj) = unat (support_area p) + unat (added :: u128)"
    "grants poj = grants p + UnitOfVote cfg * (NumberOfUnitPerVote cfg - FeeRatioPerVote cfg) * cost"
    "withdrew poj = withdrew p"
    "unat (total_support_area rnd) = unat (total_support_area (rounds s r)) + unat added"
    "unat (total_tax rnd) = unat (total_tax (rounds s r))
       + unat (UnitOfVote cfg) * unat (FeeRatioPerVote cfg) * unat cost"
    "support_pool rnd = support_pool (rounds s r)"
    "pre_tax_support_pool rnd = pre_tax_support_pool (rounds s r)"
    "og = Signed who" "cal_amount cfg cost False = Some amount" "cal_amount cfg cost True = Some fee"
    "bank t = pay cfg (bank s) who (qf_account_id cfg) amount KeepAlive" "ongoing (rounds s r)"
    "cal_cost (project_votes s (vote_key cfg (r, h)) who) b = Some cost"
    "unat added = unat b * (unat (total_votes p) - unat (project_votes s (vote_key cfg (r, h)) who))"
    "unat (total_votes poj) = unat (total_votes p) + unat b" "owner poj = owner p"
    "ongoing rnd = ongoing (rounds s r)" "contains_key (Rounds s) r"
  using ok
proof (cases rule: voteE)
  case (1 who cost amount fee votes added poj rnd)
  let ?k = "vote_key cfg (r, h)"
  obtain p where p: "Projects s (r, h) = Some p" using 1(2) by (auto simp: contains_key_def)
  have credit: "credit_vote (overflow_checks cfg) (project_votes s ?k who) b amount fee p = Some (added, poj)"
    using 1(10) projects_registered [of s r h p cfg] p by simp
  have m: "ballots t ?k = map_insert (ballots s ?k) who votes" by (simp add: ballots_insert [OF 1(14)])
  note n = vote_numbers [OF inv prices p 1(3) refl 1(6,7,8,9) credit, folded m]
  note price = vote_price [OF prices 1(7,8)]
  have "finite (dom (ballots s ?k))" using inv by (intro finite_ballots) (simp add: qf_inv_def key_inv_def)
  then have "unat (project_votes s ?k who) \<le> unat (total_votes p)"
    using ballot_le_votes [of "ballots s ?k" who] inv p
    by (auto simp: project_votes_ballots tally_ok_def qf_inv_def project_inv_def)
  note c = credit_vote_sums [OF credit this price(1)]
  show thesis
    by (rule that [OF p 1(3,12,13,14) n(1,2,3,4,6) c(4) [unfolded price(2)] c(5)
      credit_area_sums(1) [OF 1(11)] credit_area_sums(2) [OF 1(11), unfolded price(3)]
      credit_area_sums(3,4) [OF 1(11)] 1(1,7,8,15) 1(5,6) n(7,5) c(6) credit_area_sums(5) [OF 1(11)] 1(4)])
qed

lemma vote_other_ballots:
  assumes "qf_inv cfg s" and "ProjectVotes t = map_insert (ProjectVotes s) (vote_key cfg k, who) votes"
    and "k \<in> dom (Projects s)" and "j \<in> dom (Projects s)" and "j \<noteq> k"
  shows "ballots t (vote_key cfg j) = ballots s (vote_key cfg j)"
proof -
  have "vote_key cfg j \<noteq> vote_key cfg k"
    using assms(1,3-5) inj_onD [of "vote_key cfg" "dom (Projects s)" j k]
    by (auto simp: qf_inv_def key_inv_def)
  then show ?thesis by (simp add: ballots_insert [OF assms(2)])
qed

lemma vote_project_inv:
  assumes inv: "qf_inv cfg s" and prices: "prices_ok cfg" and ok: "vote cfg og r h b s = Ok t"
  shows "project_inv cfg t"
  using inv prices ok
proof (cases rule: voteE_numbers)
  case (1 who cost amount fee votes added p poj rnd)
  let ?k = "vote_key cfg (r, h)"
  have old: "grants p = UnitOfVote cfg * (NumberOfUnitPerVote cfg - FeeRatioPerVote cfg)
      * of_nat (units_of (ballots s ?k))" "withdrew p = 0"
    using inv 1(1) by (auto simp: qf_inv_def project_inv_def)
  show ?thesis
    unfolding project_inv_def
  proof (intro allI impI)
    fix k q assume q: "Projects t k = Some q"
    show "tally_ok (total_votes q) (support_area q) (ballots t (vote_key cfg k)) \<and>
      grants q = UnitOfVote cfg * (NumberOfUnitPerVote cfg - FeeRatioPerVote cfg)
                   * of_nat (units_of (ballots t (vote_key cfg k))) \<and> withdrew q = 0"
    proof (cases "k = (r, h)")
      case True
      then have qp: "q = poj" using q by (simp add: 1(4) map_insert_def)
      have "grants poj = UnitOfVote cfg * (NumberOfUnitPerVote cfg - FeeRatioPerVote cfg)
          * of_nat (units_of (ballots t ?k))"
        by (simp add: 1(11) 1(9) old(1) algebra_simps)
      then show ?thesis using 1(8,12) old(2) by (simp add: True qp)
    next
      case False
      then have "Projects s k = Some q" using q by (simp add: 1(4) map_insert_def)
      moreover have "ballots t (vote_key cfg k) = ballots s (vote_key cfg k)"
        by (rule vote_other_ballots [OF inv 1(5)]) (use 1(1) calculation False in auto)
      ultimately show ?thesis using inv unfolding qf_inv_def project_inv_def by metis
    qed
  qed
qed

text \<open>The sums over the projects of a round move by what the vote added to one project.\<close>

lemma vote_sums:
  assumes inv: "qf_inv cfg s" and p: "Projects s (r, h) = Some p"
    and pt: "Projects t = map_insert (Projects s) (r, h) poj"
    and vt: "ProjectVotes t = map_insert (ProjectVotes s) (vote_key cfg (r, h), who) votes"
    and area: "unat (support_area poj) = unat (support_area p) + d"
    and units: "units_of (ballots t (vote_key cfg (r, h))) = units_of (ballots s (vote_key cfg (r, h))) + c"
  shows "area_sum t j = area_sum s j + (if j = r then d else 0)"
    and "round_units cfg t j = round_units cfg s j + (if j = r then c else 0)"
proof -
  have fin: "finite (dom (projects_in s j))" for j
    using inv by (intro finite_projects_in) (simp add: qf_inv_def key_inv_def)
  show "area_sum t j = area_sum s j + (if j = r then d else 0)"
    using register_total_insert [OF fin, of "\<lambda>p. unat (support_area p)" r h poj] area p
    by (simp add: area_sum_def projects_in_insert [OF pt]) (simp add: projects_in_def)
  have pd: "dom (projects_in t j) = dom (projects_in s j)" for j
    using p by (auto simp: projects_in_def domIff set_eq_iff pt map_insert_def)
  have other: "ballots t (vote_key cfg k) = ballots s (vote_key cfg k)"
    if "k \<in> dom (Projects s)" "k \<noteq> (r, h)" for k
    using vote_other_ballots [OF inv vt _ that] p by auto
  show "round_units cfg t j = round_units cfg s j + (if j = r then c else 0)"
  proof (cases "j = r")
    case True
    have "(\<Sum>i\<in>dom (projects_in s r). units_of (ballots t (vote_key cfg (r, i)))) =
        (\<Sum>i\<in>dom (projects_in s r). units_of (ballots s (vote_key cfg (r, i)))) + c"
      using fin p other by (intro sum_change_one [of _ h]) (auto simp: projects_in_def units domIff)
    then show ?thesis by (simp add: True round_units_def pd)
  next
    case False
    have "ballots t (vote_key cfg (j, i)) = ballots s (vote_key cfg (j, i))"
      if "i \<in> dom (projects_in s j)" for i
      by (rule other) (use that False in \<open>auto simp: projects_in_def\<close>)
    then show ?thesis using False by (simp add: round_units_def pd)
  qed
qed

lemma vote_round_inv:
  assumes inv: "qf_inv cfg s" and prices: "prices_ok cfg" and ok: "vote cfg og r h b s = Ok t"
  shows "round_inv cfg t"
  using inv prices ok
proof (cases rule: voteE_numbers)
  case (1 who cost amount fee votes added p poj rnd)
  note sums = vote_sums [OF inv 1(1,4,5,10,9)]
  show ?thesis
    unfolding round_inv_def
  proof
    fix j
    have "unat (total_support_area (rounds s j)) = area_sum s j"
      "unat (support_pool (rounds s j)) + unat (total_tax (rounds s j)) =
         unat (pre_tax_support_pool (rounds s j))
         + unat (UnitOfVote cfg) * unat (FeeRatioPerVote cfg) * round_units cfg s j"
      using inv by (simp_all add: qf_inv_def round_inv_def)
    then show "unat (total_support_area (rounds t j)) = area_sum t j \<and>
      unat (support_pool (rounds t j)) + unat (total_tax (rounds t j)) =
         unat (pre_tax_support_pool (rounds t j))
         + unat (UnitOfVote cfg) * unat (FeeRatioPerVote cfg) * round_units cfg t j"
      using 1(13-16) by (auto simp: rounds_insert [OF 1(3)] sums distrib_left)
  qed
qed

lemma vote_inv:
  assumes inv: "qf_inv cfg s" and prices: "prices_ok cfg" and ok: "vote cfg og r h b s = Ok t"
  shows "qf_inv cfg t"
  using inv prices ok
proof (cases rule: voteE_numbers)
  case (1 who cost amount fee votes added p poj rnd)
  have dom: "dom (Projects t) = dom (Projects s)" using 1(1) by (auto simp: 1(4) map_insert_def)
  have "key_inv cfg t"
    using inv dom by (simp add: qf_inv_def key_inv_def 1(3,5))
  moreover have "ballot_inv cfg t"
    unfolding ballot_inv_def
  proof (intro allI impI)
    fix vh a v assume "ProjectVotes t (vh, a) = Some v"
    moreover have "0 < votes" using 1(2,6) by (simp add: word_less_nat_alt)
    moreover have "vote_key cfg (r, h) \<in> vote_key cfg ` voted_keys s"
      using 1(1,3,27) by (auto intro!: imageI simp: voted_keys_def contains_key_def)
    moreover have "voted_keys t = voted_keys s"
      using 1(27) dom by (auto simp: voted_keys_def 1(3) map_insert_def contains_key_def)
    ultimately show "vh \<in> vote_key cfg ` voted_keys t \<and> 0 < v \<and>
        unat (UnitOfVote cfg) * unat (NumberOfUnitPerVote cfg) * unat v < 2 ^ 128"
      using inv 1(7)
      by (auto simp: 1(5) map_insert_def qf_inv_def ballot_inv_def split: if_splits)
  qed
  ultimately show ?thesis
    using vote_project_inv [OF assms] vote_round_inv [OF assms] by (simp add: qf_inv_def)
qed

section \<open>The pallet\<close>

lemma qf_dispatch_inv:
  assumes "qf_inv cfg s" and "prices_ok cfg" and "no_collision cfg x s" and "qf_dispatch cfg x s = Ok t"
  shows "qf_inv cfg t"
  using assms
  by (auto simp: qf_dispatch_def no_collision_def intro: donate_inv start_round_inv end_round_inv
      register_project_inv vote_inv split: qf_call.splits)

text \<open>The contract of the executor, for a runtime whose prices are in order.\<close>

definition qf_good :: "('acc, 'h, 'l) qf_config \<Rightarrow> ('acc, 'h, 'l) qf \<Rightarrow> bool" where
  "qf_good cfg s \<longleftrightarrow> prices_ok cfg \<and> qf_inv cfg s"

interpretation qf: pallet "qf_dispatch cfg" "no_collision cfg" "qf_good cfg" for cfg
  by unfold_locales (auto simp: qf_good_def intro: qf_dispatch_inv dest: qf_dispatch_err)

end
