(* ===== verification/QF_Solvency.thy ===== *)
theory QF_Solvency
  imports QF_Votes
begin

text \<open>
  What the quadratic-funding pallet owes, and that its account covers it as long as every
  donation and vote was really paid: the grants and the pool of every round that is going on,
  and the taxes of all rounds. The payments that \<open>end_round\<close> makes are bounded by it.
\<close>

section \<open>Debts of a round\<close>

definition grants_sum :: "('acc, 'h, 'l) qf \<Rightarrow> u32 \<Rightarrow> nat" where
  "grants_sum s r = register_total (\<lambda>p. unat (grants p)) (projects_in s r)"

definition owed :: "('acc, 'h, 'l) qf \<Rightarrow> u32 \<Rightarrow> nat" where
  "owed s r = unat (total_tax (rounds s r)) +
     (if ongoing (rounds s r) then unat (support_pool (rounds s r)) + grants_sum s r else 0)"

definition total_owed :: "('acc, 'h, 'l) qf \<Rightarrow> nat" where
  "total_owed s = (\<Sum>r\<in>dom (Rounds s). owed s r)"

definition solvent :: "('acc, 'h, 'l) qf_config \<Rightarrow> ('acc, 'h, 'l) qf \<Rightarrow> bool" where
  "solvent cfg s \<longleftrightarrow> total_owed s \<le> unat (balance cfg (bank s) (qf_account_id cfg))"

text \<open>A call is funded when its signer is not the pallet and the transfer it makes succeeds.\<close>

definition funded ::
  "('acc, 'h, 'l) qf_config \<Rightarrow> ('acc, 'h) qf_extrinsic \<Rightarrow> ('acc, 'h, 'l) qf \<Rightarrow> bool" where
  "funded cfg x s \<longleftrightarrow>
     (\<forall>who. qf_origin x = Signed who \<longrightarrow>
        (case qf_the_call x of
           DonateCall r amount \<Rightarrow> who \<noteq> qf_account_id cfg \<and>
             fst (transfer (currency cfg) (bank s) who (qf_account_id cfg) amount KeepAlive)
         | VoteCall r h ballot \<Rightarrow> who \<noteq> qf_account_id cfg \<and>
             (\<forall>cost amount. cal_cost (project_votes s (vote_key cfg (r, h)) who) ballot = Some cost \<longrightarrow>
                cal_amount cfg cost False = Some amount \<longrightarrow>
                fst (transfer (currency cfg) (bank s) who (qf_account_id cfg) amount KeepAlive))
         | _ \<Rightarrow> True))"

text \<open>
  What a donation or a vote is credited with without paying it: the amount, when the transfer to
  the account fails (or when the account would pay itself).
\<close>

definition arrives ::
  "('acc, 'h, 'l) qf_config \<Rightarrow> 'acc \<Rightarrow> u128 \<Rightarrow> ('acc, 'h, 'l) qf \<Rightarrow> bool" where
  "arrives cfg who amount s \<longleftrightarrow> who \<noteq> qf_account_id cfg \<and>
     fst (transfer (currency cfg) (bank s) who (qf_account_id cfg) amount KeepAlive)"

definition unpaid ::
  "('acc, 'h, 'l) qf_config \<Rightarrow> ('acc, 'h) qf_extrinsic \<Rightarrow> ('acc, 'h, 'l) qf \<Rightarrow> nat" where
  "unpaid cfg x s =
     (case qf_origin x of
        Signed who \<Rightarrow>
          (case qf_the_call x of
             DonateCall r amount \<Rightarrow> if arrives cfg who amount s then 0 else unat amount
           | VoteCall r h ballot \<Rightarrow>
               (case cal_cost (project_votes s (vote_key cfg (r, h)) who) ballot \<bind> (\<lambda>cost. cal_amount cfg cost False) of
                  Some amount \<Rightarrow> if arrives cfg who amount s then 0 else unat amount
                | None \<Rightarrow> 0)
           | _ \<Rightarrow> 0)
      | _ \<Rightarrow> 0)"

lemma funded_unpaid: "funded cfg x s \<Longrightarrow> unpaid cfg x s = 0"
  by (auto simp: funded_def unpaid_def arrives_def bind_eq_Some_conv split: origin.split qf_call.split option.split)

lemma pay_arrives:
  assumes "lawful_currency (currency cfg)"
  defines "acc \<equiv> qf_account_id cfg"
  shows "unat (balance cfg (bank s) acc) + unat amount \<le>
    unat (balance cfg (pay cfg (bank s) who acc amount KeepAlive) acc) +
      (if arrives cfg who amount s then 0 else unat amount)"
proof (cases "arrives cfg who amount s")
  case True
  then have ne: "who \<noteq> acc" and
    ok: "transfer (currency cfg) (bank s) who acc amount KeepAlive = (True, pay cfg (bank s) who acc amount KeepAlive)"
    by (auto simp: arrives_def acc_def pay_def prod_eq_iff)
  show ?thesis
    using transfer_moved [OF assms(1) ok ne] True by (simp add: transfer_effect_def)
next
  case False
  show ?thesis
  proof (cases "who = acc")
    case True
    then show ?thesis using False pay_self [OF assms(1)] by simp
  next
    case ne: False
    with False show ?thesis using pay_to_ge [OF assms(1) ne [symmetric]] by simp
  qed
qed

text \<open>
  The account covers a change when the debts grow by no more than the account and what is left
  unpaid.
\<close>

definition covered ::
  "('acc, 'h, 'l) qf_config \<Rightarrow> nat \<Rightarrow> ('acc, 'h, 'l) qf \<Rightarrow> ('acc, 'h, 'l) qf \<Rightarrow> bool" where
  "covered cfg n s t \<longleftrightarrow>
     total_owed t + unat (balance cfg (bank s) (qf_account_id cfg))
       \<le> total_owed s + unat (balance cfg (bank t) (qf_account_id cfg)) + n"

lemma covered_solvent: "covered cfg 0 s t \<Longrightarrow> solvent cfg s \<Longrightarrow> solvent cfg t"
  by (simp add: covered_def solvent_def)

text \<open>The debts move with one round at a time.\<close>

lemma total_owed_change:
  assumes "finite (dom (Rounds s))" and "dom (Rounds t) = dom (Rounds s)" and "r \<in> dom (Rounds s)"
    and "\<And>j. j \<noteq> r \<Longrightarrow> owed t j = owed s j"
  shows "total_owed t + owed s r = total_owed s + owed t r"
proof -
  have "sum (owed t) (dom (Rounds s) - {r}) = sum (owed s) (dom (Rounds s) - {r})"
    using assms(4) by (intro sum.cong) auto
  then show ?thesis
    using assms(1,3) by (simp add: total_owed_def assms(2) sum.remove)
qed

lemma owed_le_total:
  assumes "finite (dom (Rounds s))" and "r \<in> dom (Rounds s)"
  shows "owed s r \<le> total_owed s"
  using assms unfolding total_owed_def by (intro member_le_sum) auto

lemma grants_sum_same: "Projects t = Projects s \<Longrightarrow> grants_sum t j = grants_sum s j"
  by (simp add: grants_sum_def projects_in_def)

lemma owed_other_round:
  assumes "Rounds t = map_insert (Rounds s) r rnd" and "grants_sum t j = grants_sum s j" and "j \<noteq> r"
  shows "owed t j = owed s j"
  using assms(3) by (simp add: owed_def rounds_insert [OF assms(1)] assms(2))

lemma contains_dom: "contains_key m k \<longleftrightarrow> k \<in> dom m"
  by (auto simp: contains_key_def)

lemma dom_overwrite: "contains_key m k \<Longrightarrow> dom (map_insert m k v) = dom m"
  by (auto simp: contains_key_def map_insert_def)

section \<open>Each call keeps the account covered\<close>

lemma donate_covered:
  assumes cur: "lawful_currency (currency cfg)" and inv: "qf_inv cfg s" and prices: "prices_ok cfg"
    and ok: "donate cfg og r amount s = Ok t"
  shows "covered cfg (unpaid cfg \<lparr>qf_origin = og, qf_the_call = DonateCall r amount\<rparr> s) s t"
  using ok
proof (cases rule: donateE)
  case (1 who fee unit rnd)
  have le: "fee \<le> amount" using donation_fee_le(1) [OF 1(6)] prices by (simp add: prices_ok_def)
  then have le': "unat fee \<le> unat amount" by (simp add: word_le_nat_alt)
  have "unat (balance cfg (bank s) (qf_account_id cfg)) + unat amount
      \<le> unat (balance cfg (bank t) (qf_account_id cfg)) +
        unpaid cfg \<lparr>qf_origin = og, qf_the_call = DonateCall r amount\<rparr> s"
    using pay_arrives [OF cur, of s amount who] by (simp add: unpaid_def 1(1,11))
  moreover have "total_owed t + owed s r = total_owed s + owed t r"
    using inv 1(2) by (intro total_owed_change)
      (auto simp: qf_inv_def key_inv_def 1(8) dom_overwrite contains_dom [symmetric]
        intro: owed_other_round [OF 1(8) grants_sum_same [OF 1(9)]])
  moreover have "owed t r = owed s r + unat amount"
    using credit_donation_sums [OF 1(7) le] 1(3) le'
    by (simp add: owed_def rounds_insert [OF 1(8)] grants_sum_same [OF 1(9)])
  ultimately show ?thesis by (simp add: covered_def)
qed

lemma start_round_covered:
  assumes inv: "qf_inv cfg s" and ok: "start_round cfg og r s = Ok t"
  shows "covered cfg n s t"
  using ok
proof (cases rule: start_roundE)
  case 1
  have r: "r \<notin> dom (Rounds s)" using 1(2) by (simp add: contains_dom)
  have "grants p = 0" if p: "Projects s (r, h) = Some p" for h p
  proof -
    have "vote_key cfg (r, h) \<notin> vote_key cfg ` voted_keys s"
    proof
      assume "vote_key cfg (r, h) \<in> vote_key cfg ` voted_keys s"
      then obtain k where k: "k \<in> voted_keys s" "vote_key cfg (r, h) = vote_key cfg k" by blast
      moreover have "(r, h) \<in> dom (Projects s)" using p by blast
      ultimately have "(r, h) = k"
        using inv by (intro inj_onD [of "vote_key cfg" "dom (Projects s)"])
          (auto simp: qf_inv_def key_inv_def voted_keys_def)
      with k r show False by (auto simp: voted_keys_def)
    qed
    then have "ballots s (vote_key cfg (r, h)) = Map.empty"
      using inv by (intro ballots_unregistered) (simp_all add: qf_inv_def)
    then show ?thesis using inv p by (auto simp: qf_inv_def project_inv_def)
  qed
  then have "grants_sum s r = 0"
    by (auto simp: grants_sum_def register_total_def projects_in_def intro!: sum.neutral)
  then have "owed t r = 0"
    by (simp add: owed_def rounds_insert [OF 1(3)] grants_sum_same [OF 1(4)] new_round_def)
  moreover have "owed t j = owed s j" if "j \<in> dom (Rounds s)" for j
    using that r by (intro owed_other_round [OF 1(3) grants_sum_same [OF 1(4)]]) auto
  then have "sum (owed t) (dom (Rounds s)) = sum (owed s) (dom (Rounds s))" by simp
  ultimately have "total_owed t = total_owed s"
    using inv r by (simp add: total_owed_def 1(3) map_insert_def qf_inv_def key_inv_def)
  then show ?thesis by (simp add: covered_def 1(6))
qed

lemma register_project_covered:
  assumes inv: "qf_inv cfg s" and ok: "register_project cfg og r h title s = Ok t"
  shows "covered cfg n s t"
  using ok
proof (cases rule: register_projectE)
  case (1 who)
  have "finite (dom (projects_in s j))" for j
    using inv by (intro finite_projects_in) (simp add: qf_inv_def key_inv_def)
  moreover have "projects_in s r h = None" using 1(4) by (simp add: projects_in_def contains_key_def)
  ultimately have "grants_sum t j = grants_sum s j" for j
    using register_total_insert [of "projects_in s r" "\<lambda>p. unat (grants p)" h]
    by (simp add: grants_sum_def projects_in_insert [OF 1(6)])
  then have "owed t j = owed s j" for j by (simp add: owed_def rounds_same [OF 1(5)])
  then show ?thesis by (simp add: covered_def total_owed_def 1(5,8))
qed

text \<open>
  A vote grants at most its price less the fee, also when the sum of the grants wraps around.
\<close>

lemma vote_covered:
  assumes cur: "lawful_currency (currency cfg)" and inv: "qf_inv cfg s" and prices: "prices_ok cfg"
    and ok: "vote cfg og r h b s = Ok t"
  shows "covered cfg (unpaid cfg \<lparr>qf_origin = og, qf_the_call = VoteCall r h b\<rparr> s) s t"
  using inv prices ok
proof (cases rule: voteE_numbers)
  case (1 who cost amount fee votes added p poj rnd)
  note price = vote_price [OF prices 1(18,19)]
  let ?acc = "qf_account_id cfg" and ?x = "\<lparr>qf_origin = og, qf_the_call = VoteCall r h b\<rparr>"
  have r: "r \<in> dom (Rounds s)" using 1(27) by (simp add: contains_dom)
  have fin: "finite (dom (Rounds s))" "finite (dom (projects_in s r))"
    using inv finite_projects_in by (auto simp: qf_inv_def key_inv_def)
  have bal: "unat (balance cfg (bank s) ?acc) + unat amount \<le> unat (balance cfg (bank t) ?acc) + unpaid cfg ?x s"
    using pay_arrives [OF cur, of s amount who] by (simp add: unpaid_def 1(17,18,20,22))
  have af: "unat (amount - fee) + unat fee = unat amount"
    using price(1) by (simp add: unat_sub_le word_le_nat_alt)
  have grant: "unat (grants poj) \<le> unat (grants p) + unat (amount - fee)"
    by (subst 1(11), subst price(2) [symmetric]) (simp add: unat_word_ariths)
  have gs: "grants_sum t r \<le> grants_sum s r + unat (amount - fee)"
    and same: "j \<noteq> r \<Longrightarrow> grants_sum t j = grants_sum s j" for j
    using register_total_insert [OF fin(2), of "\<lambda>p. unat (grants p)" h poj] grant 1(1)
    by (simp_all add: grants_sum_def projects_in_insert [OF 1(4)]) (simp add: projects_in_def)
  have "total_owed t + owed s r = total_owed s + owed t r"
    using same by (intro total_owed_change [OF fin(1) _ r])
      (auto simp: 1(3) dom_overwrite 1(27) intro: owed_other_round [OF 1(3)])
  moreover have "unat (total_tax rnd) = unat (total_tax (rounds s r)) + unat fee"
    using 1(14) price(3) by simp
  then have "owed t r \<le> owed s r + unat amount"
    using 1(15,21,26) gs af by (simp add: owed_def rounds_insert [OF 1(3)])
  ultimately show ?thesis using bal by (simp add: covered_def)
qed

end
