(* ===== verification/QF_Payout.thy ===== *)
theory QF_Payout
  imports QF_Solvency
begin

text \<open>
  The distribution of a round's pool by \<open>end_round\<close>: what the loop pays, that it never pays out
  more than the pool, that it never panics in a solvent state, and that the account stays solvent.
\<close>

section \<open>The share of a project\<close>

text \<open>The final grants over naturals (a division by the area zero gives zero).\<close>

definition payout :: "u128 \<Rightarrow> u128 \<Rightarrow> 'acc Project \<Rightarrow> nat" where
  "payout area pool p = unat (grants p) + unat (support_area p) * (unat pool div unat area)"

lemma final_grants_value:
  "final_grants area pool p = Some g \<Longrightarrow> unat g = payout area pool p"
  by (auto simp: final_grants_def payout_def bind_eq_Some_conv rust_arith word_gt_0 split: if_splits)

lemma final_grants_fits:
  assumes "payout area pool p < 2 ^ 128"
  shows "\<exists>g. final_grants area pool p = Some g"
proof (cases "area = 0")
  case False
  let ?u = "pool div area"
  have "unat (support_area p) * unat ?u < 2 ^ 128"
    using assms by (simp add: payout_def unat_div)
  then have m: "checked_mul (support_area p) ?u = Some (support_area p * ?u)"
    and "unat (support_area p * ?u) = unat (support_area p) * unat ?u"
    by (auto simp: checked_mul_def unat_mult_fits)
  then have "checked_add (grants p) (support_area p * ?u) = Some (grants p + support_area p * ?u)"
    using assms by (simp add: checked_add_def payout_def unat_div)
  with m False show ?thesis by (simp add: final_grants_def checked_div_def word_gt_0)
qed (simp add: final_grants_def)

section \<open>The loop\<close>

definition payouts :: "u128 \<Rightarrow> u128 \<Rightarrow> ('h \<times> 'acc Project) list \<Rightarrow> nat" where
  "payouts area pool items = sum_list (map (\<lambda>(h, p). payout area pool p) items)"

text \<open>What an account that is not the pallet's receives: the shares of the projects it owns.\<close>

definition payouts_to :: "'acc \<Rightarrow> u128 \<Rightarrow> u128 \<Rightarrow> ('h \<times> 'acc Project) list \<Rightarrow> nat" where
  "payouts_to a area pool items =
     payouts area pool (filter (\<lambda>(h, p). owner p = a) items)"

lemma payouts_Cons [simp]:
  "payouts area pool ((h, p) # items) = payout area pool p + payouts area pool items"
  by (simp add: payouts_def)

lemma payouts_to_Cons [simp]:
  "payouts_to a area pool ((h, p) # items) =
     (if owner p = a then payout area pool p else 0) + payouts_to a area pool items"
  by (simp add: payouts_to_def)

lemma payouts_Nil [simp]: "payouts area pool [] = 0" "payouts_to a area pool [] = 0"
  by (simp_all add: payouts_def payouts_to_def)

lemma pay_keep_alive_from:
  assumes "lawful_currency (currency cfg)"
  shows "unat (balance cfg l src) \<le> unat (balance cfg (pay cfg l src dst amt KeepAlive) src) + unat amt"
  using assms
  by (cases rule: pay_cases [of cfg l src dst amt KeepAlive])
    (auto dest!: transfer_moved [OF assms] simp: transfer_effect_def)

lemma pay_projects_from:
  assumes cur: "lawful_currency (currency cfg)" and "pay_projects cfg area pool items s = Ok t"
  shows "unat (balance cfg (bank s) (qf_account_id cfg))
    \<le> unat (balance cfg (bank t) (qf_account_id cfg)) + payouts area pool items"
  using assms(2)
proof (induction items arbitrary: s)
  case Nil
  then show ?case by simp
next
  case (Cons item rest)
  obtain h p where item: "item = (h, p)" by force
  from Cons.prems obtain g where g: "final_grants area pool p = Some g"
    and rest: "pay_projects cfg area pool rest (qf_send cfg (qf_account_id cfg) (owner p) g s) = Ok t"
    by (auto simp: item outcome_simps)
  show ?case
    using Cons.IH [OF rest] pay_keep_alive_from [OF cur, of "bank s" "qf_account_id cfg" "owner p" g]
    by (simp add: item final_grants_value [OF g])
qed

lemma pay_projects_to:
  assumes cur: "lawful_currency (currency cfg)" and a: "a \<noteq> qf_account_id cfg"
    and "pay_projects cfg area pool items s = Ok t"
  shows "unat (balance cfg (bank s) a) \<le> unat (balance cfg (bank t) a) \<and>
    unat (balance cfg (bank t) a) \<le> unat (balance cfg (bank s) a) + payouts_to a area pool items"
  using assms(3)
proof (induction items arbitrary: s)
  case Nil
  then show ?case by simp
next
  case (Cons item rest)
  obtain h p where item: "item = (h, p)" by force
  from Cons.prems obtain g where g: "final_grants area pool p = Some g"
    and rest: "pay_projects cfg area pool rest (qf_send cfg (qf_account_id cfg) (owner p) g s) = Ok t"
    by (auto simp: item outcome_simps)
  show ?case
  proof (cases "owner p = a")
    case True
    with Cons.IH [OF rest] pay_to_ge [OF cur a, of "bank s" "owner p" g KeepAlive]
      pay_to_le [OF cur, of "bank s" "qf_account_id cfg" a g KeepAlive] show ?thesis
      by (simp add: item final_grants_value [OF g])
  next
    case False
    with Cons.IH [OF rest] pay_other [OF cur a, of "owner p" "bank s" g KeepAlive] show ?thesis
      by (auto simp: item)
  qed
qed

text \<open>
  When the account can pay all of it and every owner has an account, the loop pays exactly the
  shares.
\<close>

lemma pay_projects_exact:
  assumes cur: "lawful_currency (currency cfg)" "pays_out (currency cfg) (qf_account_id cfg)"
    and "pay_projects cfg area pool items s = Ok t"
    and "unat (minimum_balance (currency cfg)) + payouts area pool items \<le> unat (balance cfg (bank s) (qf_account_id cfg))"
    and "\<And>h p. (h, p) \<in> set items \<Longrightarrow> owner p \<noteq> qf_account_id cfg \<and>
      minimum_balance (currency cfg) \<le> balance cfg (bank s) (owner p) \<and>
      unat (balance cfg (bank s) (owner p)) + payouts area pool items < 2 ^ 128"
  shows "unat (balance cfg (bank t) a) + (if a = qf_account_id cfg then payouts area pool items else 0) =
    unat (balance cfg (bank s) a) + (if a = qf_account_id cfg then 0 else payouts_to a area pool items)"
  using assms(3-5)
proof (induction items arbitrary: s)
  case Nil
  then show ?case by simp
next
  case (Cons item rest)
  let ?bank = "qf_account_id cfg"
  obtain h p where item: "item = (h, p)" by force
  from Cons.prems(1) obtain g where g: "final_grants area pool p = Some g"
    and rest: "pay_projects cfg area pool rest (qf_send cfg ?bank (owner p) g s) = Ok t"
    by (auto simp: item outcome_simps)
  let ?s = "qf_send cfg ?bank (owner p) g s"
  note val = final_grants_value [OF g]
  have own: "owner p \<noteq> ?bank" using Cons.prems(3) [of h p] by (simp add: item)
  have one: "unat (balance cfg (bank ?s) b) + (if b = ?bank then unat g else 0) =
      unat (balance cfg (bank s) b) + (if b = owner p then unat g else 0)" for b
    using pay_exact [OF cur own [symmetric], of g "bank s" b] Cons.prems(2) Cons.prems(3) [of h p]
    by (simp add: item val)
  have "unat (balance cfg (bank t) a) + (if a = ?bank then payouts area pool rest else 0) =
    unat (balance cfg (bank ?s) a) + (if a = ?bank then 0 else payouts_to a area pool rest)"
  proof (rule Cons.IH [OF rest])
    show "unat (minimum_balance (currency cfg)) + payouts area pool rest \<le> unat (balance cfg (bank ?s) ?bank)"
      using Cons.prems(2) one [of ?bank] own by (simp add: item val)
    fix h' q assume "(h', q) \<in> set rest"
    then have q: "owner q \<noteq> ?bank" "minimum_balance (currency cfg) \<le> balance cfg (bank s) (owner q)"
      "unat (balance cfg (bank s) (owner q)) + payouts area pool (item # rest) < 2 ^ 128"
      using Cons.prems(3) [of h' q] by auto
    then show "owner q \<noteq> ?bank \<and> minimum_balance (currency cfg) \<le> balance cfg (bank ?s) (owner q) \<and>
      unat (balance cfg (bank ?s) (owner q)) + payouts area pool rest < 2 ^ 128"
      using one [of "owner q"] by (auto simp: item val word_le_nat_alt split: if_splits)
  qed
  with one [of a] own show ?case by (auto simp: item val split: if_splits)
qed

lemma pay_projects_Ok:
  assumes "\<And>h p. (h, p) \<in> set items \<Longrightarrow> payout area pool p < 2 ^ 128"
  shows "\<exists>t. pay_projects cfg area pool items s = Ok t"
  using assms
proof (induction items arbitrary: s)
  case (Cons item rest)
  obtain h p where item: "item = (h, p)" by force
  obtain g where g: "final_grants area pool p = Some g"
    using final_grants_fits [of area pool p] Cons.prems [of h p] item by (simp only: list.set_intros) blast
  show ?case
    using Cons.IH [of "qf_send cfg (qf_account_id cfg) (owner p) g s"] Cons.prems
    by (auto simp: item g)
qed simp

section \<open>The sum over a round\<close>

lemma iter_prefix_total:
  assumes "lawful_iteration cfg" and "finite (dom (Projects s))"
  shows "sum_list (map (\<lambda>(h, p). f p) (iter_prefix cfg s r)) = register_total f (projects_in s r)"
proof -
  let ?ks = "prefix_keys cfg (Projects s) r"
  have ks: "distinct ?ks" "set ?ks = dom (projects_in s r)"
    using assms by (auto simp: lawful_iteration_def projects_in_def)
  have "sum_list (map (\<lambda>(h, p). f p) (iter_prefix cfg s r)) = (\<Sum>h\<in>set ?ks. f (projects cfg s r h))"
    by (simp add: iter_prefix_def comp_def sum_list_distinct_conv_sum_set [OF ks(1)])
  also have "\<dots> = register_total f (projects_in s r)"
    unfolding register_total_def ks(2)
    by (rule sum.cong) (auto simp: projects_in_def projects_def map_get_def)
  finally show ?thesis .
qed

lemma iter_prefix_mem:
  assumes "lawful_iteration cfg" and "finite (dom (Projects s))"
  shows "(h, p) \<in> set (iter_prefix cfg s r) \<longleftrightarrow> projects_in s r h = Some p"
  using assms
  by (auto simp: lawful_iteration_def iter_prefix_def projects_in_def projects_def map_get_def
      image_iff domIff split: option.splits)

lemma payouts_to_if:
  "payouts_to a area pool items =
     sum_list (map (\<lambda>(h, p). if owner p = a then payout area pool p else 0) items)"
  by (induction items) auto

lemma payouts_to_sum:
  assumes "lawful_iteration cfg" and "finite (dom (Projects s))"
  shows "payouts_to a area pool (iter_prefix cfg s r) =
    (\<Sum>h\<in>{h. \<exists>p. Projects s (r, h) = Some p \<and> owner p = a}. payout area pool (the (Projects s (r, h))))"
proof -
  have "payouts_to a area pool (iter_prefix cfg s r) =
      register_total (\<lambda>p. if owner p = a then payout area pool p else 0) (projects_in s r)"
    using iter_prefix_total [OF assms, of "\<lambda>p. if owner p = a then payout area pool p else 0" r]
    by (simp add: payouts_to_if)
  also have "\<dots> = (\<Sum>h\<in>dom (projects_in s r). if owner (the (Projects s (r, h))) = a
      then payout area pool (the (Projects s (r, h))) else 0)"
    by (simp add: register_total_def projects_in_def)
  also have "\<dots> = (\<Sum>h\<in>{h. \<exists>p. Projects s (r, h) = Some p \<and> owner p = a}. payout area pool (the (Projects s (r, h))))"
  proof (rule sum.mono_neutral_cong_right)
    have "dom (projects_in s r) \<subseteq> snd ` dom (Projects s)" by (force simp: projects_in_def dom_def)
    then show "finite (dom (projects_in s r))" using assms(2) by (rule finite_subset [OF _ finite_imageI])
  qed (auto simp: projects_in_def dom_def)
  finally show ?thesis .
qed

lemma register_payout:
  "register_total (payout area pool) (projects_in s r)
     = grants_sum s r + area_sum s r * (unat pool div unat area)"
  unfolding register_total_def payout_def grants_sum_def area_sum_def
  by (simp add: sum.distrib sum_distrib_right)

text \<open>
  The payouts of a round add up to the grants and the part of the pool that the area divides;
  the remainder of the division stays in the account.
\<close>

lemma payouts_round:
  assumes "lawful_iteration cfg" and inv: "qf_inv cfg s"
  shows "payouts (total_support_area (rounds s r)) (support_pool (rounds s r)) (iter_prefix cfg s r)
    = grants_sum s r + unat (total_support_area (rounds s r))
        * (unat (support_pool (rounds s r)) div unat (total_support_area (rounds s r)))"
  using assms iter_prefix_total [OF assms(1), of s "payout (total_support_area (rounds s r)) (support_pool (rounds s r))" r]
  by (simp add: payouts_def register_payout qf_inv_def key_inv_def round_inv_def)

lemma payouts_le:
  assumes "lawful_iteration cfg" and "qf_inv cfg s"
  shows "payouts (total_support_area (rounds s r)) (support_pool (rounds s r)) (iter_prefix cfg s r)
    \<le> grants_sum s r + unat (support_pool (rounds s r))"
  unfolding payouts_round [OF assms] by simp

lemma end_round_covered:
  assumes cur: "lawful_currency (currency cfg)" and iter: "lawful_iteration cfg"
    and inv: "qf_inv cfg s" and ok: "end_round cfg og r s = Ok t"
  shows "covered cfg n s t"
  using ok
proof (cases rule: end_roundE)
  case (1 s1)
  have r: "r \<in> dom (Rounds s)" using 1(2) by (simp add: contains_dom)
  have "total_owed t + owed s r = total_owed s + owed t r"
    using inv r by (intro total_owed_change)
      (auto simp: 1(5) dom_overwrite 1(2) qf_inv_def key_inv_def
        intro: owed_other_round [OF 1(5) grants_sum_same [OF 1(6)]])
  moreover have "owed s r = owed t r + (unat (support_pool (rounds s r)) + grants_sum s r)"
    using 1(3) by (simp add: owed_def rounds_insert [OF 1(5)])
  moreover have "unat (balance cfg (bank s) (qf_account_id cfg))
      \<le> unat (balance cfg (bank t) (qf_account_id cfg)) + (grants_sum s r + unat (support_pool (rounds s r)))"
    using pay_projects_from [OF cur 1(4)] payouts_le [OF iter inv, of r] unfolding 1(8) by linarith
  ultimately show ?thesis by (simp add: covered_def)
qed

lemma qf_dispatch_covered:
  assumes "lawful_currency (currency cfg)" and "lawful_iteration cfg" and "qf_inv cfg s" and "prices_ok cfg"
    and "qf_dispatch cfg x s = Ok t"
  shows "covered cfg (unpaid cfg x s) s t"
proof -
  obtain og c where x: "x = \<lparr>qf_origin = og, qf_the_call = c\<rparr>" by (cases x) auto
  show ?thesis
    using assms unfolding x
    by (cases c) (auto simp: qf_dispatch_def intro: donate_covered start_round_covered end_round_covered
        register_project_covered vote_covered)
qed

lemma qf_dispatch_solvent:
  assumes "lawful_currency (currency cfg)" and "lawful_iteration cfg" and "qf_inv cfg s" and "prices_ok cfg"
    and "funded cfg x s" and "solvent cfg s" and "qf_dispatch cfg x s = Ok t"
  shows "solvent cfg t"
  using covered_solvent qf_dispatch_covered [OF assms(1-4,7)] assms(6) by (simp add: funded_unpaid [OF assms(5)])

text \<open>Runs of funded calls, on a lawful runtime, keep the pallet solvent.\<close>

definition qf_sound :: "('acc, 'h, 'l) qf_config \<Rightarrow> ('acc, 'h, 'l) qf \<Rightarrow> bool" where
  "qf_sound cfg s \<longleftrightarrow> lawful_currency (currency cfg) \<and> lawful_iteration cfg \<and> qf_good cfg s \<and> solvent cfg s"

interpretation qf_paid: pallet "qf_dispatch cfg" "\<lambda>x s. no_collision cfg x s \<and> funded cfg x s"
    "qf_sound cfg" for cfg
  by unfold_locales (auto simp: qf_sound_def qf_good_def intro: qf_dispatch_inv qf_dispatch_solvent
      dest: qf_dispatch_err)

lemma qf_init_solvent: "solvent cfg (qf_init l)"
  by (simp add: solvent_def total_owed_def qf_init_def)

end
