(* ===== verification/QF_Phase.thy ===== *)
theory QF_Phase
  imports QF_Payout
begin

text \<open>
  The life cycle of a round as a state machine: an abstract transition relation on the stored
  round, the simulation of it by the dispatchables, and the phases it goes through, which are
  linearly ordered and never go back.
\<close>

section \<open>Phases\<close>

datatype round_phase = Unused | Ongoing | Ended

fun phase_rank :: "round_phase \<Rightarrow> nat" where
  "phase_rank Unused = 0"
| "phase_rank Ongoing = 1"
| "phase_rank Ended = 2"

lemma phase_rank_inj: "phase_rank a = phase_rank b \<longleftrightarrow> a = b"
  by (cases a; cases b) auto

instantiation round_phase :: linorder
begin

definition less_eq_round_phase :: "round_phase \<Rightarrow> round_phase \<Rightarrow> bool" where
  "a \<le> b \<longleftrightarrow> phase_rank a \<le> phase_rank b"

definition less_round_phase :: "round_phase \<Rightarrow> round_phase \<Rightarrow> bool" where
  "a < b \<longleftrightarrow> phase_rank a < phase_rank b"

instance
  by standard (auto simp: less_eq_round_phase_def less_round_phase_def phase_rank_inj [symmetric])

end

definition phase_of :: "Round option \<Rightarrow> round_phase" where
  "phase_of rnd = (case rnd of None \<Rightarrow> Unused | Some x \<Rightarrow> if ongoing x then Ongoing else Ended)"

section \<open>Transitions of a round\<close>

text \<open>
  A round is opened empty, is credited while it is going on (no amount of it ever decreases),
  and is closed with its amounts as they are.
\<close>

inductive round_trans :: "Round option \<Rightarrow> Round option \<Rightarrow> bool" where
  open_round: "round_trans None (Some new_round)"
| credit_round: "ongoing a \<Longrightarrow> ongoing b \<Longrightarrow> support_pool a \<le> support_pool b \<Longrightarrow>
    pre_tax_support_pool a \<le> pre_tax_support_pool b \<Longrightarrow>
    total_support_area a \<le> total_support_area b \<Longrightarrow> total_tax a \<le> total_tax b \<Longrightarrow>
    round_trans (Some a) (Some b)"
| close_round: "ongoing a \<Longrightarrow> round_trans (Some a) (Some (a\<lparr>ongoing := False\<rparr>))"

inductive_cases round_trans_someE: "round_trans (Some a) x"
inductive_simps round_trans_none: "round_trans None x"

lemma round_trans_phase: "round_trans a b \<Longrightarrow> phase_of a \<le> phase_of b"
  by (induction rule: round_trans.induct)
    (auto simp: phase_of_def less_eq_round_phase_def new_round_def)

lemma round_trans_not_ended: "round_trans a b \<Longrightarrow> phase_of a \<noteq> Ended"
  by (induction rule: round_trans.induct) (auto simp: phase_of_def)

lemma round_transs_phase: "round_trans\<^sup>*\<^sup>* a b \<Longrightarrow> phase_of a \<le> phase_of b"
  by (induction rule: rtranclp_induct) (auto dest: round_trans_phase order_trans)

lemma round_transs_ended: "round_trans\<^sup>*\<^sup>* a b \<Longrightarrow> phase_of a = Ended \<Longrightarrow> b = a"
  by (induction rule: converse_rtranclp_induct) (auto dest: round_trans_not_ended)

section \<open>The dispatchables simulate it\<close>

lemma credit_donation_trans:
  "credit_donation c a f rnd = Some rnd' \<Longrightarrow> ongoing rnd \<Longrightarrow> round_trans (Some rnd) (Some rnd')"
  by (rule credit_round) (auto simp: credit_donation_def bind_eq_Some_conv rust_arith word_le_nat_alt)

lemma credit_area_trans:
  "credit_area d f rnd = Some rnd' \<Longrightarrow> ongoing rnd \<Longrightarrow> round_trans (Some rnd) (Some rnd')"
  by (rule credit_round) (auto simp: credit_area_def bind_eq_Some_conv rust_arith word_le_nat_alt)

lemma rounds_stored: "contains_key (Rounds s) r \<Longrightarrow> Rounds s r = Some (rounds s r)"
  by (auto simp: rounds_def storage_defs)

lemma dispatch_round_trans:
  assumes "qf_dispatch cfg x s = Ok t"
  shows "Rounds t r = Rounds s r \<or> round_trans (Rounds s r) (Rounds t r)"
proof (cases "qf_the_call x")
  case (DonateCall j amount)
  with assms show ?thesis
    by (auto simp: qf_dispatch_def map_insert_def rounds_stored elim!: donateE dest!: credit_donation_trans)
next
  case (StartRoundCall j)
  with assms show ?thesis
    by (auto simp: qf_dispatch_def map_insert_def contains_key_def open_round elim!: start_roundE)
next
  case (EndRoundCall j)
  with assms show ?thesis
    by (auto simp: qf_dispatch_def map_insert_def rounds_stored close_round elim!: end_roundE)
next
  case (RegisterProjectCall j h title)
  with assms show ?thesis by (auto simp: qf_dispatch_def elim!: register_projectE)
next
  case (VoteCall j h b)
  with assms show ?thesis
    by (auto simp: qf_dispatch_def map_insert_def rounds_stored elim!: voteE dest!: credit_area_trans)
qed

text \<open>What happens to a registered project: votes change its numbers, and only in a round going on.\<close>

definition project_kept :: "('acc, 'h, 'l) qf \<Rightarrow> ('acc, 'h, 'l) qf \<Rightarrow> bool" where
  "project_kept s t \<longleftrightarrow>
     (\<forall>r h p. Projects s (r, h) = Some p \<longrightarrow>
        (\<exists>q. Projects t (r, h) = Some q \<and> owner q = owner p \<and> name q = name p \<and>
          (phase_of (Rounds s r) = Ended \<longrightarrow> q = p)))"

lemma credit_vote_names:
  "credit_vote c v b a f p = Some (d, p') \<Longrightarrow> owner p' = owner p \<and> name p' = name p"
  by (auto simp: credit_vote_def bind_eq_Some_conv)

lemma dispatch_project_kept:
  assumes "qf_dispatch cfg x s = Ok t"
  shows "project_kept s t"
proof (cases "qf_the_call x")
  case (VoteCall j h b)
  with assms have "vote cfg (qf_origin x) j h b s = Ok t" by (simp add: qf_dispatch_def)
  then show ?thesis
    by (cases rule: voteE)
      (auto simp: project_kept_def map_insert_def phase_of_def rounds_stored projects_registered
        dest!: credit_vote_names)
next
  case (RegisterProjectCall j h title)
  with assms show ?thesis
    by (auto simp: qf_dispatch_def project_kept_def map_insert_def contains_key_def elim!: register_projectE)
qed (use assms in \<open>auto simp: qf_dispatch_def project_kept_def elim!: donateE start_roundE end_roundE\<close>)

definition round_history :: "('acc, 'h, 'l) qf \<Rightarrow> ('acc, 'h, 'l) qf \<Rightarrow> bool" where
  "round_history s t \<longleftrightarrow> (\<forall>r. round_trans\<^sup>*\<^sup>* (Rounds s r) (Rounds t r)) \<and> project_kept s t"

lemma round_history_refl: "round_history s s"
  by (auto simp: round_history_def project_kept_def)

lemma round_history_trans: "round_history a b \<Longrightarrow> round_history b c \<Longrightarrow> round_history a c"
proof -
  assume ab: "round_history a b" and bc: "round_history b c"
  have "phase_of (Rounds b r) = Ended" if "phase_of (Rounds a r) = Ended" for r
    using ab that round_transs_ended [of "Rounds a r" "Rounds b r"] by (simp add: round_history_def)
  then have "project_kept a c"
    using ab bc unfolding round_history_def project_kept_def by metis
  with ab bc show ?thesis by (auto simp: round_history_def intro: rtranclp_trans)
qed

interpretation qf_any: pallet "qf_dispatch cfg" "\<lambda>_ _. True" "\<lambda>_. True" for cfg
  by unfold_locales (auto dest: qf_dispatch_err)

lemma run_round_history: "round_history s (apply_extrinsics (qf_dispatch cfg) cs s)"
proof (rule qf_any.run_relates [of round_history, OF round_history_refl round_history_trans])
  show "round_history s t" if "qf_dispatch cfg c s = Ok t" for s c t
    using dispatch_round_trans [OF that] dispatch_project_kept [OF that]
    by (auto simp: round_history_def intro: r_into_rtranclp) (metis r_into_rtranclp rtranclp.rtrancl_refl)
qed simp_all

end
