(* ===== verification/QF_Test.thy ===== *)
theory QF_Test
  imports QF_Phase Test_Env
begin

text \<open>
  A concrete runtime for the witnesses of the quadratic-funding pallet, with the constants of
  the pallet's mock runtime. Hashes are naturals.
\<close>

definition test_keys :: "(u32 \<times> nat \<rightharpoonup> nat Project) \<Rightarrow> u32 \<Rightarrow> nat list" where
  "test_keys m r = sorted_list_of_set (snd ` {k \<in> dom m. fst k = r})"

definition test_qf :: "bool \<Rightarrow> (nat, nat, test_ledger) qf_config" where
  "test_qf checks =
     \<lparr>currency = test_currency, ModuleId = ''py/quafd'', into_account = (\<lambda>_. 200),
      into_sub_account = (\<lambda>_ _. 201), default_account = 0, overflow_checks = checks,
      AdminOrigin = (\<lambda>og. og = Root), UnitOfVote = 1, NumberOfUnitPerVote = 100,
      FeeRatioPerVote = 5, NameMinLength = 3, NameMaxLength = 32,
      hash_of = (\<lambda>(h, r). h * 2 ^ 32 + unat r), prefix_keys = test_keys\<rparr>"

lemma test_qf_lawful: "lawful_currency (currency (test_qf c))" "lawful_iteration (test_qf c)"
proof -
  show "lawful_currency (currency (test_qf c))" by (simp add: test_qf_def test_currency_lawful)
  have "finite (snd ` {k \<in> dom m. fst k = r})" if "finite (dom m)"
    for m :: "u32 \<times> nat \<rightharpoonup> nat Project" and r
    using that by simp
  then show "lawful_iteration (test_qf c)"
    by (force simp: lawful_iteration_def test_qf_def test_keys_def)
qed

lemma test_prices_ok: "prices_ok (test_qf c)"
  by (simp add: prices_ok_def test_qf_def)

lemmas qf_eval =
  test_qf_def test_env_defs qf_init_def qf_account_id_def storage_defs qf_send_def pay_def
  qf_deposit_event_def donate_def donation_fee_def credit_donation_def start_round_def new_round_def
  default_round_def rounds_def projects_def default_project_def project_votes_def end_round_def
  final_grants_def iter_prefix_def test_keys_def register_project_def vote_def credit_vote_def
  credit_area_def cal_cost_def cal_amount_def qf_ensure_admin_def ensure_def and_then_def

text \<open>
  A round with a donation of 500 and a project (hash 1, owner 1), before and after account 2 and
  account 3 vote one ballot each.
\<close>

definition test_title :: "u8 list" where
  "test_title = [110, 97, 109, 101]"

definition test_qf_calls :: "(nat, nat) qf_extrinsic list" where
  "test_qf_calls =
     [\<lparr>qf_origin = Root, qf_the_call = StartRoundCall 1\<rparr>,
      \<lparr>qf_origin = Signed 0, qf_the_call = DonateCall 1 500\<rparr>,
      \<lparr>qf_origin = Signed 1, qf_the_call = RegisterProjectCall 1 1 test_title\<rparr>]"

definition test_vote_calls :: "(nat, nat) qf_extrinsic list" where
  "test_vote_calls =
     [\<lparr>qf_origin = Signed 2, qf_the_call = VoteCall 1 1 1\<rparr>,
      \<lparr>qf_origin = Signed 3, qf_the_call = VoteCall 1 1 1\<rparr>]"

definition test_project :: "nat Project" where
  "test_project = \<lparr>total_votes = 0, grants = 0, support_area = 0, withdrew = 0,
     name = test_title, owner = 1\<rparr>"

definition test_opened :: "(nat, nat, test_ledger) qf" where
  "test_opened =
     \<lparr>Rounds = [1 \<mapsto> \<lparr>ongoing = True, support_pool = 475, pre_tax_support_pool = 500,
                     total_support_area = 0, total_tax = 25\<rparr>],
      Projects = [(1, 1) \<mapsto> test_project], ProjectVotes = Map.empty,
      bank = (\<lambda>_. 0)(1 := 2000, 2 := 3000, 3 := 4000, 0 := 500, 200 := 500),
      qf_events = [RoundStarted 1, DonateSucceed 1 0 500, ProjectRegistered 1 1]\<rparr>"

definition test_closed :: "(nat, nat, test_ledger) qf" where
  "test_closed =
     \<lparr>Rounds = [1 \<mapsto> \<lparr>ongoing = True, support_pool = 475, pre_tax_support_pool = 500,
                     total_support_area = 1, total_tax = 35\<rparr>],
      Projects = [(1, 1) \<mapsto> test_project\<lparr>total_votes := 2, grants := 190, support_area := 1\<rparr>],
      ProjectVotes = [(2 ^ 32 + 1, 2) \<mapsto> 1, (2 ^ 32 + 1, 3) \<mapsto> 1],
      bank = (\<lambda>_. 0)(1 := 2000, 0 := 500, 2 := 2900, 3 := 3900, 200 := 700),
      qf_events = [RoundStarted 1, DonateSucceed 1 0 500, ProjectRegistered 1 1,
        VoteSucceed 1 2 1, VoteSucceed 1 3 1]\<rparr>"

lemmas qf_states = test_opened_def test_closed_def test_project_def test_title_def

lemma test_run_opened:
  "apply_extrinsics (qf_dispatch (test_qf c)) test_qf_calls (qf_init test_balances) = test_opened"
  by (cases c) (simp_all add: test_qf_calls_def apply_extrinsic_def qf_dispatch_def qf_eval rust_eval
      qf_states fun_upd_twist)

lemma test_run_closed:
  "apply_extrinsics (qf_dispatch (test_qf c)) test_vote_calls test_opened = test_closed"
  by (cases c) (simp_all add: test_vote_calls_def apply_extrinsic_def qf_dispatch_def qf_eval rust_eval
      qf_states fun_upd_twist)

lemma test_admissible_opened:
  "admissible_run (qf_dispatch (test_qf c)) (\<lambda>x s. no_collision (test_qf c) x s \<and> funded (test_qf c) x s)
     test_qf_calls (qf_init test_balances)"
  by (cases c) (simp_all add: test_qf_calls_def apply_extrinsic_def qf_dispatch_def qf_eval rust_eval
      no_collision_def funded_def vote_key_def)

lemma test_admissible_closed:
  "admissible_run (qf_dispatch (test_qf c)) (\<lambda>x s. no_collision (test_qf c) x s \<and> funded (test_qf c) x s)
     test_vote_calls test_opened"
  by (cases c) (simp_all add: test_vote_calls_def apply_extrinsic_def qf_dispatch_def qf_eval rust_eval
      no_collision_def funded_def vote_key_def qf_states)

lemma test_qf_sound: "qf_sound (test_qf c) test_opened" "qf_sound (test_qf c) test_closed"
proof -
  have "qf_sound (test_qf c) (qf_init test_balances)"
    using test_qf_lawful test_prices_ok
    by (simp add: qf_sound_def qf_good_def qf_init_inv qf_init_solvent)
  from qf_paid.run_inv [OF this test_admissible_opened] show o: "qf_sound (test_qf c) test_opened"
    by (simp add: test_run_opened)
  from qf_paid.run_inv [OF o test_admissible_closed] show "qf_sound (test_qf c) test_closed"
    by (simp add: test_run_closed)
qed

end
