(* ===== verification/QF_Props.thy ===== *)
theory QF_Props
  imports QF_Test
begin

text \<open>
  The properties of the quadratic-funding pallet about votes: the invariant over runs, the tallies
  and their recount, the effect of a vote, and the price of votes.
\<close>

section \<open>Tallies\<close>

text \<open>C2: after any sequence of extrinsics, on a runtime with sane prices and without hash
  collisions, the invariant of the pallet holds: every project stores the number of votes, the
  support area and the grants that its ballots determine, every round stores the sum of the areas
  of its projects, and the pool of a round plus its taxes is the donations plus the fees of votes.\<close>

theorem qf_run_invariant:
  assumes "prices_ok cfg" and "admissible_run (qf_dispatch cfg) (no_collision cfg) cs (qf_init l)"
  shows "qf_inv cfg (apply_extrinsics (qf_dispatch cfg) cs (qf_init l))"
  using qf.run_inv [of cfg "qf_init l" cs] assms by (simp add: qf_good_def qf_init_inv)

lemma admissible_run_weaken:
  "admissible_run d adm cs s \<Longrightarrow> (\<And>c s. adm c s \<Longrightarrow> adm' c s) \<Longrightarrow> admissible_run d adm' cs s"
  by (induction cs arbitrary: s) auto

lemma test_no_collision:
  "admissible_run (qf_dispatch (test_qf c)) (no_collision (test_qf c)) test_qf_calls (qf_init test_balances)"
  by (rule admissible_run_weaken [OF test_admissible_opened]) simp

theorem qf_run_invariant_witness: "qf_inv (test_qf True) test_opened"
  using qf_run_invariant [OF test_prices_ok test_no_collision] by (simp add: test_run_opened)

lemma sum_pairs:
  fixes f :: "'k \<Rightarrow> nat"
  assumes "finite K"
  shows "(\<Sum>a\<in>K. \<Sum>b\<in>K - {a}. f a * f b) + (\<Sum>a\<in>K. f a * f a) = sum f K * sum f K"
proof -
  have "(\<Sum>b\<in>K - {a}. f a * f b) + f a * f a = f a * sum f K" if "a \<in> K" for a
    using assms that by (simp add: sum.remove [of K a f] sum_distrib_left algebra_simps)
  then have "(\<Sum>a\<in>K. (\<Sum>b\<in>K - {a}. f a * f b) + f a * f a) = (\<Sum>a\<in>K. f a * sum f K)"
    by (rule sum.cong [OF refl])
  then show ?thesis by (simp add: sum.distrib sum_distrib_right)
qed

text \<open>What the invariant says of one project, as a recount of its ballots.\<close>

lemma project_recount:
  assumes "qf_inv cfg s" and "Projects s (r, h) = Some p"
  defines "m \<equiv> ballots s (vote_key cfg (r, h))"
  shows "unat (total_votes p) = (\<Sum>a\<in>dom m. unat (the (m a)))"
    and "2 * unat (support_area p) =
      (\<Sum>a\<in>dom m. \<Sum>b\<in>dom m - {a}. unat (the (m a)) * unat (the (m b)))"
proof -
  let ?v = "\<lambda>a. unat (the (m a))"
  have ok: "tally_ok (total_votes p) (support_area p) m"
    using assms by (auto simp: qf_inv_def project_inv_def)
  then show t: "unat (total_votes p) = sum ?v (dom m)"
    by (simp add: tally_ok_def votes_of_def register_total_def)
  have "finite (dom m)" using assms by (auto intro!: finite_ballots simp: qf_inv_def key_inv_def)
  note pairs = sum_pairs [OF this, of ?v]
  have "2 * unat (support_area p) + (\<Sum>a\<in>dom m. ?v a * ?v a) = sum ?v (dom m) * sum ?v (dom m)"
    using ok unfolding tally_ok_def t [symmetric] by (simp add: squares_of_def register_total_def)
  with pairs show "2 * unat (support_area p) = (\<Sum>a\<in>dom m. \<Sum>b\<in>dom m - {a}. ?v a * ?v b)"
    by linarith
qed

text \<open>C5: the numbers that \<open>vote\<close> keeps up to date vote by vote are, after any sequence of
  extrinsics, what a recount of the ballots gives: the total is the sum of the ballots, and the
  support area, doubled, is the sum of the products of the ballots of each two different voters.\<close>

theorem qf_support_area_recount:
  assumes "prices_ok cfg" and "admissible_run (qf_dispatch cfg) (no_collision cfg) cs (qf_init l)"
    and "t = apply_extrinsics (qf_dispatch cfg) cs (qf_init l)" and "Projects t (r, h) = Some p"
  shows "let m = ballots t (vote_key cfg (r, h)); v = (\<lambda>a. unat (the (m a))) in
    unat (total_votes p) = (\<Sum>a\<in>dom m. v a) \<and>
    2 * unat (support_area p) = (\<Sum>a\<in>dom m. \<Sum>b\<in>dom m - {a}. v a * v b)"
proof -
  have "qf_inv cfg t"
    using qf.run_inv [of cfg "qf_init l" cs] assms(1-3) by (simp add: qf_good_def qf_init_inv)
  from project_recount [OF this assms(4)] show ?thesis by (simp add: Let_def)
qed

theorem qf_support_area_recount_witness:
  "Projects test_closed (1, 1) = Some (test_project\<lparr>total_votes := 2, grants := 190, support_area := 1\<rparr>) \<and>
   unat (2 :: u128) = (\<Sum>a\<in>{2, 3}. unat (the ([2 \<mapsto> 1, 3 \<mapsto> (1 :: u128)] (a :: nat)))) \<and>
   2 * unat (1 :: u128) = (\<Sum>a\<in>{2, 3}. \<Sum>b\<in>{2, 3} - {a}.
     unat (the ([2 \<mapsto> 1, 3 \<mapsto> (1 :: u128)] (a :: nat))) * unat (the ([2 \<mapsto> 1, 3 \<mapsto> (1 :: u128)] b)))"
proof -
  let ?run = "apply_extrinsics (qf_dispatch (test_qf True)) (test_qf_calls @ test_vote_calls) (qf_init test_balances)"
  have run: "test_closed = ?run" by (simp add: test_run_opened test_run_closed)
  have adm: "admissible_run (qf_dispatch (test_qf True)) (no_collision (test_qf True))
      (test_qf_calls @ test_vote_calls) (qf_init test_balances)"
    using test_no_collision admissible_run_weaken [OF test_admissible_closed [of True]]
    by (simp add: test_run_opened)
  have p: "Projects test_closed (1, 1) = Some (test_project\<lparr>total_votes := 2, grants := 190, support_area := 1\<rparr>)"
    by (simp add: test_closed_def)
  have m: "ballots test_closed (vote_key (test_qf True) (1, 1)) = [2 \<mapsto> 1, 3 \<mapsto> 1]"
    by (auto simp: ballots_def vote_key_def test_closed_def test_qf_def)
  from qf_support_area_recount [OF test_prices_ok adm run p] p show ?thesis
    by (simp only: Let_def m) (simp add: insert_commute insert_Diff_if)
qed

text \<open>C15: a successful vote of \<open>b\<close> ballots by an account that had \<open>v\<close> adds \<open>b\<close> to its ballots and
  to the votes of the project, adds \<open>b\<close> times the votes of the others to the area of the project
  and of the round, and changes no other project.\<close>

theorem qf_vote_effect:
  assumes "qf_inv cfg s" and "prices_ok cfg" and "vote cfg (Signed who) r h b s = Ok t"
    and "v = project_votes s (vote_key cfg (r, h)) who" and "Projects s (r, h) = Some p"
  shows "\<exists>p'. Projects t = (Projects s)((r, h) \<mapsto> p') \<and> 0 < b \<and> ongoing (rounds s r) \<and>
    unat (project_votes t (vote_key cfg (r, h)) who) = unat v + unat b \<and>
    unat (total_votes p') = unat (total_votes p) + unat b \<and>
    unat (support_area p') = unat (support_area p) + unat b * (unat (total_votes p) - unat v) \<and>
    unat (total_support_area (rounds t r)) =
      unat (total_support_area (rounds s r)) + unat b * (unat (total_votes p) - unat v) \<and>
    owner p' = owner p \<and> qf_events t = qf_events s @ [VoteSucceed h who b]"
  using assms(1-3)
proof (cases rule: voteE_numbers)
  case (1 who' cost amount fee votes added q poj rnd)
  then have w: "who' = who" and q: "q = p" using assms(5) by auto
  have "project_votes t (vote_key cfg (r, h)) who = votes"
    by (simp add: project_votes_def 1(5) w storage_defs)
  moreover have "qf_events t = qf_events s @ [VoteSucceed h who b]"
    using assms(3) by (cases rule: voteE) simp
  ultimately show ?thesis
    using 1(2,6,10,13,21,23-25) unfolding w q assms(4) [symmetric]
    by (intro exI [of _ poj]) (simp add: 1(4) map_insert_def rounds_insert [OF 1(3)])
qed

lemma test_second_vote:
  "\<exists>t. vote (test_qf True) (Signed 3) 1 1 2 test_closed = Ok t"
  by (simp add: qf_eval rust_eval qf_states)

theorem qf_vote_effect_witness:
  "\<exists>t p'. vote (test_qf True) (Signed 3) 1 1 2 test_closed = Ok t \<and> Projects t (1, 1) = Some p' \<and>
     unat (support_area p') = 3"
proof -
  obtain t where t: "vote (test_qf True) (Signed 3) 1 1 2 test_closed = Ok t" using test_second_vote ..
  have "qf_inv (test_qf True) test_closed" using test_qf_sound by (simp add: qf_sound_def qf_good_def)
  moreover have "project_votes test_closed (vote_key (test_qf True) (1, 1)) 3 = 1"
    by (simp add: project_votes_def vote_key_def test_qf_def test_closed_def map_get_def)
  ultimately show ?thesis
    using qf_vote_effect [OF _ test_prices_ok t refl, of "test_project\<lparr>total_votes := 2, grants := 190, support_area := 1\<rparr>"] t
    by (auto simp: test_closed_def)
qed

section \<open>Prices\<close>

text \<open>The price of votes does not depend on how they are split over calls: \<open>a + b\<close> votes at
  once cost what \<open>a\<close> votes and then \<open>b\<close> votes cost, and when the first is priced so are the others.\<close>

lemma qf_cost_split:
  assumes "cal_cost v (a + b) = Some c" and "unat a + unat b < 2 ^ 128"
  shows "\<exists>c1 c2. cal_cost v a = Some c1 \<and> cal_cost (v + a) b = Some c2 \<and> unat c = unat c1 + unat c2"
proof -
  have ab: "unat (a + b) = unat a + unat b" using assms(2) by (subst unat_add_fits) simp_all
  have c: "unat c = (tri (unat a) + unat a * unat v) + (tri (unat b) + unat b * (unat v + unat a))"
    and sq: "(unat a + unat b) * (unat a + unat b + 1) < 2 ^ 128"
    using assms(1) by (simp_all only: cal_cost_iff ab tri_add) (simp add: algebra_simps)
  have lt: "unat c < 2 ^ 128" using unat_lt [of c] by simp
  have a: "unat a * (unat a + 1) < 2 ^ 128"
    by (rule order.strict_trans1 [OF _ sq], intro mult_le_mono) simp_all
  have b: "unat b * (unat b + 1) < 2 ^ 128"
    by (rule order.strict_trans1 [OF _ sq], intro mult_le_mono) simp_all
  have va: "unat b * unat (v + a) = unat b * (unat v + unat a)"
  proof (cases "unat b = 0")
    case False
    then have "1 * (unat v + unat a) \<le> unat b * (unat v + unat a)" by (intro mult_le_mono1) simp
    also have "\<dots> \<le> unat c" unfolding c by (rule trans_le_add2) (rule le_add2)
    finally have "unat v + unat a < 2 ^ 128" using lt by simp
    then show ?thesis by (subst unat_add_fits) simp_all
  qed simp
  have "tri (unat a) + unat a * unat v < 2 ^ LENGTH(128)" "tri (unat b) + unat b * (unat v + unat a) < 2 ^ LENGTH(128)"
    using lt unfolding c by auto
  note fits = this
  obtain c1 :: u128 where c1: "unat c1 = tri (unat a) + unat a * unat v"
    by (rule word_of_fitting [of "tri (unat a) + unat a * unat v"]) (rule fits(1))
  obtain c2 :: u128 where c2: "unat c2 = tri (unat b) + unat b * (unat v + unat a)"
    by (rule word_of_fitting [of "tri (unat b) + unat b * (unat v + unat a)"]) (rule fits(2))
  have "cal_cost v a = Some c1" "cal_cost (v + a) b = Some c2"
    using a b by (simp_all only: cal_cost_iff va c1 c2 simp_thms)
  moreover have "unat c = unat c1 + unat c2" by (simp only: c c1 c2)
  ultimately show ?thesis by blast
qed

lemma qf_cost_split_at_test:
  "\<exists>c1 c2. cal_cost 2 3 = Some c1 \<and> cal_cost 5 4 = Some c2 \<and> 42 = unat c1 + unat c2"
proof -
  have "cal_cost 2 (3 + 4) = Some 42" by (simp add: cal_cost_def rust_eval)
  from qf_cost_split [OF this] show ?thesis by simp
qed

end
