(* ===== verification/QF_Rounds.thy ===== *)
theory QF_Rounds
  imports QF_Test
begin

text \<open>
  Properties of rounds: the pool is what was donated, the account covers the debts, ending a
  round completes and never pays more than the pool, and the life cycle of a round.
\<close>

section \<open>The pool of a round\<close>

text \<open>The amounts donated to a round, read off the events.\<close>

fun donations :: "('acc, 'h) qf_event list \<Rightarrow> u32 \<Rightarrow> u128 list" where
  "donations [] r = []"
| "donations (DonateSucceed j who a # es) r = (if j = r then [a] else []) @ donations es r"
| "donations (ProjectRegistered h who # es) r = donations es r"
| "donations (VoteCost h c # es) r = donations es r"
| "donations (VoteSucceed h who b # es) r = donations es r"
| "donations (RoundStarted j # es) r = donations es r"
| "donations (RoundEnded j # es) r = donations es r"

lemma donations_append: "donations (es @ fs) r = donations es r @ donations fs r"
  by (induction es r rule: donations.induct) auto

definition fee_of :: "('acc, 'h, 'l) qf_config \<Rightarrow> u128 \<Rightarrow> nat" where
  "fee_of cfg a = unat (FeeRatioPerVote cfg) * (unat a div unat (NumberOfUnitPerVote cfg))"

definition pool_inv :: "('acc, 'h, 'l) qf_config \<Rightarrow> ('acc, 'h, 'l) qf \<Rightarrow> bool" where
  "pool_inv cfg s \<longleftrightarrow> prices_ok cfg \<and>
     (\<forall>r. unat (pre_tax_support_pool (rounds s r)) = sum_list (map unat (donations (qf_events s) r)) \<and>
          unat (support_pool (rounds s r)) =
            sum_list (map (\<lambda>a. unat a - fee_of cfg a) (donations (qf_events s) r)))"

lemma pool_inv_keep:
  assumes "pool_inv cfg s"
    and "\<And>r. pre_tax_support_pool (rounds t r) = pre_tax_support_pool (rounds s r)"
    and "\<And>r. support_pool (rounds t r) = support_pool (rounds s r)"
    and "qf_events t = qf_events s @ [e]" and "\<And>r. donations [e] r = []"
  shows "pool_inv cfg t"
  using assms by (simp add: pool_inv_def donations_append)

lemma rounds_unused: "\<not> contains_key (Rounds s) r \<Longrightarrow> rounds s r = default_round"
  by (simp add: rounds_def storage_defs)

lemma dispatch_pool_inv:
  assumes inv: "pool_inv cfg s" and ok: "qf_dispatch cfg x s = Ok t"
  shows "pool_inv cfg t"
proof (cases "qf_the_call x")
  case (DonateCall j amount)
  with ok have "donate cfg (qf_origin x) j amount s = Ok t" by (simp add: qf_dispatch_def)
  then show ?thesis
  proof (cases rule: donateE)
    case (1 who fee unit rnd)
    have ratio: "FeeRatioPerVote cfg \<le> NumberOfUnitPerVote cfg"
      using inv by (simp add: pool_inv_def prices_ok_def)
    note fee = donation_fee_le [OF 1(6) ratio]
    show ?thesis
      using inv credit_donation_sums(3,4) [OF 1(7) fee(1)] fee(2)
      by (simp add: pool_inv_def 1(12) donations_append rounds_insert [OF 1(8)] fee_of_def)
  qed
next
  case (StartRoundCall j)
  with ok have "start_round cfg (qf_origin x) j s = Ok t" by (simp add: qf_dispatch_def)
  then show ?thesis
  proof (cases rule: start_roundE)
    case 1
    show ?thesis
      by (rule pool_inv_keep [OF inv _ _ 1(7)])
        (simp_all add: rounds_insert [OF 1(3)] rounds_unused [OF 1(2)] new_round_def default_round_def)
  qed
next
  case (EndRoundCall j)
  with ok have "end_round cfg (qf_origin x) j s = Ok t" by (simp add: qf_dispatch_def)
  then show ?thesis
  proof (cases rule: end_roundE)
    case (1 s1)
    show ?thesis by (rule pool_inv_keep [OF inv _ _ 1(9)]) (simp_all add: rounds_insert [OF 1(5)])
  qed
next
  case (RegisterProjectCall j h title)
  with ok have "register_project cfg (qf_origin x) j h title s = Ok t" by (simp add: qf_dispatch_def)
  then show ?thesis
  proof (cases rule: register_projectE)
    case (1 who)
    show ?thesis by (rule pool_inv_keep [OF inv _ _ 1(9)]) (simp_all add: rounds_same [OF 1(5)])
  qed
next
  case (VoteCall j h b)
  with ok have "vote cfg (qf_origin x) j h b s = Ok t" by (simp add: qf_dispatch_def)
  then show ?thesis
  proof (cases rule: voteE)
    case (1 who cost amount fee votes added poj rnd)
    note area = credit_area_sums(3,4) [OF 1(11)]
    show ?thesis
      by (rule pool_inv_keep [OF inv _ _ 1(16)]) (simp_all add: rounds_insert [OF 1(12)] area)
  qed
qed

interpretation qf_pool: pallet "qf_dispatch cfg" "\<lambda>_ _. True" "pool_inv cfg" for cfg
  by unfold_locales (auto intro: dispatch_pool_inv dest: qf_dispatch_err)

text \<open>C22: after any sequence of extrinsics, the pre-tax pool of a round is the sum of the
  donations made to it, and its support pool is the sum of the donations each less the fee for
  its whole units.\<close>

theorem qf_pool_is_donations:
  assumes "prices_ok cfg" and "t = apply_extrinsics (qf_dispatch cfg) cs (qf_init l)"
  shows "unat (pre_tax_support_pool (rounds t r)) = sum_list (map unat (donations (qf_events t) r)) \<and>
    unat (support_pool (rounds t r)) =
      sum_list (map (\<lambda>a. unat a - unat (FeeRatioPerVote cfg) * (unat a div unat (NumberOfUnitPerVote cfg)))
        (donations (qf_events t) r))"
proof -
  have "pool_inv cfg (qf_init l)"
    using assms(1) by (simp add: pool_inv_def qf_init_def rounds_def default_round_def map_get_def)
  from qf_pool.run_inv [OF this, of cs] show ?thesis
    by (simp add: pool_inv_def assms(2) fee_of_def)
qed

theorem qf_pool_is_donations_witness:
  "unat (support_pool (rounds test_opened 1)) = 500 - 5 * (500 div 100)"
  using qf_pool_is_donations [OF test_prices_ok [of True] test_run_opened [symmetric], where r = 1]
  by (simp add: test_opened_def test_qf_def)

section \<open>Covered debts\<close>

text \<open>C3: as long as every donation and every vote is really paid, the pallet's account covers what
  it owes after any sequence of extrinsics: the grants and the pool of every round that is going
  on, and all taxes.\<close>

theorem qf_solvency:
  assumes "lawful_currency (currency cfg)" and "lawful_iteration cfg" and "prices_ok cfg"
    and "admissible_run (qf_dispatch cfg) (\<lambda>x s. no_collision cfg x s \<and> funded cfg x s) cs (qf_init l)"
    and "t = apply_extrinsics (qf_dispatch cfg) cs (qf_init l)"
  shows "(\<Sum>r\<in>dom (Rounds t). unat (total_tax (rounds t r)) +
      (if ongoing (rounds t r) then unat (support_pool (rounds t r)) + grants_sum t r else 0))
    \<le> unat (balance cfg (bank t) (qf_account_id cfg))"
proof -
  have "qf_sound cfg (qf_init l)"
    using assms by (simp add: qf_sound_def qf_good_def qf_init_inv qf_init_solvent)
  from qf_paid.run_inv [OF this assms(4)] have "solvent cfg t"
    by (simp add: qf_sound_def assms(5))
  then show ?thesis unfolding solvent_def total_owed_def owed_def .
qed

theorem qf_solvency_witness:
  "unat (25 :: u128) + unat (475 :: u128) \<le> unat (bank test_opened 200)"
  using qf_solvency [OF test_qf_lawful(1,2) [of True] test_prices_ok test_admissible_opened test_run_opened [symmetric]]
  by (simp add: test_opened_def rounds_def map_get_def test_qf_def test_currency_def qf_account_id_def)

lemma end_round_fits:
  assumes inv: "qf_inv cfg s" and iter: "lawful_iteration cfg"
    and "AdminOrigin cfg og" and "Rounds s r = Some rnd" and "ongoing rnd"
    and le: "grants_sum s r + unat (support_pool rnd) < 2 ^ 128"
  shows "\<exists>t. end_round cfg og r s = Ok t"
proof -
  let ?items = "iter_prefix cfg s r"
  have rnd: "rounds s r = rnd" using assms(4) by (simp add: rounds_def map_get_def)
  have fits: "payout (total_support_area rnd) (support_pool rnd) p < 2 ^ 128" if "(h, p) \<in> set ?items" for h p
  proof -
    have "payout (total_support_area rnd) (support_pool rnd) p \<le> payouts (total_support_area rnd) (support_pool rnd) ?items"
      unfolding payouts_def by (rule member_le_sum_list) (use that in force, simp)
    also have "\<dots> \<le> grants_sum s r + unat (support_pool rnd)"
      using payouts_le [OF iter inv, of r] by (simp add: rnd)
    finally show ?thesis using le by simp
  qed
  obtain s1 where p: "pay_projects cfg (total_support_area rnd) (support_pool rnd) ?items s = Ok s1"
    using pay_projects_Ok [of ?items "total_support_area rnd" "support_pool rnd" cfg s] fits by blast
  show ?thesis
    using assms(3-5) p by (auto simp: end_round_def Let_def rnd contains_key_def and_then_def)
qed

lemma end_round_succeeds:
  assumes "qf_sound cfg s" and "AdminOrigin cfg og" and "Rounds s r = Some rnd" and "ongoing rnd"
  shows "\<exists>t. end_round cfg og r s = Ok t"
proof -
  have rnd: "rounds s r = rnd" using assms(3) by (simp add: rounds_def map_get_def)
  have inv: "qf_inv cfg s" and iter: "lawful_iteration cfg" and sol: "solvent cfg s"
    using assms(1) by (simp_all add: qf_sound_def qf_good_def)
  have fin: "finite (dom (Rounds s))" using inv by (simp add: qf_inv_def key_inv_def)
  have "owed s r \<le> total_owed s" using assms(3) by (intro owed_le_total [OF fin]) auto
  then have "grants_sum s r + unat (support_pool rnd) \<le> unat (balance cfg (bank s) (qf_account_id cfg))"
    using sol assms(4) by (simp add: owed_def rnd solvent_def)
  then show ?thesis
    using unat_lt [of "balance cfg (bank s) (qf_account_id cfg)"] by (intro end_round_fits [OF inv iter assms(2-4)]) simp
qed

text \<open>In a sound state an administrator can always end a round that is going on: the loop of
  payments does not panic, the round is marked as ended with its amounts as they are, and the
  stored projects are unchanged.\<close>

lemma qf_end_round_completes:
  assumes "qf_sound cfg s" and "AdminOrigin cfg og" and "Rounds s r = Some rnd" and "ongoing rnd"
  shows "\<exists>t. end_round cfg og r s = Ok t \<and> Rounds t r = Some (rnd\<lparr>ongoing := False\<rparr>) \<and>
    Projects t = Projects s \<and> ProjectVotes t = ProjectVotes s"
proof -
  have rnd: "rounds s r = rnd" using assms(3) by (simp add: rounds_def map_get_def)
  obtain t where t: "end_round cfg og r s = Ok t" using end_round_succeeds [OF assms] ..
  then show ?thesis by (cases rule: end_roundE) (auto simp: t rnd map_insert_def)
qed

lemma qf_end_round_completes_at_test:
  "\<exists>t. end_round (test_qf True) Root 1 test_closed = Ok t \<and> Projects t = Projects test_closed"
  using qf_end_round_completes [OF test_qf_sound(2) [of True], of Root 1]
  by (auto simp: test_closed_def test_qf_def)

text \<open>C17: what a successful \<open>end_round\<close> pays. The pallet loses at most the grants of the round's
  projects and the part of the pool that the area divides, which is at most the pool; any other
  account never loses, and gains at most the final grants of the projects it owns.\<close>

theorem qf_distribution:
  assumes "lawful_currency (currency cfg)" and "lawful_iteration cfg" and "qf_inv cfg s"
    and "end_round cfg og r s = Ok t" and "area = total_support_area (rounds s r)"
    and "pool = support_pool (rounds s r)" and "a \<noteq> qf_account_id cfg"
  shows "unat (balance cfg (bank s) (qf_account_id cfg)) \<le>
      unat (balance cfg (bank t) (qf_account_id cfg)) + grants_sum s r + unat area * (unat pool div unat area) \<and>
    unat area * (unat pool div unat area) \<le> unat pool \<and>
    unat (balance cfg (bank s) a) \<le> unat (balance cfg (bank t) a) \<and>
    unat (balance cfg (bank t) a) \<le> unat (balance cfg (bank s) a) +
      sum_list (map (\<lambda>(h, p). unat (grants p) + unat (support_area p) * (unat pool div unat area))
        (filter (\<lambda>(h, p). owner p = a) (iter_prefix cfg s r)))"
  using assms(4)
proof (cases rule: end_roundE)
  case (1 s1)
  have "unat (balance cfg (bank s) (qf_account_id cfg)) \<le>
      unat (balance cfg (bank t) (qf_account_id cfg)) + (grants_sum s r + unat area * (unat pool div unat area))"
    using pay_projects_from [OF assms(1) 1(4)] unfolding 1(8) payouts_round [OF assms(2,3)] assms(5,6) .
  moreover have "unat (balance cfg (bank s) a) \<le> unat (balance cfg (bank t) a) \<and>
      unat (balance cfg (bank t) a) \<le> unat (balance cfg (bank s) a) + payouts_to a area pool (iter_prefix cfg s r)"
    using pay_projects_to [OF assms(1,7) 1(4)] by (simp add: 1(8) assms(5,6))
  ultimately show ?thesis by (simp add: payouts_to_def payouts_def payout_def)
qed

lemma test_grants_sum: "grants_sum test_closed 1 = 190"
proof -
  have "projects_in test_closed 1 = [1 \<mapsto> test_project\<lparr>total_votes := 2, grants := 190, support_area := 1\<rparr>]"
    by (auto simp: projects_in_def test_closed_def)
  then show ?thesis by (simp add: grants_sum_def register_total_def)
qed

lemma test_end_round:
  "\<exists>t. end_round (test_qf True) Root 1 test_closed = Ok t"
proof -
  have "AdminOrigin (test_qf True) Root" by (simp add: test_qf_def)
  moreover have "Rounds test_closed 1 = Some (rounds test_closed 1)" "ongoing (rounds test_closed 1)"
    by (simp_all add: test_closed_def rounds_def map_get_def)
  ultimately show ?thesis by (rule end_round_succeeds [OF test_qf_sound(2)])
qed

theorem qf_distribution_witness:
  "\<exists>t. end_round (test_qf True) Root 1 test_closed = Ok t \<and>
     700 \<le> unat (bank t 200) + 190 + 475 \<and> 2000 \<le> unat (bank t 1)"
proof -
  obtain t where t: "end_round (test_qf True) Root 1 test_closed = Ok t" using test_end_round ..
  have "qf_inv (test_qf True) test_closed" using test_qf_sound by (simp add: qf_sound_def qf_good_def)
  from qf_distribution [OF test_qf_lawful this t refl refl, of 1] t show ?thesis
    by (simp add: test_grants_sum) (simp add: test_closed_def rounds_def map_get_def
        test_qf_def test_currency_def qf_account_id_def)
qed

lemma end_round_exact:
  assumes inv: "qf_inv cfg s" and law: "lawful_currency (currency cfg)" "lawful_iteration cfg"
    and "AdminOrigin cfg og" and "Rounds s r = Some rnd" and "ongoing rnd"
    and "pays_out (currency cfg) (qf_account_id cfg)"
    and "unat (minimum_balance (currency cfg)) + grants_sum s r + unat (support_pool rnd)
      \<le> unat (balance cfg (bank s) (qf_account_id cfg))"
    and "\<forall>h p. Projects s (r, h) = Some p \<longrightarrow> owner p \<noteq> qf_account_id cfg \<and>
      minimum_balance (currency cfg) \<le> balance cfg (bank s) (owner p) \<and>
      unat (balance cfg (bank s) (owner p)) + grants_sum s r + unat (support_pool rnd) < 2 ^ 128"
  defines "unit \<equiv> unat (support_pool rnd) div unat (total_support_area rnd)"
  shows "\<exists>t. end_round cfg og r s = Ok t \<and>
    unat (balance cfg (bank t) (qf_account_id cfg)) + grants_sum s r + unat (total_support_area rnd) * unit =
      unat (balance cfg (bank s) (qf_account_id cfg)) \<and>
    (\<forall>a. a \<noteq> qf_account_id cfg \<longrightarrow> unat (balance cfg (bank t) a) = unat (balance cfg (bank s) a) +
      (\<Sum>h\<in>{h. \<exists>p. Projects s (r, h) = Some p \<and> owner p = a}.
         unat (grants (the (Projects s (r, h)))) + unat (support_area (the (Projects s (r, h)))) * unit))"
proof -
  let ?bank = "qf_account_id cfg" and ?area = "total_support_area rnd" and ?pool = "support_pool rnd"
  let ?items = "iter_prefix cfg s r"
  have rnd: "rounds s r = rnd" using assms(5) by (simp add: rounds_def map_get_def)
  have fin: "finite (dom (Projects s))" using inv by (simp add: qf_inv_def key_inv_def)
  have sum: "payouts ?area ?pool ?items = grants_sum s r + unat ?area * unit"
    using payouts_round [OF law(2) inv, of r] by (simp add: rnd unit_def)
  have le: "payouts ?area ?pool ?items \<le> grants_sum s r + unat ?pool"
    using payouts_le [OF law(2) inv, of r] by (simp add: rnd)
  obtain t where t: "end_round cfg og r s = Ok t"
    using end_round_fits [OF inv law(2) assms(4-6)] assms(8)
      unat_lt [of "balance cfg (bank s) ?bank"] by auto
  then obtain s1 where s1: "pay_projects cfg ?area ?pool ?items s = Ok s1" and bank: "bank t = bank s1"
    by (cases rule: end_roundE) (simp add: rnd)
  have exact: "unat (balance cfg (bank t) a) + (if a = ?bank then payouts ?area ?pool ?items else 0) =
      unat (balance cfg (bank s) a) + (if a = ?bank then 0 else payouts_to a ?area ?pool ?items)" for a
    unfolding bank
  proof (rule pay_projects_exact [OF law(1) assms(7) s1])
    show "unat (minimum_balance (currency cfg)) + payouts ?area ?pool ?items \<le> unat (balance cfg (bank s) ?bank)"
      using assms(8) le by linarith
    fix h p assume "(h, p) \<in> set ?items"
    then have "Projects s (r, h) = Some p" using iter_prefix_mem [OF law(2) fin] by (simp add: projects_in_def)
    with assms(9) le show "owner p \<noteq> ?bank \<and> minimum_balance (currency cfg) \<le> balance cfg (bank s) (owner p) \<and>
      unat (balance cfg (bank s) (owner p)) + payouts ?area ?pool ?items < 2 ^ 128" by force
  qed
  have to: "payouts_to a ?area ?pool ?items = (\<Sum>h\<in>{h. \<exists>p. Projects s (r, h) = Some p \<and> owner p = a}.
         unat (grants (the (Projects s (r, h)))) + unat (support_area (the (Projects s (r, h)))) * unit)" for a
    using payouts_to_sum [OF law(2) fin] by (simp add: payout_def unit_def)
  show ?thesis
  proof (intro exI conjI allI impI)
    show "end_round cfg og r s = Ok t" by (rule t)
    show "unat (balance cfg (bank t) ?bank) + grants_sum s r + unat ?area * unit = unat (balance cfg (bank s) ?bank)"
      using exact [of ?bank] sum by simp
    show "unat (balance cfg (bank t) a) = unat (balance cfg (bank s) a) +
      (\<Sum>h\<in>{h. \<exists>p. Projects s (r, h) = Some p \<and> owner p = a}.
         unat (grants (the (Projects s (r, h)))) + unat (support_area (the (Projects s (r, h)))) * unit)"
      if "a \<noteq> ?bank" for a
      using exact [of a] to [of a] that by simp
  qed
qed

text \<open>C18: what \<open>end_round\<close> pays when the account can afford it: every account gains exactly the final
  grants of its projects, that is, what their votes granted and their support area times the pool
  per unit of area, and the pallet's account pays exactly the sum. It must keep the minimum balance,
  and every owner must have an account.\<close>

theorem qf_exact_payout:
  assumes "qf_sound cfg s" and "AdminOrigin cfg og" and "Rounds s r = Some rnd" and "ongoing rnd"
    and "pays_out (currency cfg) (qf_account_id cfg)"
    and "unat (minimum_balance (currency cfg)) + grants_sum s r + unat (support_pool rnd)
      \<le> unat (balance cfg (bank s) (qf_account_id cfg))"
    and "\<forall>h p. Projects s (r, h) = Some p \<longrightarrow> owner p \<noteq> qf_account_id cfg \<and>
      minimum_balance (currency cfg) \<le> balance cfg (bank s) (owner p) \<and>
      unat (balance cfg (bank s) (owner p)) + grants_sum s r + unat (support_pool rnd) < 2 ^ 128"
  defines "unit \<equiv> unat (support_pool rnd) div unat (total_support_area rnd)"
  shows "\<exists>t. end_round cfg og r s = Ok t \<and>
    unat (balance cfg (bank t) (qf_account_id cfg)) + grants_sum s r + unat (total_support_area rnd) * unit =
      unat (balance cfg (bank s) (qf_account_id cfg)) \<and>
    (\<forall>a. a \<noteq> qf_account_id cfg \<longrightarrow> unat (balance cfg (bank t) a) = unat (balance cfg (bank s) a) +
      (\<Sum>h\<in>{h. \<exists>p. Projects s (r, h) = Some p \<and> owner p = a}.
         unat (grants (the (Projects s (r, h)))) + unat (support_area (the (Projects s (r, h)))) * unit))"
  unfolding unit_def
  using assms(1) by (intro end_round_exact [OF _ _ _ assms(2-7)]) (simp_all add: qf_sound_def qf_good_def)

theorem qf_exact_payout_witness:
  "\<exists>t. end_round (test_qf True) Root 1 test_closed = Ok t \<and>
     unat (bank t 200) = 35 \<and> unat (bank t 1) = 2000 + 190 + 475"
proof -
  let ?rnd = "rounds test_closed 1" and ?cfg = "test_qf True"
  have cfg: "currency ?cfg = test_currency" "qf_account_id ?cfg = 200"
    "minimum_balance test_currency = 1" "free_balance test_currency l a = l a" for l a
    by (simp_all add: test_qf_def qf_account_id_def test_currency_def)
  have rnd: "Rounds test_closed 1 = Some ?rnd" "ongoing ?rnd" "support_pool ?rnd = 475" "total_support_area ?rnd = 1"
    and bal: "bank test_closed 200 = 700" "bank test_closed 1 = 2000"
    by (simp_all add: test_closed_def rounds_def map_get_def)
  let ?p = "test_project\<lparr>total_votes := 2, grants := 190, support_area := 1\<rparr>"
  have proj: "Projects test_closed (1, h) = Some p \<longleftrightarrow> h = 1 \<and> p = ?p" for h p
    by (auto simp: test_closed_def)
  then have one: "Projects test_closed (1, 1) = Some ?p" by blast
  have own: "owner ?p = 1" "grants ?p = 190" "support_area ?p = 1" by (simp_all add: test_project_def)
  have adm: "AdminOrigin ?cfg Root" by (simp add: test_qf_def)
  have pays: "pays_out (currency ?cfg) (qf_account_id ?cfg)" by (simp add: cfg test_currency_pays_out)
  have enough: "unat (minimum_balance (currency ?cfg)) + grants_sum test_closed 1 + unat (support_pool ?rnd)
      \<le> unat (balance ?cfg (bank test_closed) (qf_account_id ?cfg))"
    unfolding cfg rnd bal test_grants_sum by simp
  have owners: "\<forall>h p. Projects test_closed (1, h) = Some p \<longrightarrow> owner p \<noteq> qf_account_id ?cfg \<and>
      minimum_balance (currency ?cfg) \<le> balance ?cfg (bank test_closed) (owner p) \<and>
      unat (balance ?cfg (bank test_closed) (owner p)) + grants_sum test_closed 1 + unat (support_pool ?rnd) < 2 ^ 128"
  proof (intro allI impI)
    fix h p assume "Projects test_closed (1, h) = Some p"
    then have "owner p = 1" using proj own(1) by metis
    then show "owner p \<noteq> qf_account_id ?cfg \<and>
      minimum_balance (currency ?cfg) \<le> balance ?cfg (bank test_closed) (owner p) \<and>
      unat (balance ?cfg (bank test_closed) (owner p)) + grants_sum test_closed 1 + unat (support_pool ?rnd) < 2 ^ 128"
      by (simp only: cfg rnd bal test_grants_sum) simp
  qed
  have owned: "{h. \<exists>p. Projects test_closed (1, h) = Some p \<and> owner p = 1} = {1}"
    using own(1) by (auto simp only: proj)
  from qf_exact_payout [OF test_qf_sound(2) adm rnd(1,2) pays enough owners] obtain t where
    t: "end_round ?cfg Root 1 test_closed = Ok t" and
    from_bank: "unat (balance ?cfg (bank t) 200) + 190 + unat (total_support_area ?rnd) *
      (unat (support_pool ?rnd) div unat (total_support_area ?rnd)) = unat (balance ?cfg (bank test_closed) 200)" and
    to_all: "\<forall>a. a \<noteq> 200 \<longrightarrow> unat (balance ?cfg (bank t) a) = unat (balance ?cfg (bank test_closed) a) +
      (\<Sum>h\<in>{h. \<exists>p. Projects test_closed (1, h) = Some p \<and> owner p = a}.
         unat (grants (the (Projects test_closed (1, h)))) + unat (support_area (the (Projects test_closed (1, h)))) *
           (unat (support_pool ?rnd) div unat (total_support_area ?rnd)))"
    unfolding cfg(2) test_grants_sum by blast
  from to_all have "unat (balance ?cfg (bank t) 1) = unat (balance ?cfg (bank test_closed) 1) +
      (\<Sum>h\<in>{1}. unat (grants (the (Projects test_closed (1, h)))) + unat (support_area (the (Projects test_closed (1, h)))) *
           (unat (support_pool ?rnd) div unat (total_support_area ?rnd)))"
    unfolding owned [symmetric] by simp
  then have "unat (bank t 1) = 2665" unfolding cfg rnd bal by (simp add: one [simplified] own)
  moreover from from_bank have "unat (bank t 200) = 35" unfolding cfg rnd bal by simp
  ultimately show ?thesis using t by simp
qed

end
