(* ===== verification/QF_Life.thy ===== *)
theory QF_Life
  imports QF_Test
begin

text \<open>
  Properties of the life cycle of rounds, of who may control it, and of the views of the runtime
  API.
\<close>

section \<open>Life cycle\<close>

text \<open>C27: over any sequence of extrinsics a round follows the abstract state machine: it is opened
  empty, credited while it is going on, and closed; its phase never goes back.\<close>

theorem qf_round_lifecycle:
  "round_trans\<^sup>*\<^sup>* (Rounds s r) (Rounds (apply_extrinsics (qf_dispatch cfg) cs s) r) \<and>
   phase_of (Rounds s r) \<le> phase_of (Rounds (apply_extrinsics (qf_dispatch cfg) cs s) r)"
proof -
  have "round_trans\<^sup>*\<^sup>* (Rounds s r) (Rounds (apply_extrinsics (qf_dispatch cfg) cs s) r)"
    using run_round_history [of s cfg cs] by (simp add: round_history_def)
  then show ?thesis by (simp add: round_transs_phase)
qed

text \<open>A round that has ended never changes, and neither does a project registered in it.\<close>

lemma qf_ended_frozen:
  assumes "phase_of (Rounds s r) = Ended"
  shows "Rounds (apply_extrinsics (qf_dispatch cfg) cs s) r = Rounds s r \<and>
    (\<forall>h \<in> dom (projects_in s r). Projects (apply_extrinsics (qf_dispatch cfg) cs s) (r, h) = Projects s (r, h))"
proof -
  let ?t = "apply_extrinsics (qf_dispatch cfg) cs s"
  have hist: "round_history s ?t" by (rule run_round_history)
  then have "Rounds ?t r = Rounds s r"
    using assms round_transs_ended [of "Rounds s r" "Rounds ?t r"] by (simp add: round_history_def)
  moreover have "Projects ?t (r, h) = Projects s (r, h)" if "h \<in> dom (projects_in s r)" for h
    using that hist assms by (force simp: round_history_def project_kept_def projects_in_def)
  ultimately show ?thesis by blast
qed

definition test_ended :: "(nat, nat, test_ledger) qf" where
  "test_ended = test_opened\<lparr>Rounds := [1 \<mapsto> (rounds test_opened 1)\<lparr>ongoing := False\<rparr>]\<rparr>"

lemma qf_ended_frozen_at_test:
  "Rounds (apply_extrinsics (qf_dispatch (test_qf True)) test_vote_calls test_ended) 1 =
     Some ((rounds test_opened 1)\<lparr>ongoing := False\<rparr>)"
  using qf_ended_frozen [of test_ended 1 "test_qf True" test_vote_calls]
  by (simp add: test_ended_def phase_of_def)

text \<open>What the dispatchables answer for a round that has ended: donating, voting for a registered
  project and ending it again are refused with \<open>RoundHasEnded\<close>, starting it again with
  \<open>RoundExisted\<close>.\<close>

lemma qf_ended_errors:
  assumes "phase_of (Rounds s r) = Ended" and "AdminOrigin cfg og"
    and "Projects s (r, h) = Some p" and "0 < b"
  shows "donate cfg (Signed who) r amount s = Err (Module RoundHasEnded) s \<and>
    vote cfg (Signed who) r h b s = Err (Module RoundHasEnded) s \<and>
    end_round cfg og r s = Err (Module RoundHasEnded) s \<and>
    start_round cfg og r s = Err (Module RoundExisted) s"
  using assms
  by (auto simp: phase_of_def donate_def vote_def end_round_def start_round_def contains_key_def
      rounds_def map_get_def split: option.splits if_splits)

text \<open>Only an administrator moves a round to another phase: a call that does is a start or an
  end of that round, under an origin that passes \<open>AdminOrigin\<close>.\<close>

lemma qf_admin_only:
  assumes "qf_dispatch cfg x s = Ok t" and "phase_of (Rounds t r) \<noteq> phase_of (Rounds s r)"
  shows "AdminOrigin cfg (qf_origin x) \<and>
    (qf_the_call x = StartRoundCall r \<and> phase_of (Rounds s r) = Unused \<and> phase_of (Rounds t r) = Ongoing \<or>
     qf_the_call x = EndRoundCall r \<and> phase_of (Rounds s r) = Ongoing \<and> phase_of (Rounds t r) = Ended)"
proof (cases "qf_the_call x")
  case (DonateCall j amount)
  with assms have "donate cfg (qf_origin x) j amount s = Ok t" by (simp add: qf_dispatch_def)
  then show ?thesis
  proof (cases rule: donateE)
    case (1 who fee unit rnd)
    have "ongoing rnd" using 1(3,7) by (auto simp: credit_donation_def bind_eq_Some_conv)
    then show ?thesis
      using assms(2) 1(2,3) by (auto simp: 1(8) map_insert_def phase_of_def rounds_stored split: if_splits)
  qed
next
  case (StartRoundCall j)
  with assms show ?thesis
    by (auto simp: qf_dispatch_def map_insert_def phase_of_def contains_key_def new_round_def
        split: if_splits elim!: start_roundE)
next
  case (EndRoundCall j)
  with assms show ?thesis
    by (auto simp: qf_dispatch_def map_insert_def phase_of_def rounds_stored split: if_splits elim!: end_roundE)
next
  case (RegisterProjectCall j h title)
  with assms show ?thesis by (auto simp: qf_dispatch_def elim!: register_projectE)
next
  case (VoteCall j h b)
  with assms have "vote cfg (qf_origin x) j h b s = Ok t" by (simp add: qf_dispatch_def)
  then show ?thesis
  proof (cases rule: voteE)
    case (1 who cost amount fee votes added poj rnd)
    then show ?thesis
      using assms(2) credit_area_sums(5) [OF 1(11)]
      by (auto simp: 1(12) map_insert_def phase_of_def rounds_stored split: if_splits)
  qed
qed

lemma test_start:
  "\<exists>t. qf_dispatch (test_qf True) \<lparr>qf_origin = Root, qf_the_call = StartRoundCall 2\<rparr> test_opened = Ok t \<and>
     phase_of (Rounds t 2) = Ongoing"
  by (simp add: qf_dispatch_def start_round_def qf_ensure_admin_def test_qf_def contains_key_def
      test_opened_def Let_def phase_of_def map_insert_def new_round_def qf_deposit_event_def)

lemma qf_admin_only_at_test: "AdminOrigin (test_qf True) Root"
proof -
  obtain t where t: "qf_dispatch (test_qf True) \<lparr>qf_origin = Root, qf_the_call = StartRoundCall 2\<rparr> test_opened = Ok t"
    "phase_of (Rounds t 2) = Ongoing" using test_start by blast
  moreover have "phase_of (Rounds test_opened 2) = Unused" by (simp add: phase_of_def test_opened_def)
  ultimately show ?thesis using qf_admin_only [OF t(1), of 2] by simp
qed

section \<open>Views\<close>

text \<open>C31: the price that the runtime API announces is the price that is paid: when \<open>vote_cost\<close>
  returns \<open>c\<close> units and the vote then succeeds, the transfer it makes is of \<open>c\<close> times the price
  of a unit, to the pallet's account.\<close>

theorem qf_vote_cost_agrees:
  assumes "vote_cost cfg who r h b s = Some c" and "vote cfg (Signed who) r h (ucast b) s = Ok t"
  shows "\<exists>amount. bank t = pay cfg (bank s) who (qf_account_id cfg) amount KeepAlive \<and>
    unat amount = unat (UnitOfVote cfg) * unat (NumberOfUnitPerVote cfg) * unat c"
  using assms(2)
proof (cases rule: voteE)
  case (1 who' cost amount fee votes added poj rnd)
  have "try_into cost = Some c"
    using assms(1) 1(1,6) by (auto simp: vote_cost_def Let_def vote_key_def bind_eq_Some_conv)
  then have "unat c = unat cost" by (simp add: try_into_Some)
  then show ?thesis using 1(1,15) cal_amount_price [OF 1(7)] by auto
qed

lemma test_first_vote: "\<exists>t. vote (test_qf True) (Signed 2) 1 1 (ucast (3 :: u32)) test_opened = Ok t"
  by (simp add: qf_eval rust_eval qf_states)

theorem qf_vote_cost_agrees_witness:
  "\<exists>t amount. vote (test_qf True) (Signed 2) 1 1 (ucast (3 :: u32)) test_opened = Ok t \<and>
     bank t = pay (test_qf True) (bank test_opened) 2 200 amount KeepAlive \<and> unat amount = 600"
proof -
  obtain t where t: "vote (test_qf True) (Signed 2) 1 1 (ucast (3 :: u32)) test_opened = Ok t"
    using test_first_vote ..
  have "vote_cost (test_qf True) 2 1 1 3 test_opened = Some 6"
    by (simp add: vote_cost_def project_votes_def map_get_def test_opened_def cal_cost_def rust_eval
        try_into_def)
  from qf_vote_cost_agrees [OF this t] t show ?thesis by (simp add: test_qf_def qf_account_id_def)
qed

lemma project_rows_all:
  "project_rows cfg area pool items acc = Some rows \<Longrightarrow>
     \<exists>new. rows = acc @ new \<and> list_all2 (\<lambda>item row. project_row cfg area pool item = Some row) items new"
  by (induction cfg area pool items acc arbitrary: rows rule: project_rows.induct)
    (force simp: bind_eq_Some_conv)+

lemma project_row_values:
  assumes "project_row cfg area pool (h, p) = Some (h', v, g, sg)"
  shows "h' = h \<and> unat v = unat (total_votes p) \<and> unat g = unat (grants p) div unat (UnitOfVote cfg) \<and>
    unat sg = unat (support_area p) * (unat pool div unat area) div unat (UnitOfVote cfg)"
  using assms
  by (cases "area = 0") (auto simp: project_row_def bind_eq_Some_conv rust_arith word_gt_0)

text \<open>C33: the view of a round lists its projects in the order of the storage map, once each, and
  announces for each the votes, the grants and the share of the pool that \<open>end_round\<close> pays it on
  top, in units.\<close>

theorem qf_view_rows:
  assumes "projects_per_round cfg r s = Some rows"
  shows "length rows = length (iter_prefix cfg s r) \<and>
    (\<forall>i < length rows. case (iter_prefix cfg s r ! i, rows ! i) of ((h, p), (h', v, g, sg)) \<Rightarrow>
      h' = h \<and> unat v = unat (total_votes p) \<and> unat g = unat (grants p) div unat (UnitOfVote cfg) \<and>
      unat sg = (payout (total_support_area (rounds s r)) (support_pool (rounds s r)) p - unat (grants p))
                  div unat (UnitOfVote cfg))"
proof -
  let ?a = "total_support_area (rounds s r)" and ?p = "support_pool (rounds s r)"
  have all: "list_all2 (\<lambda>item row. project_row cfg ?a ?p item = Some row) (iter_prefix cfg s r) rows"
    using project_rows_all [of cfg ?a ?p "iter_prefix cfg s r" "[]" rows] assms
    by (simp add: projects_per_round_def Let_def)
  show ?thesis
  proof (intro conjI allI impI)
    show "length rows = length (iter_prefix cfg s r)" using all by (simp add: list_all2_lengthD)
    fix i assume "i < length rows"
    then have row: "project_row cfg ?a ?p (iter_prefix cfg s r ! i) = Some (rows ! i)"
      using all by (simp add: list_all2_conv_all_nth)
    obtain h p h' v g sg where "iter_prefix cfg s r ! i = (h, p)" "rows ! i = (h', v, g, sg)"
      by (metis prod_cases4 prod.exhaust)
    with project_row_values [of cfg ?a ?p h p h' v g sg] row
    show "case (iter_prefix cfg s r ! i, rows ! i) of ((h, p), (h', v, g, sg)) \<Rightarrow>
      h' = h \<and> unat v = unat (total_votes p) \<and> unat g = unat (grants p) div unat (UnitOfVote cfg) \<and>
      unat sg = (payout ?a ?p p - unat (grants p)) div unat (UnitOfVote cfg)"
      by (simp add: payout_def)
  qed
qed

lemma test_iter: "iter_prefix (test_qf c) test_closed 1 =
  [(1, test_project\<lparr>total_votes := 2, grants := 190, support_area := 1\<rparr>)]"
proof -
  have "snd ` {k \<in> dom (Projects test_closed). fst k = 1} = {1}" by (auto simp: test_closed_def)
  then have "prefix_keys (test_qf c) (Projects test_closed) 1 = [1]" by (simp add: test_qf_def test_keys_def)
  then show ?thesis by (simp add: iter_prefix_def projects_def map_get_def) (simp add: test_closed_def)
qed

lemma test_view: "projects_per_round (test_qf True) 1 test_closed = Some [(1, 2, 190, 475)]"
  by (simp add: projects_per_round_def test_iter Let_def)
    (simp add: project_row_def rounds_def map_get_def test_closed_def test_project_def test_qf_def
      rust_eval try_into_def)

theorem qf_view_rows_witness: "length (iter_prefix (test_qf True) test_closed 1) = 1"
  using qf_view_rows [OF test_view] by simp

end
