(* ===== verification/QF_Findings.thy ===== *)
theory QF_Findings
  imports QF_Rounds
begin

text \<open>
  Behaviour of the quadratic-funding pallet that departs from its comments: payments whose result
  is thrown away, and registration outside a round that is going on.
\<close>

text \<open>\<open>vote\<close> does not depend on the voter's funds. Whatever the balances are, the same call is
  accepted and writes the same rounds, projects and ballots, because the result of the transfer is
  thrown away; the comment in the code expects the transfer to ensure the balance.\<close>

lemma qf_vote_ignores_funds:
  assumes "vote cfg og r h b s = Ok t"
  shows "\<exists>t'. vote cfg og r h b (s\<lparr>bank := l\<rparr>) = Ok t' \<and> Rounds t' = Rounds t \<and>
    Projects t' = Projects t \<and> ProjectVotes t' = ProjectVotes t \<and> qf_events t' = qf_events t"
  using assms
proof (cases rule: voteE)
  case (1 who cost amount fee votes added poj rnd)
  let ?s = "s\<lparr>bank := l\<rparr>"
  have same: "rounds ?s = rounds s" "project_votes ?s = project_votes s" "projects cfg ?s = projects cfg s"
    by (simp_all add: fun_eq_iff rounds_def project_votes_def projects_def)
  have send: "rounds (qf_send cfg x y a ?s) = rounds s" "projects cfg (qf_send cfg x y a ?s) = projects cfg s"
    and mark: "rounds (u\<lparr>ProjectVotes := pv\<rparr>) = rounds u" "projects cfg (u\<lparr>ProjectVotes := pv\<rparr>) = projects cfg u"
    for x y a pv and u :: "('a, 'b, 'c) qf"
    by (simp_all add: fun_eq_iff rounds_def projects_def)
  show ?thesis
    using 1(2-11) by (simp add: vote_def Let_def 1(1) same send mark vote_key_def ensure_def
        1(12-14,16))
qed

lemma qf_vote_ignores_funds_at_test:
  "\<exists>t'. vote (test_qf True) (Signed 2) 1 1 3 (test_opened\<lparr>bank := (\<lambda>_. 0)\<rparr>) = Ok t' \<and>
     ProjectVotes t' (2 ^ 32 + 1, 2) = Some 3"
proof -
  have "\<exists>t. vote (test_qf True) (Signed 2) 1 1 3 test_opened = Ok t \<and> ProjectVotes t (2 ^ 32 + 1, 2) = Some 3"
    by (simp add: qf_eval rust_eval qf_states)
  then obtain t where "vote (test_qf True) (Signed 2) 1 1 3 test_opened = Ok t"
    "ProjectVotes t (2 ^ 32 + 1, 2) = Some 3" by blast
  with qf_vote_ignores_funds [OF this(1), of "\<lambda>_. 0"] show ?thesis by auto
qed

section \<open>Grants that nobody paid for\<close>

text \<open>The grants of a round after a vote, as long as they do not wrap around.\<close>

lemma vote_grants:
  assumes inv: "qf_inv cfg s" and prices: "prices_ok cfg" and ok: "vote cfg (Signed who) r h b s = Ok t"
    and price: "cal_cost (project_votes s (vote_key cfg (r, h)) who) b = Some cost"
      "cal_amount cfg cost False = Some amount" "cal_amount cfg cost True = Some fee"
    and p: "Projects s (r, h) = Some p"
    and fits: "grants_sum s r + (unat amount - unat fee) < 2 ^ 128"
  obtains rnd poj where "Rounds t r = Some rnd" "ongoing rnd" "support_pool rnd = support_pool (rounds s r)"
    "Projects t = (Projects s)((r, h) \<mapsto> poj)" "owner poj = owner p"
    "unat (grants poj) = unat (grants p) + (unat amount - unat fee)"
    "grants_sum t r = grants_sum s r + (unat amount - unat fee)"
  using inv prices ok
proof (cases rule: voteE_numbers)
  case (1 w cost' amount' fee' votes added p' poj rnd)
  have same: "w = who" "cost' = cost" "amount' = amount" "fee' = fee" "p' = p"
    using 1(17) 1(22) 1(18) 1(19) 1(1) price p by simp_all
  note v = vote_price [OF prices price(2,3)]
  have net: "unat (amount - fee) = unat amount - unat fee"
    using v(1) by (simp add: unat_sub_le word_le_nat_alt)
  have fin: "finite (dom (projects_in s r))"
    using inv finite_projects_in by (auto simp: qf_inv_def key_inv_def)
  have "unat (grants p) \<le> grants_sum s r"
    using register_total_le [OF fin, of h p "\<lambda>p. unat (grants p)"] p
    by (simp add: grants_sum_def projects_in_def)
  then have grant: "unat (grants poj) = unat (grants p) + (unat amount - unat fee)"
    using fits unfolding 1(11) same v(2) [symmetric] by (subst unat_add_fits) (simp_all add: net)
  have "grants_sum t r = grants_sum s r + (unat amount - unat fee)"
    using register_total_insert [OF fin, of "\<lambda>p. unat (grants p)" h poj] grant p
    by (simp add: grants_sum_def projects_in_insert [OF 1(4)]) (simp add: projects_in_def)
  with grant 1(15,21,25,26) show thesis
    by (intro that [of rnd poj]) (simp_all add: 1(3,4) map_insert_def same)
qed

text \<open>C40: grants that nobody paid for are paid out of what others have paid in. When the transfer of
  a vote fails, so that the ledger is as before, and the round is then ended, the owner of the
  project receives the price of the ballots less the fee on top of what its project was granted
  before, and the pallet's account, which got nothing for it, loses that much on top of all grants
  of the round. The account must be able to afford it; what others have given is what it has.\<close>

theorem qf_unpaid_grants_drain:
  assumes "qf_inv cfg s" and "prices_ok cfg" and "lawful_currency (currency cfg)" and "lawful_iteration cfg"
    and "vote cfg (Signed who) r h b s = Ok s1" and "bank s1 = bank s"
    and "cal_cost (project_votes s (vote_key cfg (r, h)) who) b = Some cost"
    and "cal_amount cfg cost False = Some amount" and "cal_amount cfg cost True = Some fee"
    and "Projects s (r, h) = Some p" and "AdminOrigin cfg og" and "pays_out (currency cfg) (qf_account_id cfg)"
    and "unat (minimum_balance (currency cfg)) + grants_sum s r + (unat amount - unat fee)
      + unat (support_pool (rounds s r)) \<le> unat (balance cfg (bank s) (qf_account_id cfg))"
    and "\<forall>h q. Projects s (r, h) = Some q \<longrightarrow> owner q \<noteq> qf_account_id cfg \<and>
      minimum_balance (currency cfg) \<le> balance cfg (bank s) (owner q) \<and>
      unat (balance cfg (bank s) (owner q)) + grants_sum s r + (unat amount - unat fee)
        + unat (support_pool (rounds s r)) < 2 ^ 128"
  shows "\<exists>t. end_round cfg og r s1 = Ok t \<and>
    unat (balance cfg (bank s) (owner p)) + unat (grants p) + (unat amount - unat fee)
      \<le> unat (balance cfg (bank t) (owner p)) \<and>
    unat (balance cfg (bank t) (qf_account_id cfg)) + grants_sum s r + (unat amount - unat fee)
      \<le> unat (balance cfg (bank s) (qf_account_id cfg))"
proof -
  let ?net = "unat amount - unat fee" and ?acc = "qf_account_id cfg"
  have "grants_sum s r + ?net < 2 ^ 128"
    using assms(13) unat_lt [of "balance cfg (bank s) ?acc"] by simp
  from vote_grants [OF assms(1,2,5,7-10) this] obtain rnd poj where
    rnd: "Rounds s1 r = Some rnd" "ongoing rnd" "support_pool rnd = support_pool (rounds s r)" and
    poj: "Projects s1 = (Projects s)((r, h) \<mapsto> poj)" "owner poj = owner p"
      "unat (grants poj) = unat (grants p) + ?net" and sum: "grants_sum s1 r = grants_sum s r + ?net"
    by blast
  have inv: "qf_inv cfg s1" using vote_inv [OF assms(1,2,5)] .
  define unit where "unit = unat (support_pool rnd) div unat (total_support_area rnd)"
  have own: "owner p \<noteq> ?acc" using assms(10,14) by blast
  have "\<forall>k q. Projects s1 (r, k) = Some q \<longrightarrow> owner q \<noteq> ?acc \<and>
      minimum_balance (currency cfg) \<le> balance cfg (bank s1) (owner q) \<and>
      unat (balance cfg (bank s1) (owner q)) + grants_sum s1 r + unat (support_pool rnd) < 2 ^ 128"
    using assms(10,14) by (auto simp: poj assms(6) sum rnd(3) add.assoc)
  then obtain t where t: "end_round cfg og r s1 = Ok t"
    "unat (balance cfg (bank t) ?acc) + grants_sum s1 r + unat (total_support_area rnd) * unit =
      unat (balance cfg (bank s1) ?acc)"
    and to: "\<And>a. a \<noteq> ?acc \<Longrightarrow> unat (balance cfg (bank t) a) = unat (balance cfg (bank s1) a) +
      (\<Sum>k\<in>{k. \<exists>q. Projects s1 (r, k) = Some q \<and> owner q = a}.
         unat (grants (the (Projects s1 (r, k)))) + unat (support_area (the (Projects s1 (r, k)))) * unit)"
    using end_round_exact [OF inv assms(3,4,11) rnd(1,2) assms(12)] assms(13)
    unfolding unit_def by (auto simp: assms(6) sum rnd(3) add.assoc)
  let ?own = "{k. \<exists>q. Projects s1 (r, k) = Some q \<and> owner q = owner p}"
  have "finite (dom (projects_in s1 r))"
    using inv by (intro finite_projects_in) (simp add: qf_inv_def key_inv_def)
  then have "finite ?own" by (rule rev_finite_subset) (auto simp: projects_in_def)
  moreover have "h \<in> ?own" by (simp add: poj)
  ultimately have "unat (grants (the (Projects s1 (r, h)))) + unat (support_area (the (Projects s1 (r, h)))) * unit
      \<le> (\<Sum>k\<in>?own. unat (grants (the (Projects s1 (r, k)))) + unat (support_area (the (Projects s1 (r, k)))) * unit)"
    by (intro member_le_sum) simp_all
  with to [OF own] poj(3) have "unat (balance cfg (bank s) (owner p)) + unat (grants p) + ?net
      \<le> unat (balance cfg (bank t) (owner p))"
    by (simp add: poj(1) assms(6))
  with t sum assms(6) show ?thesis by auto
qed

text \<open>Account 5 has no balance and votes one ballot for the project of account 1.\<close>

theorem qf_unpaid_grants_drain_witness:
  "\<exists>s s1 t. bank s 5 = 0 \<and> vote (test_qf True) (Signed 5) 1 1 1 s = Ok s1 \<and> end_round (test_qf True) Root 1 s1 = Ok t \<and>
     unat (bank s 1) + 190 + 95 \<le> unat (bank t 1) \<and> unat (bank t 200) + 190 + 95 \<le> unat (bank s 200)"
proof -
  let ?c = "test_qf True" and ?s = "test_closed\<lparr>bank := (bank test_closed)(200 := 1000)\<rparr>"
  let ?p = "test_project\<lparr>total_votes := 2, grants := 190, support_area := 1\<rparr>"
  have cfg: "currency ?c = test_currency" "qf_account_id ?c = 200"
    "minimum_balance test_currency = 1" "free_balance test_currency l a = l a" for l a
    by (simp_all add: test_qf_def qf_account_id_def test_currency_def)
  obtain s1 where v: "vote ?c (Signed 5) 1 1 1 ?s = Ok s1" and b: "bank s1 = bank ?s"
    by (simp add: qf_eval rust_eval qf_states)
  have inv: "qf_inv ?c ?s"
    using test_qf_sound(2) [of True] qf_inv_storage [of ?s test_closed] by (simp add: qf_sound_def qf_good_def qf_storage.defs)
  have price: "cal_cost (project_votes ?s (vote_key ?c (1, 1)) 5) 1 = Some 1" "cal_amount ?c 1 False = Some 100"
    "cal_amount ?c 1 True = Some 5"
    by (simp_all add: cal_cost_def cal_amount_def rust_eval test_qf_def vote_key_def project_votes_def map_get_def test_closed_def)
  have proj: "Projects ?s (1, h) = Some q \<longleftrightarrow> h = 1 \<and> q = ?p" for h q
    by (auto simp: test_closed_def)
  then have one: "Projects ?s (1, 1) = Some ?p" by blast
  have own: "owner ?p = 1" "grants ?p = 190" by (simp_all add: test_project_def)
  have sums: "grants_sum ?s 1 = 190" "support_pool (rounds ?s 1) = 475"
    using test_grants_sum grants_sum_same [of ?s test_closed] by (simp_all add: test_closed_def rounds_def map_get_def)
  have bal: "bank ?s 200 = 1000" "bank ?s 1 = 2000" "bank ?s 5 = 0" by (simp_all add: test_closed_def)
  have pays: "pays_out (currency ?c) (qf_account_id ?c)" by (simp add: cfg test_currency_pays_out)
  have enough: "unat (minimum_balance (currency ?c)) + grants_sum ?s 1 + (unat (100 :: u128) - unat (5 :: u128))
      + unat (support_pool (rounds ?s 1)) \<le> unat (balance ?c (bank ?s) (qf_account_id ?c))"
    unfolding cfg sums bal by simp
  have owners: "\<forall>h q. Projects ?s (1, h) = Some q \<longrightarrow> owner q \<noteq> qf_account_id ?c \<and>
      minimum_balance (currency ?c) \<le> balance ?c (bank ?s) (owner q) \<and>
      unat (balance ?c (bank ?s) (owner q)) + grants_sum ?s 1 + (unat (100 :: u128) - unat (5 :: u128))
        + unat (support_pool (rounds ?s 1)) < 2 ^ 128"
  proof (intro allI impI)
    fix h q assume "Projects ?s (1, h) = Some q"
    then have "owner q = 1" using proj own(1) by metis
    then show "owner q \<noteq> qf_account_id ?c \<and>
      minimum_balance (currency ?c) \<le> balance ?c (bank ?s) (owner q) \<and>
      unat (balance ?c (bank ?s) (owner q)) + grants_sum ?s 1 + (unat (100 :: u128) - unat (5 :: u128))
        + unat (support_pool (rounds ?s 1)) < 2 ^ 128"
      by (simp only: cfg sums bal) simp
  qed
  have adm: "AdminOrigin ?c Root" by (simp add: test_qf_def)
  from qf_unpaid_grants_drain [OF inv test_prices_ok test_qf_lawful v b price one adm pays enough owners]
  obtain t where "end_round ?c Root 1 s1 = Ok t" "unat (bank ?s 1) + 190 + 95 \<le> unat (bank t 1)"
    "unat (bank t 200) + 190 + 95 \<le> unat (bank ?s 200)"
    unfolding cfg own sums by auto
  with v bal(3) show ?thesis by blast
qed

text \<open>
  Account 5 has no balance at all. It registers a project of its own in the round of the unit
  test, votes three ballots for it, and the round is ended.
\<close>

definition test_unpaid :: "(nat, nat, test_ledger) qf_outcome" where
  "test_unpaid =
     (let cfg = test_qf True in
      and_then (register_project cfg (Signed 5) 1 0 test_title test_closed) (\<lambda>s1.
      vote cfg (Signed 5) 1 0 3 s1))"

lemma test_unpaid_Ok: "\<exists>s. test_unpaid = Ok s \<and> bank s = bank test_closed \<and> Rounds s = [1 \<mapsto> \<lparr>ongoing = True, support_pool = 475, pre_tax_support_pool = 500,
      total_support_area = 1, total_tax = 65\<rparr>] \<and>
    Projects s = [(1, 1) \<mapsto> test_project\<lparr>total_votes := 2, grants := 190, support_area := 1\<rparr>,
      (1, 0) \<mapsto> test_project\<lparr>total_votes := 3, grants := 570, owner := 5\<rparr>]"
  by (simp add: test_unpaid_def qf_eval rust_eval qf_states)

text \<open>What is left then does not suffice for the others: after account 5 has received the grants of
  570 that nobody paid for, the final grants of 665 of an honestly funded project are not paid.\<close>

lemma qf_unpaid_grants_exhaust:
  "\<exists>s t. test_unpaid = Ok s \<and> end_round (test_qf True) Root 1 s = Ok t \<and>
     bank s 5 = 0 \<and> bank s 200 = 700 \<and> bank s 1 = 2000 \<and>
     bank t 5 = 570 \<and> bank t 200 = 130 \<and> bank t 1 = 2000"
proof -
  obtain s where s: "test_unpaid = Ok s" "bank s = bank test_closed"
    "Rounds s = [1 \<mapsto> \<lparr>ongoing = True, support_pool = 475, pre_tax_support_pool = 500,
      total_support_area = 1, total_tax = 65\<rparr>]"
    "Projects s = [(1, 1) \<mapsto> test_project\<lparr>total_votes := 2, grants := 190, support_area := 1\<rparr>,
      (1, 0) \<mapsto> test_project\<lparr>total_votes := 3, grants := 570, owner := 5\<rparr>]"
    using test_unpaid_Ok by blast
  have "snd ` {k \<in> dom (Projects s). fst k = 1} = {0, 1}" by (force simp: s(4))
  then have "prefix_keys (test_qf True) (Projects s) 1 = [0, 1]" by (simp add: test_qf_def test_keys_def)
  then have items: "iter_prefix (test_qf True) s 1 =
      [(0, test_project\<lparr>total_votes := 3, grants := 570, owner := 5\<rparr>),
       (1, test_project\<lparr>total_votes := 2, grants := 190, support_area := 1\<rparr>)]"
    by (simp add: iter_prefix_def projects_def map_get_def s(4))
  have "rounds s 1 = \<lparr>ongoing = True, support_pool = 475, pre_tax_support_pool = 500,
      total_support_area = 1, total_tax = 65\<rparr>"
    by (simp add: rounds_def map_get_def s(3))
  then have "\<exists>t. end_round (test_qf True) Root 1 s = Ok t \<and> bank t 5 = 570 \<and> bank t 200 = 130 \<and> bank t 1 = 2000"
    by (simp add: end_round_def Let_def items s(2,3) contains_key_def qf_ensure_admin_def)
      (simp add: qf_eval rust_eval s(2,3), simp add: test_closed_def test_project_def)
  then obtain t where "end_round (test_qf True) Root 1 s = Ok t" "bank t 5 = 570" "bank t 200 = 130" "bank t 1 = 2000"
    by blast
  moreover have "bank s 5 = 0" "bank s 200 = 700" "bank s 1 = 2000"
    by (simp_all add: s(2) test_closed_def)
  ultimately show ?thesis using s(1) by blast
qed

text \<open>Registration does not look at the round: a project with a name of the right length and a
  fresh hash is registered in a round that was never started or that has ended, where it cannot
  be voted for, although the comment says that a project is registered in an ongoing round.\<close>

lemma qf_register_any_round:
  assumes "NameMinLength cfg \<le> length title" and "length title \<le> NameMaxLength cfg"
    and "Projects s (r, h) = None" and "phase_of (Rounds s r) \<noteq> Ongoing" and "0 < b"
  shows "\<exists>t. register_project cfg (Signed who) r h title s = Ok t \<and> Projects t (r, h) \<noteq> None \<and>
    (\<exists>e. vote cfg (Signed voter) r h b t = Err (Module e) t \<and> e \<in> {RoundNotExist, RoundHasEnded})"
proof -
  have "phase_of (Rounds s r) = Unused \<and> Rounds s r = None \<or>
      (\<exists>rnd. Rounds s r = Some rnd \<and> \<not> ongoing rnd)"
    using assms(4) by (auto simp: phase_of_def split: option.splits if_splits)
  then show ?thesis
    using assms(1-3,5)
    by (auto simp: register_project_def contains_key_def Let_def vote_def rounds_def map_get_def
        map_insert_def ensure_def)
qed

end
