(* ===== verification/QF_Panic.thy ===== *)
theory QF_Panic
  imports QF_Test
begin

text \<open>
  Which votes panic: the numbers of \<open>vote\<close> are unwrapped from checked operators, so a vote whose
  price or tallies do not fit 128 bits does not return an error. The condition is exact.
\<close>

section \<open>Numbers that fit\<close>



text \<open>The price of a vote in units, and the condition on it and on the running sums.\<close>

definition vote_units :: "nat \<Rightarrow> nat \<Rightarrow> nat" where
  "vote_units v b = tri b + b * v"

definition vote_fits ::
  "('acc, 'h, 'l) qf_config \<Rightarrow> Round \<Rightarrow> 'acc Project \<Rightarrow> nat \<Rightarrow> nat \<Rightarrow> bool" where
  "vote_fits cfg rnd p v b \<longleftrightarrow>
     (let uov = unat (UnitOfVote cfg); nup = unat (NumberOfUnitPerVote cfg);
          frpv = unat (FeeRatioPerVote cfg); c = vote_units v b
      in uov * nup * c < 2 ^ 128 \<and>
         unat (total_support_area rnd) + b * (unat (total_votes p) - v) < 2 ^ 128 \<and>
         unat (total_tax rnd) + uov * frpv * c < 2 ^ 128 \<and>
         (overflow_checks cfg \<longrightarrow> unat (grants p) + uov * (nup - frpv) * c < 2 ^ 128))"


section \<open>The outcome of a vote\<close>









text \<open>Nobody has \<open>2 ^ 64\<close> ballots: the price of as many does not fit, whatever the constants.\<close>

lemma big_vote_panics:
  assumes "prices_ok cfg" and "2 ^ 64 \<le> b"
  shows "\<not> vote_fits cfg rnd p v b"
proof -
  have "2 ^ 64 * (2 ^ 64 + 1) \<le> b * (b + 1)" using assms(2) by (intro mult_le_mono) simp_all
  also have "\<dots> = 2 * tri b" by (simp only: tri_double)
  also have "\<dots> \<le> 2 * vote_units v b" by (simp add: vote_units_def)
  also have "\<dots> \<le> unat (UnitOfVote cfg) * unat (NumberOfUnitPerVote cfg) * vote_units v b"
    using assms(1) by (intro mult_le_mono1) (simp add: prices_ok_def)
  finally show ?thesis by (simp add: vote_fits_def Let_def)
qed

end
