(* ===== verification/QF_Ledger.thy ===== *)
theory QF_Ledger
  imports QF_Props QF_Life
begin

text \<open>
  Where the stored records of the quadratic-funding pallet come from: every record is owed to a
  call of the right account, and the amounts are recounted from the calls of a run.
\<close>

section \<open>Origins of the records\<close>

lemma dispatch_project_origin:
  assumes "qf_dispatch cfg x s = Ok t" and "Projects t (r, h) = Some p"
  shows "(\<exists>q. Projects s (r, h) = Some q \<and> owner q = owner p \<and> name q = name p) \<or>
    qf_origin x = Signed (owner p) \<and> qf_the_call x = RegisterProjectCall r h (name p) \<and>
    NameMinLength cfg \<le> length (name p) \<and> length (name p) \<le> NameMaxLength cfg"
proof (cases "qf_the_call x")
  case (RegisterProjectCall j g title)
  with assms show ?thesis
    by (auto simp: qf_dispatch_def map_insert_def elim!: register_projectE split: if_splits)
next
  case (VoteCall j g b)
  with assms have "vote cfg (qf_origin x) j g b s = Ok t" by (simp add: qf_dispatch_def)
  then show ?thesis
    by (cases rule: voteE)
      (use assms(2) in \<open>auto simp: map_insert_def contains_key_def projects_registered
        dest!: credit_vote_names split: if_splits\<close>)
qed (use assms in \<open>auto simp: qf_dispatch_def elim!: donateE start_roundE end_roundE\<close>)

lemma dispatch_ballot_origin:
  assumes "qf_dispatch cfg x s = Ok t" and "ProjectVotes t (vh, a) \<noteq> None"
  shows "ProjectVotes s (vh, a) \<noteq> None \<or>
    qf_origin x = Signed a \<and> (\<exists>r h b. qf_the_call x = VoteCall r h b \<and> vh = vote_key cfg (r, h) \<and> 0 < b)"
  using assms
  by (cases "qf_the_call x")
    (auto simp: qf_dispatch_def map_insert_def elim!: donateE start_roundE end_roundE register_projectE voteE
      split: if_splits)

lemma dispatch_round_origin:
  assumes "qf_dispatch cfg x s = Ok t"
  shows "phase_of (Rounds t r) \<noteq> Unused \<Longrightarrow>
      phase_of (Rounds s r) \<noteq> Unused \<or> AdminOrigin cfg (qf_origin x) \<and> qf_the_call x = StartRoundCall r"
    and "phase_of (Rounds t r) = Ended \<Longrightarrow>
      phase_of (Rounds s r) = Ended \<or> AdminOrigin cfg (qf_origin x) \<and> qf_the_call x = EndRoundCall r"
  using qf_admin_only [OF assms, of r] by auto

lemma phase_unused: "phase_of x = Unused \<longleftrightarrow> x = None"
  by (simp add: phase_of_def split: option.split)

text \<open>C9: nothing is stored that the right account has not asked for: after any run from genesis,
  every project was registered in the run by the account that owns it, and so is paid for it, under
  the name it has, whose length is within the limits; every ballot belongs to an account that signed
  a vote for that project; and every round was started, and if it has ended was ended, by a call
  from an administrator.\<close>

theorem qf_provenance:
  assumes "t = apply_extrinsics (qf_dispatch cfg) cs (qf_init l)"
  shows "(\<forall>r h p. Projects t (r, h) = Some p \<longrightarrow>
        NameMinLength cfg \<le> length (name p) \<and> length (name p) \<le> NameMaxLength cfg \<and>
        (\<exists>x\<in>set cs. qf_origin x = Signed (owner p) \<and> qf_the_call x = RegisterProjectCall r h (name p))) \<and>
    (\<forall>vh a v. ProjectVotes t (vh, a) = Some v \<longrightarrow>
        (\<exists>x\<in>set cs. qf_origin x = Signed a \<and>
           (\<exists>r h b. qf_the_call x = VoteCall r h b \<and> vh = vote_key cfg (r, h) \<and> 0 < b))) \<and>
    (\<forall>r rnd. Rounds t r = Some rnd \<longrightarrow>
        (\<exists>x\<in>set cs. AdminOrigin cfg (qf_origin x) \<and> qf_the_call x = StartRoundCall r) \<and>
        (\<not> ongoing rnd \<longrightarrow>
           (\<exists>x\<in>set cs. AdminOrigin cfg (qf_origin x) \<and> qf_the_call x = EndRoundCall r)))"
proof (intro conjI allI impI)
  note origin = qf_any.run_origin [where cfg = cfg and cs = cs and s = "qf_init l", folded assms]
  show "NameMinLength cfg \<le> length (name p)" "length (name p) \<le> NameMaxLength cfg"
    "\<exists>x\<in>set cs. qf_origin x = Signed (owner p) \<and> qf_the_call x = RegisterProjectCall r h (name p)"
    if p: "Projects t (r, h) = Some p" for r h p
  proof -
    let ?P = "\<lambda>s. \<exists>q. Projects s (r, h) = Some q \<and> owner q = owner p \<and> name q = name p"
    let ?Q = "\<lambda>x. qf_origin x = Signed (owner p) \<and> qf_the_call x = RegisterProjectCall r h (name p) \<and>
      NameMinLength cfg \<le> length (name p) \<and> length (name p) \<le> NameMaxLength cfg"
    have "?P (qf_init l) \<or> (\<exists>x\<in>set cs. ?Q x)"
    proof (rule origin)
      show "?P s \<or> ?Q x" if "qf_dispatch cfg x s = Ok u" and "?P u" for s x u
        using that dispatch_project_origin [OF that(1)] by metis
    qed (use p in blast)
    then show "NameMinLength cfg \<le> length (name p)" "length (name p) \<le> NameMaxLength cfg"
      "\<exists>x\<in>set cs. qf_origin x = Signed (owner p) \<and> qf_the_call x = RegisterProjectCall r h (name p)"
      by (auto simp: qf_init_def)
  qed
  show "\<exists>x\<in>set cs. qf_origin x = Signed a \<and>
      (\<exists>r h b. qf_the_call x = VoteCall r h b \<and> vh = vote_key cfg (r, h) \<and> 0 < b)"
    if "ProjectVotes t (vh, a) = Some v" for vh a v
    using origin [where P = "\<lambda>s. ProjectVotes s (vh, a) \<noteq> None", OF dispatch_ballot_origin] that
    by (simp add: qf_init_def)
  show "\<exists>x\<in>set cs. AdminOrigin cfg (qf_origin x) \<and> qf_the_call x = StartRoundCall r"
    if "Rounds t r = Some rnd" for r rnd
    using origin [where P = "\<lambda>s. phase_of (Rounds s r) \<noteq> Unused", OF dispatch_round_origin(1)] that
    by (simp add: qf_init_def phase_unused)
  show "\<exists>x\<in>set cs. AdminOrigin cfg (qf_origin x) \<and> qf_the_call x = EndRoundCall r"
    if "Rounds t r = Some rnd" and "\<not> ongoing rnd" for r rnd
    using origin [where P = "\<lambda>s. phase_of (Rounds s r) = Ended", OF dispatch_round_origin(2)] that
    by (simp add: qf_init_def phase_of_def)
qed

theorem qf_provenance_witness:
  "\<exists>x\<in>set test_qf_calls. qf_origin x = Signed 1 \<and> qf_the_call x = RegisterProjectCall 1 1 test_title"
proof -
  have "test_opened = apply_extrinsics (qf_dispatch (test_qf True)) test_qf_calls (qf_init test_balances)"
    by (simp add: test_run_opened)
  moreover have "Projects test_opened (1, 1) = Some test_project" by (simp add: test_opened_def)
  moreover have "owner test_project = 1" "name test_project = test_title" by (simp_all add: test_project_def)
  ultimately show ?thesis using qf_provenance [of test_opened "test_qf True" test_qf_calls test_balances] by metis
qed

section \<open>Amounts recounted from the calls\<close>

definition ballots_by :: "('acc, 'h, 'l) qf_config \<Rightarrow> 'h \<Rightarrow> 'acc \<Rightarrow> ('acc, 'h) qf_extrinsic \<Rightarrow> nat" where
  "ballots_by cfg vh a x =
     (case qf_the_call x of
        VoteCall r h b \<Rightarrow> if qf_origin x = Signed a \<and> vote_key cfg (r, h) = vh then unat b else 0
      | _ \<Rightarrow> 0)"

definition ballots_for :: "('acc, 'h, 'l) qf_config \<Rightarrow> 'h \<Rightarrow> ('acc, 'h) qf_extrinsic \<Rightarrow> nat" where
  "ballots_for cfg vh x =
     (case qf_the_call x of VoteCall r h b \<Rightarrow> if vote_key cfg (r, h) = vh then unat b else 0 | _ \<Rightarrow> 0)"

definition donated_to :: "u32 \<Rightarrow> ('acc, 'h) qf_extrinsic \<Rightarrow> nat" where
  "donated_to r x = (case qf_the_call x of DonateCall j amount \<Rightarrow> if j = r then unat amount else 0 | _ \<Rightarrow> 0)"

lemmas call_weights = ballots_by_def ballots_for_def donated_to_def

lemma dispatch_no_vote:
  assumes "qf_dispatch cfg x s = Ok t" and "\<forall>r h b. qf_the_call x \<noteq> VoteCall r h b"
  shows "ProjectVotes t = ProjectVotes s"
  using assms
  by (cases "qf_the_call x")
    (auto simp: qf_dispatch_def elim!: donateE start_roundE end_roundE register_projectE)

lemma dispatch_ballots:
  assumes "qf_good cfg s" and "qf_dispatch cfg x s = Ok t"
  shows "unat (project_votes t vh a) = unat (project_votes s vh a) + ballots_by cfg vh a x"
    and "votes_of (ballots t vh) = votes_of (ballots s vh) + ballots_for cfg vh x"
proof -
  have "unat (project_votes t vh a) = unat (project_votes s vh a) + ballots_by cfg vh a x \<and>
    votes_of (ballots t vh) = votes_of (ballots s vh) + ballots_for cfg vh x"
  proof (cases "\<exists>r h b. qf_the_call x = VoteCall r h b")
    case False
    with dispatch_no_vote [OF assms(2)] have "ProjectVotes t = ProjectVotes s" by blast
    with False show ?thesis
      by (auto simp: project_votes_def ballots_def call_weights split: qf_call.split)
  next
    case True
    then obtain r h b where c: "qf_the_call x = VoteCall r h b" by blast
    with assms(2) have ok: "vote cfg (qf_origin x) r h b s = Ok t" by (simp add: qf_dispatch_def)
    have good: "qf_inv cfg s" "prices_ok cfg" using assms(1) by (simp_all add: qf_good_def)
    from good ok show ?thesis
    proof (cases rule: voteE_numbers)
      case (1 who cost amount fee votes added p poj rnd)
      let ?k = "vote_key cfg (r, h)"
      have "votes_of (ballots t ?k) = unat (total_votes p) + unat b"
        using 1(8,24) by (simp add: tally_ok_def)
      moreover have "votes_of (ballots s ?k) = unat (total_votes p)"
        using good(1) 1(1) by (auto simp: qf_inv_def project_inv_def tally_ok_def)
      ultimately show ?thesis
        using 1(6) by (auto simp: call_weights c 1(17) ballots_insert [OF 1(5)] project_votes_def 1(5) storage_defs)
    qed
  qed
  then show "unat (project_votes t vh a) = unat (project_votes s vh a) + ballots_by cfg vh a x"
    and "votes_of (ballots t vh) = votes_of (ballots s vh) + ballots_for cfg vh x" by simp_all
qed

lemma dispatch_donations:
  assumes "qf_good cfg s" and "qf_dispatch cfg x s = Ok t"
  shows "unat (pre_tax_support_pool (rounds t r)) = unat (pre_tax_support_pool (rounds s r)) + donated_to r x"
proof (cases "qf_the_call x")
  case (DonateCall j amount)
  with assms(2) show ?thesis
    by (auto simp: qf_dispatch_def donated_to_def rounds_insert credit_donation_def bind_eq_Some_conv rust_arith
        elim!: donateE)
next
  case (StartRoundCall j)
  with assms(2) show ?thesis
    by (auto simp: qf_dispatch_def donated_to_def rounds_insert new_round_def rounds_def default_round_def
        storage_defs elim!: start_roundE)
next
  case (EndRoundCall j)
  with assms(2) show ?thesis
    by (auto simp: qf_dispatch_def donated_to_def rounds_insert elim!: end_roundE)
next
  case (RegisterProjectCall j h title)
  with assms(2) show ?thesis
    by (auto simp: qf_dispatch_def donated_to_def rounds_def elim!: register_projectE)
next
  case (VoteCall j h b)
  with assms(2) show ?thesis
    by (auto simp: qf_dispatch_def donated_to_def rounds_insert credit_area_sums elim!: voteE)
qed

text \<open>C8: what is stored is what was called for: after any run from genesis in which hashes do not
  collide, the ballots of an account for a project are the sum of the ballots of its successful
  votes, the votes of a registered project are the sum over the successful votes of everybody, and
  the donations of a round before the fee are the sum of its successful donations; nothing is lost,
  counted twice, or wrapped around, in either build.\<close>

theorem qf_call_recount:
  assumes "prices_ok cfg"
    and "admissible_run (qf_dispatch cfg) (no_collision cfg) cs (qf_init l)"
    and "t = apply_extrinsics (qf_dispatch cfg) cs (qf_init l)"
  shows "unat (project_votes t vh a) = over_run (qf_dispatch cfg) (ballots_by cfg vh a) cs (qf_init l) \<and>
    (\<forall>r h p. Projects t (r, h) = Some p \<longrightarrow>
       unat (total_votes p) = over_run (qf_dispatch cfg) (ballots_for cfg (vote_key cfg (r, h))) cs (qf_init l)) \<and>
    (\<forall>r. unat (pre_tax_support_pool (rounds t r)) = over_run (qf_dispatch cfg) (donated_to r) cs (qf_init l))"
proof -
  have good: "qf_good cfg (qf_init l)" using assms(1) by (simp add: qf_good_def qf_init_inv)
  note recount = qf.run_recount [OF _ good assms(2), folded assms(3)]
  have "unat (project_votes t vh a) = over_run (qf_dispatch cfg) (ballots_by cfg vh a) cs (qf_init l)"
    using recount [where f = "\<lambda>s. unat (project_votes s vh a)", OF dispatch_ballots(1)]
    by (simp add: qf_init_def project_votes_def map_get_def)
  moreover have "unat (total_votes p) = over_run (qf_dispatch cfg) (ballots_for cfg (vote_key cfg (r, h))) cs (qf_init l)"
    if "Projects t (r, h) = Some p" for r h p
  proof -
    have "qf_good cfg t" using qf.run_inv [OF good assms(2)] by (simp add: assms(3))
    with that have "unat (total_votes p) = votes_of (ballots t (vote_key cfg (r, h)))"
      by (auto simp: qf_good_def qf_inv_def project_inv_def tally_ok_def)
    also have "\<dots> = over_run (qf_dispatch cfg) (ballots_for cfg (vote_key cfg (r, h))) cs (qf_init l)"
      using recount [where f = "\<lambda>s. votes_of (ballots s (vote_key cfg (r, h)))", OF dispatch_ballots(2)]
      by (simp add: qf_init_def ballots_def votes_of_def)
    finally show ?thesis .
  qed
  moreover have "unat (pre_tax_support_pool (rounds t r)) = over_run (qf_dispatch cfg) (donated_to r) cs (qf_init l)" for r
    using recount [where f = "\<lambda>s. unat (pre_tax_support_pool (rounds s r))", OF dispatch_donations]
    by (simp add: qf_init_def rounds_def default_round_def map_get_def)
  ultimately show ?thesis by blast
qed

theorem qf_call_recount_witness:
  "over_run (qf_dispatch (test_qf True)) (donated_to 1) test_qf_calls (qf_init test_balances) = 500"
proof -
  from qf_call_recount [OF test_prices_ok test_no_collision test_run_opened [symmetric]]
  have "unat (pre_tax_support_pool (rounds test_opened 1)) =
      over_run (qf_dispatch (test_qf True)) (donated_to 1) test_qf_calls (qf_init test_balances)" by blast
  then show ?thesis by (simp add: test_opened_def rounds_def map_get_def)
qed

end
