(* ===== verification/Runtime.thy ===== *)
theory Runtime
  imports Moloch_Preserve QF_Payout
begin

text \<open>
  The runtime (\<open>runtime/src/lib.rs\<close>): its constants, the configurations of the two pallets, and
  their composition over one ledger. The pallets of the framework (balances, timestamp, sudo) and
  the derivation of accounts are parameters, collected in \<open>runtime_env\<close>.
\<close>

section \<open>Constants\<close>

definition MILLISECS_PER_BLOCK :: u64 where "MILLISECS_PER_BLOCK = 6000"
definition SLOT_DURATION :: u64 where "SLOT_DURATION = MILLISECS_PER_BLOCK"
definition MINUTES :: u32 where "MINUTES = 60000 div ucast MILLISECS_PER_BLOCK"
definition HOURS :: u32 where "HOURS = MINUTES * 60"
definition DAYS :: u32 where "DAYS = HOURS * 24"
definition BlockHashCount :: u32 where "BlockHashCount = 2400"
definition MaximumBlockLength :: u32 where "MaximumBlockLength = 5 * 1024 * 1024"
definition MinimumPeriod :: u64 where "MinimumPeriod = SLOT_DURATION div 2"
definition ExistentialDeposit :: u128 where "ExistentialDeposit = 500"
definition MaxLocks :: u32 where "MaxLocks = 50"
definition TransactionByteFee :: u128 where "TransactionByteFee = 1"

definition VoteUnit :: u128 where "VoteUnit = 1000000000"
definition NumberOfUnit :: u128 where "NumberOfUnit = 1000"
definition FeeRatio :: u128 where "FeeRatio = 60"
definition QuadraticFundingModuleId :: string where "QuadraticFundingModuleId = ''py/quafd''"
definition qf_NameMinLength :: nat where "qf_NameMinLength = 3"
definition qf_NameMaxLength :: nat where "qf_NameMaxLength = 32"

definition MolochV1ModuleId :: string where "MolochV1ModuleId = ''py/moloc''"
definition runtime_MaxVotingPeriodLength :: u128 where "runtime_MaxVotingPeriodLength = 10 ^ 18"
definition runtime_MaxGracePeriodLength :: u128 where "runtime_MaxGracePeriodLength = 10 ^ 18"
definition runtime_MaxDilutionBound :: u128 where "runtime_MaxDilutionBound = 10 ^ 18"
definition runtime_MaxShares :: u128 where "runtime_MaxShares = 10 ^ 18"

lemmas runtime_constants =
  MILLISECS_PER_BLOCK_def SLOT_DURATION_def MINUTES_def HOURS_def DAYS_def MinimumPeriod_def
  VoteUnit_def NumberOfUnit_def FeeRatio_def QuadraticFundingModuleId_def qf_NameMinLength_def
  qf_NameMaxLength_def MolochV1ModuleId_def runtime_MaxVotingPeriodLength_def
  runtime_MaxGracePeriodLength_def runtime_MaxDilutionBound_def runtime_MaxShares_def

section \<open>Configurations of the pallets\<close>

record ('acc, 'h, 'l) runtime_env =
  env_currency :: "('acc, 'l) currency"
  env_into_account :: "string \<Rightarrow> 'acc"
  env_into_sub_account :: "string \<Rightarrow> string \<Rightarrow> 'acc"
  env_default_account :: 'acc
  env_overflow_checks :: bool
  env_hash_of :: "'h \<times> u32 \<Rightarrow> 'h"
  env_prefix_keys :: "(u32 \<times> 'h \<rightharpoonup> 'acc Project) \<Rightarrow> u32 \<Rightarrow> 'h list"

definition ensure_root :: "'acc origin \<Rightarrow> bool" where
  "ensure_root og = (case og of Root \<Rightarrow> True | _ \<Rightarrow> False)"

definition runtime_qf :: "('acc, 'h, 'l) runtime_env \<Rightarrow> ('acc, 'h, 'l) qf_config" where
  "runtime_qf env =
     \<lparr>currency = env_currency env, ModuleId = QuadraticFundingModuleId,
      into_account = env_into_account env, into_sub_account = env_into_sub_account env,
      default_account = env_default_account env, overflow_checks = env_overflow_checks env,
      AdminOrigin = ensure_root, UnitOfVote = VoteUnit, NumberOfUnitPerVote = NumberOfUnit,
      FeeRatioPerVote = FeeRatio, NameMinLength = qf_NameMinLength, NameMaxLength = qf_NameMaxLength,
      hash_of = env_hash_of env, prefix_keys = env_prefix_keys env\<rparr>"

definition runtime_moloch :: "('acc, 'h, 'l) runtime_env \<Rightarrow> ('acc, 'l) moloch_config" where
  "runtime_moloch env =
     \<lparr>currency = env_currency env, ModuleId = MolochV1ModuleId,
      into_account = env_into_account env, into_sub_account = env_into_sub_account env,
      default_account = env_default_account env, overflow_checks = env_overflow_checks env,
      MaxVotingPeriodLength = runtime_MaxVotingPeriodLength,
      MaxGracePeriodLength = runtime_MaxGracePeriodLength,
      MaxDilutionBound = runtime_MaxDilutionBound, MaxShares = runtime_MaxShares\<rparr>"

text \<open>What the pallets need of the constants.\<close>

lemma runtime_prices_ok: "prices_ok (runtime_qf env)"
  by (simp add: prices_ok_def runtime_qf_def runtime_constants)

lemma runtime_MaxShares_pos: "0 < MaxShares (runtime_moloch env)"
  by (simp add: runtime_moloch_def runtime_constants)

lemma runtime_dilution_fits:
  "unat (MaxShares (runtime_moloch env)) * unat (MaxDilutionBound (runtime_moloch env)) < 2 ^ 128"
  by (simp add: runtime_moloch_def runtime_constants)

section \<open>The composed state\<close>

text \<open>
  \<open>construct_runtime!\<close> gives each pallet its own storage under its own name; the ledger and the
  list of events are shared.
\<close>

datatype ('acc, 'h) runtime_event =
    MolochV1Event "'acc moloch_event"
  | QuadraticFundingEvent "('acc, 'h) qf_event"

record ('acc, 'h, 'l) runtime_state =
  QuadraticFunding :: "('acc, 'h) qf_storage"
  MolochV1 :: "'acc moloch_storage"
  Balances :: 'l
  System_events :: "('acc, 'h) runtime_event list"

definition moloch_world :: "('acc, 'h, 'l) runtime_state \<Rightarrow> ('acc, 'l) moloch" where
  "moloch_world rs = moloch_storage.extend (MolochV1 rs) (moloch.fields (Balances rs) [])"

definition put_moloch ::
  "('acc, 'h, 'l) runtime_state \<Rightarrow> ('acc, 'l) moloch \<Rightarrow> ('acc, 'h, 'l) runtime_state" where
  "put_moloch rs w = rs\<lparr>MolochV1 := moloch_storage.truncate w, Balances := ledger w,
     System_events := System_events rs @ map MolochV1Event (moloch_events w)\<rparr>"

definition qf_world :: "('acc, 'h, 'l) runtime_state \<Rightarrow> ('acc, 'h, 'l) qf" where
  "qf_world rs = qf_storage.extend (QuadraticFunding rs) (qf.fields (Balances rs) [])"

definition put_qf ::
  "('acc, 'h, 'l) runtime_state \<Rightarrow> ('acc, 'h, 'l) qf \<Rightarrow> ('acc, 'h, 'l) runtime_state" where
  "put_qf rs w = rs\<lparr>QuadraticFunding := qf_storage.truncate w, Balances := bank w,
     System_events := System_events rs @ map QuadraticFundingEvent (qf_events w)\<rparr>"

datatype ('acc, 'h) runtime_call =
    QuadraticFundingCall "'h qf_call"
  | MolochV1Call "'acc moloch_call"

datatype runtime_error = QuadraticFundingError qf_error | MolochV1Error moloch_error

record ('acc, 'h) runtime_extrinsic =
  block_time :: u64
  caller :: "'acc origin"
  runtime_the_call :: "('acc, 'h) runtime_call"

definition runtime_dispatch ::
  "('acc, 'h, 'l) runtime_env \<Rightarrow> ('acc, 'h) runtime_extrinsic \<Rightarrow> ('acc, 'h, 'l) runtime_state
     \<Rightarrow> (runtime_error, ('acc, 'h, 'l) runtime_state) outcome" where
  "runtime_dispatch env x rs =
     (case runtime_the_call x of
        QuadraticFundingCall c \<Rightarrow>
          map_outcome QuadraticFundingError (put_qf rs)
            (qf_dispatch (runtime_qf env) \<lparr>qf_origin = caller x, qf_the_call = c\<rparr> (qf_world rs))
      | MolochV1Call c \<Rightarrow>
          map_outcome MolochV1Error (put_moloch rs)
            (moloch_dispatch (runtime_moloch env)
               \<lparr>at_time = block_time x, signer = caller x, the_call = c\<rparr> (moloch_world rs)))"

section \<open>The pallets and the genesis\<close>

datatype pallet_name =
    System_pallet | RandomnessCollectiveFlip_pallet | Timestamp_pallet | Aura_pallet | Grandpa_pallet
  | Balances_pallet | TransactionPayment_pallet | Sudo_pallet | QuadraticFunding_pallet | MolochV1_pallet

datatype pallet_part = Module_part | Call_part | Config_part | Storage_part | Event_part | Inherent_part

definition construct_runtime :: "(pallet_name \<times> pallet_part list) list" where
  "construct_runtime =
     [(System_pallet, [Module_part, Call_part, Config_part, Storage_part, Event_part]),
      (RandomnessCollectiveFlip_pallet, [Module_part, Call_part, Storage_part]),
      (Timestamp_pallet, [Module_part, Call_part, Storage_part, Inherent_part]),
      (Aura_pallet, [Module_part, Config_part, Inherent_part]),
      (Grandpa_pallet, [Module_part, Call_part, Storage_part, Config_part, Event_part]),
      (Balances_pallet, [Module_part, Call_part, Storage_part, Config_part, Event_part]),
      (TransactionPayment_pallet, [Module_part, Storage_part]),
      (Sudo_pallet, [Module_part, Call_part, Config_part, Storage_part, Event_part]),
      (QuadraticFunding_pallet, [Module_part, Call_part, Storage_part, Event_part]),
      (MolochV1_pallet, [Module_part, Call_part, Storage_part, Event_part])]"

text \<open>
  The genesis configuration of the runtime has a field for every pallet that is listed with its
  \<open>Config\<close> part, and the genesis of these pallets is built in the order of the list. The genesis of
  the framework's pallets has been built in the given ledger.
\<close>

definition genesis_pallets :: "pallet_name list" where
  "genesis_pallets = map fst (filter (\<lambda>(p, parts). Config_part \<in> set parts) construct_runtime)"

definition build_pallet :: "('acc, 'h, 'l) runtime_env \<Rightarrow> pallet_name \<Rightarrow> 'l \<Rightarrow> 'l" where
  "build_pallet env p l =
     (case p of
        QuadraticFunding_pallet \<Rightarrow> qf_genesis (runtime_qf env) l
      | MolochV1_pallet \<Rightarrow> moloch_genesis (runtime_moloch env) l
      | _ \<Rightarrow> l)"

definition runtime_genesis :: "('acc, 'h, 'l) runtime_env \<Rightarrow> 'l \<Rightarrow> ('acc, 'h, 'l) runtime_state" where
  "runtime_genesis env l =
     \<lparr>QuadraticFunding = qf_storage.truncate (qf_init l), MolochV1 = moloch_storage.truncate (moloch_init l),
      Balances = fold (build_pallet env) genesis_pallets l, System_events = []\<rparr>"

text \<open>
  Neither of the two pallets is listed with \<open>Config\<close>: the genesis code of both, which endows their
  accounts with the minimum balance, is never run in this runtime.
\<close>

lemma runtime_genesis_ledger [simp]: "Balances (runtime_genesis env l) = l"
  by (simp add: runtime_genesis_def genesis_pallets_def construct_runtime_def build_pallet_def)

lemma pallets_not_endowed:
  "QuadraticFunding_pallet \<notin> set genesis_pallets" "MolochV1_pallet \<notin> set genesis_pallets"
  by (simp_all add: genesis_pallets_def construct_runtime_def)

section \<open>Runtime API and RPC of quadratic funding\<close>

text \<open>The API functions are the views of the pallet on the runtime's state; \<open>None\<close> is a panic.\<close>

definition api_vote_cost ::
  "('acc, 'h, 'l) runtime_env \<Rightarrow> ('acc, 'h, 'l) runtime_state \<Rightarrow> 'acc \<Rightarrow> u32 \<Rightarrow> 'h \<Rightarrow> u32 \<Rightarrow> u32 option" where
  "api_vote_cost env rs who round_id hash ballot =
     vote_cost (runtime_qf env) who round_id hash ballot (qf_world rs)"

definition api_projects_per_round ::
  "('acc, 'h, 'l) runtime_env \<Rightarrow> ('acc, 'h, 'l) runtime_state \<Rightarrow> u32 \<Rightarrow> ('h \<times> u32 \<times> u32 \<times> u32) list option" where
  "api_projects_per_round env rs round_id = projects_per_round (runtime_qf env) round_id (qf_world rs)"

section \<open>Reading and writing the parts\<close>

lemma moloch_world_put [simp]: "moloch_storage.truncate (moloch_world rs) = MolochV1 rs"
  by (simp add: moloch_world_def moloch_storage.defs)

lemma qf_world_put [simp]: "qf_storage.truncate (qf_world rs) = QuadraticFunding rs"
  by (simp add: qf_world_def qf_storage.defs)

lemma world_ledgers [simp]:
  "ledger (moloch_world rs) = Balances rs" "bank (qf_world rs) = Balances rs"
  by (simp_all add: moloch_world_def qf_world_def moloch_storage.defs qf_storage.defs
      moloch.defs qf.defs)

lemma put_moloch_frame [simp]:
  "QuadraticFunding (put_moloch rs w) = QuadraticFunding rs" "Balances (put_moloch rs w) = ledger w"
  "MolochV1 (put_moloch rs w) = moloch_storage.truncate w"
  by (simp_all add: put_moloch_def)

lemma put_qf_frame [simp]:
  "MolochV1 (put_qf rs w) = MolochV1 rs" "Balances (put_qf rs w) = bank w"
  "QuadraticFunding (put_qf rs w) = qf_storage.truncate w"
  by (simp_all add: put_qf_def)

lemma moloch_inv_storage:
  assumes "moloch_storage.truncate s = moloch_storage.truncate t"
  shows "moloch_inv cfg s \<longleftrightarrow> moloch_inv cfg t"
  using assms by (simp add: moloch_storage.defs moloch_inv_defs votes_ok_def shares_sum_def)

lemma total_owed_storage:
  assumes "qf_storage.truncate s = qf_storage.truncate t"
  shows "total_owed s = total_owed t"
proof -
  have "owed s r = owed t r" for r
    using assms by (simp add: qf_storage.defs owed_def rounds_def grants_sum_def projects_in_def cong: if_cong)
  then show ?thesis using assms by (simp add: qf_storage.defs total_owed_def)
qed

end
