(* ===== verification/Runtime_Props.thy ===== *)
theory Runtime_Props
  imports Runtime QF_Test Moloch_Props
begin

text \<open>
  Properties of the runtime as a whole: both pallets keep their invariants in any mixture of
  calls, neither can take from accounts that have nothing to do with a call, and the money that
  the quadratic-funding pallet holds stays sufficient while Moloch calls run on the same ledger.
\<close>

section \<open>What a call may take from\<close>

lemma moloch_bystander:
  assumes cur: "lawful_currency (currency cfg)" and ok: "moloch_dispatch cfg x s = Ok t"
    and a: "signer x \<noteq> Signed a" "a \<noteq> moloch_account_id cfg" "a \<noteq> custody_account cfg"
  shows "unat (balance cfg (ledger s) a) \<le> unat (balance cfg (ledger t) a)"
proof (cases "the_call x")
  case (SummonCall pd vp gp aw db dep rew)
  with ok show ?thesis by (auto simp: moloch_dispatch_def elim!: summonE)
next
  case (CustodyCall tribute)
  with ok a show ?thesis by (auto simp: moloch_dispatch_def elim!: custodyE intro!: pay_to_ge [OF cur])
next
  case (SubmitProposalCall b tribute requested info)
  with ok a show ?thesis
    by (auto simp: moloch_dispatch_def elim!: submit_proposalE intro!: pay_to_ge [OF cur])
next
  case (SubmitVoteCall idx unit)
  with ok show ?thesis by (auto simp: moloch_dispatch_def elim!: submit_voteE)
next
  case (ProcessProposalCall idx)
  with ok have "process_proposal cfg (at_time x) (signer x) idx s = Ok t"
    by (simp add: moloch_dispatch_def Let_def)
  then obtain who where "process_checked cfg who idx s = Ok t" by (cases rule: process_proposalE)
  then show ?thesis
  proof (cases rule: process_checkedE)
    case (1 tr bound granted p' ev s4 rest ev')
    have "unat (balance cfg (ledger s) a) \<le> unat (balance cfg (ledger s4) a)"
      using 1(5) by (cases rule: settledE) (auto intro!: pay_to_ge [OF cur] simp: a(2,3))
    also have "\<dots> \<le> unat (balance cfg (ledger t) a)"
      unfolding 1(6) by (auto intro!: order_trans [OF pay_to_ge pay_to_ge] simp: cur a(2))
    finally show ?thesis .
  qed
next
  case (RagequitCall burn)
  with ok a show ?thesis
    by (auto simp: moloch_dispatch_def elim!: ragequitE intro!: pay_to_ge [OF cur])
next
  case (AbortCall idx)
  with ok a show ?thesis
    by (auto simp: moloch_dispatch_def Let_def elim!: abortE intro!: pay_to_ge [OF cur])
next
  case (UpdateDelegateCall key)
  with ok show ?thesis by (auto simp: moloch_dispatch_def elim!: update_delegateE)
qed

lemma qf_bystander:
  assumes cur: "lawful_currency (currency cfg)" and ok: "qf_dispatch cfg x s = Ok t"
    and a: "qf_origin x \<noteq> Signed a" "a \<noteq> qf_account_id cfg"
  shows "unat (balance cfg (bank s) a) \<le> unat (balance cfg (bank t) a)"
proof (cases "qf_the_call x")
  case (DonateCall r amount)
  with ok a show ?thesis by (auto simp: qf_dispatch_def elim!: donateE intro!: pay_to_ge [OF cur])
next
  case (StartRoundCall r)
  with ok show ?thesis by (auto simp: qf_dispatch_def elim!: start_roundE)
next
  case (EndRoundCall r)
  with ok show ?thesis
    using pay_projects_to [OF cur a(2)] by (auto simp: qf_dispatch_def elim!: end_roundE)
next
  case (RegisterProjectCall r h title)
  with ok show ?thesis by (auto simp: qf_dispatch_def elim!: register_projectE)
next
  case (VoteCall r h b)
  with ok a show ?thesis by (auto simp: qf_dispatch_def elim!: voteE intro!: pay_to_ge [OF cur])
qed

section \<open>The composed dispatch\<close>

lemma runtime_Ok_cases:
  assumes "runtime_dispatch env x rs = Ok rt"
  obtains (funding) c w where "runtime_the_call x = QuadraticFundingCall c"
    "qf_dispatch (runtime_qf env) \<lparr>qf_origin = caller x, qf_the_call = c\<rparr> (qf_world rs) = Ok w"
    "rt = put_qf rs w"
  | (moloch) c w where "runtime_the_call x = MolochV1Call c"
    "moloch_dispatch (runtime_moloch env) \<lparr>at_time = block_time x, signer = caller x, the_call = c\<rparr> (moloch_world rs) = Ok w"
    "rt = put_moloch rs w"
  using assms
proof (cases "runtime_the_call x")
  case (QuadraticFundingCall c)
  with assms show thesis
    by (cases "qf_dispatch (runtime_qf env) \<lparr>qf_origin = caller x, qf_the_call = c\<rparr> (qf_world rs)")
      (auto simp: runtime_dispatch_def intro: funding)
next
  case (MolochV1Call c)
  with assms show thesis
    by (cases "moloch_dispatch (runtime_moloch env) \<lparr>at_time = block_time x, signer = caller x, the_call = c\<rparr> (moloch_world rs)")
      (auto simp: runtime_dispatch_def intro: moloch)
qed

lemma put_moloch_same: "put_moloch rs (moloch_world rs) = rs"
  by (simp add: put_moloch_def moloch_world_def moloch_storage.defs moloch.defs)

lemma put_qf_same: "put_qf rs (qf_world rs) = rs"
  by (simp add: put_qf_def qf_world_def qf_storage.defs qf.defs)

lemma runtime_dispatch_err:
  assumes "runtime_dispatch env x rs = Err e rt"
  shows "rt = rs"
proof (cases "runtime_the_call x")
  case (QuadraticFundingCall c)
  with assms show ?thesis
    by (cases "qf_dispatch (runtime_qf env) \<lparr>qf_origin = caller x, qf_the_call = c\<rparr> (qf_world rs)")
      (auto simp: runtime_dispatch_def put_qf_same dest!: qf_dispatch_err)
next
  case (MolochV1Call c)
  with assms show ?thesis
    by (cases "moloch_dispatch (runtime_moloch env) \<lparr>at_time = block_time x, signer = caller x, the_call = c\<rparr> (moloch_world rs)")
      (auto simp: runtime_dispatch_def put_moloch_same dest!: moloch_dispatch_err)
qed

text \<open>The two invariants together, and the calls for which they are kept.\<close>

definition runtime_inv :: "('acc, 'h, 'l) runtime_env \<Rightarrow> ('acc, 'h, 'l) runtime_state \<Rightarrow> bool" where
  "runtime_inv env rs \<longleftrightarrow>
     moloch_inv (runtime_moloch env) (moloch_world rs) \<and> qf_inv (runtime_qf env) (qf_world rs)"

definition runtime_adm ::
  "('acc, 'h, 'l) runtime_env \<Rightarrow> ('acc, 'h) runtime_extrinsic \<Rightarrow> ('acc, 'h, 'l) runtime_state \<Rightarrow> bool" where
  "runtime_adm env x rs \<longleftrightarrow>
     (case runtime_the_call x of
        QuadraticFundingCall c \<Rightarrow>
          no_collision (runtime_qf env) \<lparr>qf_origin = caller x, qf_the_call = c\<rparr> (qf_world rs)
      | MolochV1Call c \<Rightarrow>
          first_summon \<lparr>at_time = block_time x, signer = caller x, the_call = c\<rparr> (moloch_world rs))"

lemma qf_inv_put_moloch [simp]: "qf_inv cfg (qf_world (put_moloch rs w)) \<longleftrightarrow> qf_inv cfg (qf_world rs)"
  by (rule qf_inv_storage) simp

lemma moloch_inv_put_qf [simp]: "moloch_inv cfg (moloch_world (put_qf rs w)) \<longleftrightarrow> moloch_inv cfg (moloch_world rs)"
  by (rule moloch_inv_storage) simp

lemma qf_inv_put_qf [simp]: "qf_inv cfg (qf_world (put_qf rs w)) \<longleftrightarrow> qf_inv cfg w"
  by (rule qf_inv_storage) simp

lemma moloch_inv_put_moloch [simp]: "moloch_inv cfg (moloch_world (put_moloch rs w)) \<longleftrightarrow> moloch_inv cfg w"
  by (rule moloch_inv_storage) simp

lemma runtime_dispatch_inv:
  assumes "runtime_inv env rs" and "runtime_adm env x rs" and "runtime_dispatch env x rs = Ok rt"
  shows "runtime_inv env rt"
  using assms(3)
proof (cases rule: runtime_Ok_cases)
  case (funding c w)
  have "qf_inv (runtime_qf env) w"
    using assms(1,2) by (intro qf_dispatch_inv [OF _ runtime_prices_ok _ funding(2)])
      (simp_all add: runtime_inv_def runtime_adm_def funding(1))
  with assms(1) show ?thesis by (simp add: runtime_inv_def funding(3))
next
  case (moloch c w)
  have "moloch_inv (runtime_moloch env) w"
    using moloch_dispatch_inv [OF conjI [OF _ runtime_MaxShares_pos] _ moloch(2)] assms(1,2)
    by (simp add: runtime_inv_def runtime_adm_def moloch(1))
  with assms(1) show ?thesis by (simp add: runtime_inv_def moloch(3))
qed

text \<open>Which accounts a call may take from: its caller's and the accounts of the pallet it goes to.\<close>

definition runtime_concerns ::
  "('acc, 'h, 'l) runtime_env \<Rightarrow> ('acc, 'h) runtime_extrinsic \<Rightarrow> 'acc \<Rightarrow> bool" where
  "runtime_concerns env x a \<longleftrightarrow>
     caller x = Signed a \<or>
     (case runtime_the_call x of
        QuadraticFundingCall c \<Rightarrow> a = qf_account_id (runtime_qf env)
      | MolochV1Call c \<Rightarrow> a = moloch_account_id (runtime_moloch env) \<or> a = custody_account (runtime_moloch env))"

lemma runtime_bystander:
  assumes "lawful_currency (env_currency env)" and ok: "runtime_dispatch env x rs = Ok rt"
    and "\<not> runtime_concerns env x a"
  shows "unat (free_balance (env_currency env) (Balances rs) a) \<le> unat (free_balance (env_currency env) (Balances rt) a)"
  using ok
proof (cases rule: runtime_Ok_cases)
  case (funding c w)
  with qf_bystander [OF _ funding(2), of a] assms(1,3) show ?thesis
    by (simp add: runtime_concerns_def) (simp add: runtime_qf_def)
next
  case (moloch c w)
  with moloch_bystander [OF _ moloch(2), of a] assms(1,3) show ?thesis
    by (simp add: runtime_concerns_def) (simp add: runtime_moloch_def)
qed

interpretation rt: bystander_pallet "runtime_dispatch env" "runtime_adm env" "runtime_inv env"
    "\<lambda>rs a. unat (free_balance (env_currency env) (Balances rs) a)"
    "\<lambda>x a. runtime_concerns env x a \<or> \<not> lawful_currency (env_currency env)" for env
  by unfold_locales (auto intro: runtime_dispatch_inv runtime_bystander dest: runtime_dispatch_err)

section \<open>Money shared by the pallets\<close>

text \<open>The accounts derived from the module ids are three different accounts.\<close>

definition accounts_distinct :: "('acc, 'h, 'l) runtime_env \<Rightarrow> bool" where
  "accounts_distinct env \<longleftrightarrow>
     distinct [qf_account_id (runtime_qf env), moloch_account_id (runtime_moloch env),
       custody_account (runtime_moloch env)]"

definition runtime_paid ::
  "('acc, 'h, 'l) runtime_env \<Rightarrow> ('acc, 'h) runtime_extrinsic \<Rightarrow> ('acc, 'h, 'l) runtime_state \<Rightarrow> bool" where
  "runtime_paid env x rs \<longleftrightarrow> runtime_adm env x rs \<and>
     (case runtime_the_call x of
        QuadraticFundingCall c \<Rightarrow>
          funded (runtime_qf env) \<lparr>qf_origin = caller x, qf_the_call = c\<rparr> (qf_world rs)
      | MolochV1Call c \<Rightarrow> caller x \<noteq> Signed (qf_account_id (runtime_qf env)))"

definition runtime_sound :: "('acc, 'h, 'l) runtime_env \<Rightarrow> ('acc, 'h, 'l) runtime_state \<Rightarrow> bool" where
  "runtime_sound env rs \<longleftrightarrow>
     lawful_currency (env_currency env) \<and> lawful_iteration (runtime_qf env) \<and> accounts_distinct env \<and>
     runtime_inv env rs \<and> solvent (runtime_qf env) (qf_world rs)"

lemma runtime_qf_currency [simp]: "currency (runtime_qf env) = env_currency env"
  by (simp add: runtime_qf_def)

lemma total_owed_put [simp]:
  "total_owed (qf_world (put_moloch rs w)) = total_owed (qf_world rs)"
  "total_owed (qf_world (put_qf rs v)) = total_owed v"
  by (rule total_owed_storage, simp)+

lemma runtime_dispatch_sound:
  assumes sound: "runtime_sound env rs" and paid: "runtime_paid env x rs"
    and ok: "runtime_dispatch env x rs = Ok rt"
  shows "runtime_sound env rt"
proof -
  have "solvent (runtime_qf env) (qf_world rt)"
    using ok
  proof (cases rule: runtime_Ok_cases)
    case (funding c w)
    have "solvent (runtime_qf env) w"
      using sound paid
      by (intro qf_dispatch_solvent [OF _ _ _ runtime_prices_ok _ _ funding(2)])
        (simp_all add: runtime_sound_def runtime_inv_def runtime_paid_def funding(1))
    then show ?thesis by (simp add: solvent_def funding(3))
  next
    case (moloch c w)
    have "\<not> runtime_concerns env x (qf_account_id (runtime_qf env))"
      using sound paid by (auto simp: runtime_concerns_def runtime_sound_def accounts_distinct_def
          runtime_paid_def moloch(1))
    from runtime_bystander [OF _ ok this] sound show ?thesis
      by (simp add: solvent_def runtime_sound_def moloch(3))
  qed
  moreover have "runtime_inv env rt"
    by (rule runtime_dispatch_inv [OF _ _ ok]) (use sound paid in \<open>simp_all add: runtime_sound_def runtime_paid_def\<close>)
  ultimately show ?thesis using sound by (simp add: runtime_sound_def)
qed

interpretation rt_paid: pallet "runtime_dispatch env" "runtime_paid env" "runtime_sound env" for env
  by unfold_locales (auto intro: runtime_dispatch_sound dest: runtime_dispatch_err)

section \<open>Money that was not paid\<close>

text \<open>
  The calls the budget of the quadratic-funding account is drawn up for: hashes do not collide, and
  nobody signs a Moloch call with the account of the pallet, which has no key. Everything else is
  allowed: unpaid donations and votes, and summoning again.
\<close>

definition runtime_unforged ::
  "('acc, 'h, 'l) runtime_env \<Rightarrow> ('acc, 'h) runtime_extrinsic \<Rightarrow> ('acc, 'h, 'l) runtime_state \<Rightarrow> bool" where
  "runtime_unforged env x rs \<longleftrightarrow>
     (case runtime_the_call x of
        QuadraticFundingCall c \<Rightarrow>
          no_collision (runtime_qf env) \<lparr>qf_origin = caller x, qf_the_call = c\<rparr> (qf_world rs)
      | MolochV1Call c \<Rightarrow> caller x \<noteq> Signed (qf_account_id (runtime_qf env)))"

text \<open>What a call is credited with without paying it.\<close>

definition runtime_unpaid ::
  "('acc, 'h, 'l) runtime_env \<Rightarrow> ('acc, 'h) runtime_extrinsic \<Rightarrow> ('acc, 'h, 'l) runtime_state \<Rightarrow> nat" where
  "runtime_unpaid env x rs =
     (case runtime_the_call x of
        QuadraticFundingCall c \<Rightarrow> unpaid (runtime_qf env) \<lparr>qf_origin = caller x, qf_the_call = c\<rparr> (qf_world rs)
      | MolochV1Call c \<Rightarrow> 0)"

definition funding_ok :: "('acc, 'h, 'l) runtime_env \<Rightarrow> ('acc, 'h, 'l) runtime_state \<Rightarrow> bool" where
  "funding_ok env rs \<longleftrightarrow>
     lawful_currency (env_currency env) \<and> lawful_iteration (runtime_qf env) \<and> accounts_distinct env \<and>
     qf_inv (runtime_qf env) (qf_world rs)"

lemma runtime_dispatch_funding_ok:
  assumes "funding_ok env rs" and "runtime_unforged env x rs" and ok: "runtime_dispatch env x rs = Ok rt"
  shows "funding_ok env rt"
  using ok
proof (cases rule: runtime_Ok_cases)
  case (funding c w)
  have "qf_inv (runtime_qf env) w"
    using assms(1,2) by (intro qf_dispatch_inv [OF _ runtime_prices_ok _ funding(2)])
      (simp_all add: funding_ok_def runtime_unforged_def funding(1))
  with assms(1) show ?thesis by (simp add: funding_ok_def funding(3))
next
  case (moloch c w)
  with assms(1) show ?thesis by (simp add: funding_ok_def)
qed

lemma runtime_dispatch_covered:
  assumes "funding_ok env rs" and "runtime_unforged env x rs" and ok: "runtime_dispatch env x rs = Ok rt"
  defines "funds \<equiv> \<lambda>rs. unat (free_balance (env_currency env) (Balances rs) (qf_account_id (runtime_qf env)))"
  shows "total_owed (qf_world rt) + funds rs \<le> total_owed (qf_world rs) + funds rt + runtime_unpaid env x rs"
  using ok
proof (cases rule: runtime_Ok_cases)
  case (funding c w)
  have "covered (runtime_qf env) (unpaid (runtime_qf env) \<lparr>qf_origin = caller x, qf_the_call = c\<rparr> (qf_world rs))
      (qf_world rs) w"
    using assms(1) by (intro qf_dispatch_covered [OF _ _ _ runtime_prices_ok funding(2)]) (simp_all add: funding_ok_def)
  then show ?thesis by (simp add: covered_def funding(1,3) runtime_unpaid_def funds_def)
next
  case (moloch c w)
  have "\<not> runtime_concerns env x (qf_account_id (runtime_qf env))"
    using assms(1,2) by (auto simp: runtime_concerns_def funding_ok_def accounts_distinct_def
        runtime_unforged_def moloch(1))
  from runtime_bystander [OF _ ok this] assms(1) show ?thesis
    by (simp add: funding_ok_def moloch(3) funds_def)
qed

interpretation rt_funding: pallet "runtime_dispatch env" "runtime_unforged env" "funding_ok env" for env
  by unfold_locales (auto intro: runtime_dispatch_funding_ok dest: runtime_dispatch_err)

lemma runtime_paid_unpaid: "runtime_paid env x rs \<Longrightarrow> runtime_unforged env x rs \<and> runtime_unpaid env x rs = 0"
  by (auto simp: runtime_paid_def runtime_adm_def runtime_unforged_def runtime_unpaid_def funded_unpaid
      split: runtime_call.splits)

lemma admissible_paid_unpaid:
  "admissible_run (runtime_dispatch env) (runtime_paid env) xs rs \<Longrightarrow>
     admissible_run (runtime_dispatch env) (runtime_unforged env) xs rs \<and>
     along_run (runtime_dispatch env) (runtime_unpaid env) xs rs = 0"
  by (induction xs arbitrary: rs) (auto dest: runtime_paid_unpaid split: outcome.split)

lemma runtime_genesis_inv: "runtime_inv env (runtime_genesis env l)"
proof -
  have "moloch_storage.truncate (moloch_world (runtime_genesis env l)) = moloch_storage.truncate (moloch_init l)"
    "qf_storage.truncate (qf_world (runtime_genesis env l)) = qf_storage.truncate (qf_init l)"
    by (simp_all add: runtime_genesis_def)
  then show ?thesis
    by (simp add: runtime_inv_def moloch_inv_storage [of _ "moloch_init l"] qf_inv_storage [of _ "qf_init l"]
        moloch_inv_init qf_init_inv)
qed

lemma runtime_genesis_solvent: "solvent (runtime_qf env) (qf_world (runtime_genesis env l))"
proof -
  have "Rounds (qf_world (runtime_genesis env l)) = Map.empty"
    by (simp add: qf_world_def runtime_genesis_def qf_storage.defs qf_init_def)
  then show ?thesis by (simp add: solvent_def total_owed_def)
qed

section \<open>Properties\<close>

text \<open>After any mixture of calls to the two pallets, starting from the genesis of the runtime,
  the invariants of both hold: neither pallet can break the other's, and the constants of the
  runtime are within what the pallets need.\<close>

lemma runtime_run_invariant:
  assumes "admissible_run (runtime_dispatch env) (runtime_adm env) xs (runtime_genesis env l)"
    and "rt = apply_extrinsics (runtime_dispatch env) xs (runtime_genesis env l)"
  shows "moloch_inv (runtime_moloch env) (moloch_world rt) \<and> qf_inv (runtime_qf env) (qf_world rt)"
  using rt.run_inv [OF runtime_genesis_inv assms(1)] by (simp add: runtime_inv_def assms(2))

text \<open>C23: the money of others: over any mixture of calls, an account never loses unless it signs a
  call itself or is the account of the pallet that a call goes to. In particular Moloch calls
  cannot take from the quadratic-funding account, and conversely.\<close>

theorem runtime_others_never_lose:
  assumes "lawful_currency (env_currency env)" and "\<forall>x\<in>set xs. \<not> runtime_concerns env x a"
    and "rt = apply_extrinsics (runtime_dispatch env) xs rs"
  shows "unat (free_balance (env_currency env) (Balances rs) a)
    \<le> unat (free_balance (env_currency env) (Balances rt) a)"
  using rt.run_bystander [of xs env a rs] assms by simp

text \<open>C4: on the shared ledger, what the quadratic-funding pallet owes after any mixture of calls
  to the two pallets is covered by its account together with what donations and votes were
  credited with without being paid: a budget that holds whether transfers succeed or not, and
  also when somebody summons again. When everything was paid the account alone covers the debts.
  Hashes of projects must not collide, and nobody signs a Moloch call with the account itself.\<close>

theorem runtime_solvency:
  assumes "lawful_currency (env_currency env)" and "lawful_iteration (runtime_qf env)"
    and "accounts_distinct env"
    and "admissible_run (runtime_dispatch env) (runtime_unforged env) xs (runtime_genesis env l)"
    and "rt = apply_extrinsics (runtime_dispatch env) xs (runtime_genesis env l)"
  shows "total_owed (qf_world rt)
    \<le> unat (free_balance (env_currency env) (Balances rt) (qf_account_id (runtime_qf env)))
      + along_run (runtime_dispatch env) (runtime_unpaid env) xs (runtime_genesis env l)"
proof -
  let ?gen = "runtime_genesis env l"
  have "total_owed (qf_world ?gen) \<le> unat (free_balance (env_currency env) (Balances ?gen) (qf_account_id (runtime_qf env)))"
    using runtime_genesis_solvent [of env l] by (simp add: solvent_def)
  moreover have "funding_ok env ?gen"
    using assms(1-3) runtime_genesis_inv [of env l] by (simp add: funding_ok_def runtime_inv_def)
  from rt_funding.run_budget [where debts = "\<lambda>rs. total_owed (qf_world rs)"
      and funds = "\<lambda>rs. unat (free_balance (env_currency env) (Balances rs) (qf_account_id (runtime_qf env)))",
      OF _ this assms(4)] runtime_dispatch_covered [of env]
  have "total_owed (qf_world rt) + unat (free_balance (env_currency env) (Balances ?gen) (qf_account_id (runtime_qf env)))
      \<le> total_owed (qf_world ?gen) + unat (free_balance (env_currency env) (Balances rt) (qf_account_id (runtime_qf env)))
        + along_run (runtime_dispatch env) (runtime_unpaid env) xs ?gen"
    by (simp add: assms(5))
  ultimately show ?thesis by linarith
qed

text \<open>C24: a call to either pallet that returns an error has changed nothing: no storage, no balance
  and no event, although calls do not run in a transaction; every check comes before the first
  write or transfer.\<close>

theorem runtime_error_writes_nothing:
  assumes "runtime_dispatch env x rs = Err e rt"
  shows "rt = rs \<and> apply_extrinsic (runtime_dispatch env) x rs = rs"
  using runtime_dispatch_err [OF assms] assms by (simp add: apply_extrinsic_def)

section \<open>Witnesses\<close>

definition test_env :: "(nat, nat, test_ledger) runtime_env" where
  "test_env = \<lparr>env_currency = test_currency,
     env_into_account = (\<lambda>m. if m = MolochV1ModuleId then 100 else 200),
     env_into_sub_account = (\<lambda>_ _. 101), env_default_account = 0, env_overflow_checks = True,
     env_hash_of = (\<lambda>(h, r). h * 2 ^ 32 + unat r), env_prefix_keys = test_keys\<rparr>"

text \<open>A round with a donation, a project and a vote, between calls to the Moloch pallet.\<close>

definition test_wealth :: test_ledger where
  "test_wealth = (\<lambda>_. 0)(0 := 10 ^ 15, 1 := 10 ^ 15, 2 := 10 ^ 15, 3 := 4000)"

definition test_mixed :: "(nat, nat) runtime_extrinsic list" where
  "test_mixed =
     [\<lparr>block_time = 0, caller = Root, runtime_the_call = QuadraticFundingCall (StartRoundCall 1)\<rparr>,
      \<lparr>block_time = 0, caller = Signed 1, runtime_the_call = MolochV1Call (SummonCall 10 2 2 1 1 100 50)\<rparr>,
      \<lparr>block_time = 0, caller = Signed 0, runtime_the_call = QuadraticFundingCall (DonateCall 1 (5 * 10 ^ 12))\<rparr>,
      \<lparr>block_time = 0, caller = Signed 1, runtime_the_call = QuadraticFundingCall (RegisterProjectCall 1 1 test_title)\<rparr>,
      \<lparr>block_time = 0, caller = Signed 2, runtime_the_call = MolochV1Call (CustodyCall 50)\<rparr>,
      \<lparr>block_time = 0, caller = Signed 2, runtime_the_call = QuadraticFundingCall (VoteCall 1 1 1)\<rparr>]"

lemmas mixed_eval =
  test_mixed_def apply_extrinsic_def runtime_dispatch_def qf_dispatch_def moloch_dispatch_def
  put_qf_def put_moloch_def qf_world_def moloch_world_def qf_storage.defs qf.defs moloch_storage.defs
  moloch.defs runtime_genesis_def qf_init_def moloch_init_def start_round_def summon_def custody_def
  qf_ensure_admin_def ensure_root_def runtime_qf_def runtime_moloch_def ensure_def storage_defs
  deposit_event_def qf_deposit_event_def send_def runtime_constants genesis_pallets_def
  construct_runtime_def build_pallet_def qf_eval rust_eval test_wealth_def test_env_def vote_key_def
  custody_account_def test_title_def

lemma test_env_lawful: "lawful_currency (env_currency test_env)" "lawful_iteration (runtime_qf test_env)"
  "accounts_distinct test_env"
proof -
  show "lawful_currency (env_currency test_env)" by (simp add: test_env_def test_currency_lawful)
  have "prefix_keys (runtime_qf test_env) = prefix_keys (test_qf True)"
    by (simp add: runtime_qf_def test_env_def test_qf_def)
  then show "lawful_iteration (runtime_qf test_env)"
    using test_qf_lawful(2) [of True] by (simp add: lawful_iteration_def)
  show "accounts_distinct test_env"
    by (simp add: accounts_distinct_def qf_account_id_def moloch_account_id_def custody_account_def
        runtime_qf_def runtime_moloch_def test_env_def MolochV1ModuleId_def QuadraticFundingModuleId_def)
qed

lemma test_mixed_paid: "admissible_run (runtime_dispatch test_env) (runtime_paid test_env) test_mixed (runtime_genesis test_env test_wealth)"
  by (simp add: mixed_eval runtime_paid_def runtime_adm_def first_summon_def no_collision_def funded_def
      qf_account_id_def test_env_def)

lemma runtime_run_invariant_at_test:
  "moloch_inv (runtime_moloch test_env)
     (moloch_world (apply_extrinsics (runtime_dispatch test_env) test_mixed (runtime_genesis test_env test_wealth)))"
proof -
  have "admissible_run (runtime_dispatch test_env) (runtime_adm test_env) test_mixed (runtime_genesis test_env test_wealth)"
    by (simp add: mixed_eval runtime_adm_def first_summon_def no_collision_def test_env_def)
  from runtime_run_invariant [OF this refl] show ?thesis by simp
qed

theorem runtime_others_never_lose_witness:
  "\<exists>rt. rt = apply_extrinsics (runtime_dispatch test_env) test_mixed (runtime_genesis test_env test_wealth) \<and>
     4000 \<le> unat (Balances rt 3)"
proof -
  have "\<forall>x\<in>set test_mixed. \<not> runtime_concerns test_env x 3"
    by (simp add: test_mixed_def runtime_concerns_def qf_account_id_def moloch_account_id_def
        custody_account_def runtime_qf_def runtime_moloch_def test_env_def MolochV1ModuleId_def QuadraticFundingModuleId_def)
  from runtime_others_never_lose [OF test_env_lawful(1) this refl, of "runtime_genesis test_env test_wealth"]
  show ?thesis
    by (simp add: test_env_def test_currency_def test_wealth_def moloch_account_id_def qf_account_id_def
        custody_account_def runtime_qf_def runtime_moloch_def MolochV1ModuleId_def QuadraticFundingModuleId_def)
qed

lemma test_mixed_round:
  "Rounds (qf_world (apply_extrinsics (runtime_dispatch test_env) test_mixed (runtime_genesis test_env test_wealth))) 1 =
     Some \<lparr>ongoing = True, support_pool = 47 * 10 ^ 11, pre_tax_support_pool = 5 * 10 ^ 12,
       total_support_area = 0, total_tax = 36 * 10 ^ 10\<rparr>"
  by (simp add: mixed_eval)

theorem runtime_solvency_witness:
  "\<exists>rt. rt = apply_extrinsics (runtime_dispatch test_env) test_mixed (runtime_genesis test_env test_wealth) \<and>
     ongoing (rounds (qf_world rt) 1) \<and> unat (support_pool (rounds (qf_world rt) 1)) = 47 * 10 ^ 11 \<and>
     total_owed (qf_world rt) \<le> unat (Balances rt 200)"
proof (intro exI conjI)
  let ?rt = "apply_extrinsics (runtime_dispatch test_env) test_mixed (runtime_genesis test_env test_wealth)"
  show "ongoing (rounds (qf_world ?rt) 1)" "unat (support_pool (rounds (qf_world ?rt) 1)) = 47 * 10 ^ 11"
    by (simp_all add: rounds_def map_get_def test_mixed_round)
  have unforged: "admissible_run (runtime_dispatch test_env) (runtime_unforged test_env) test_mixed (runtime_genesis test_env test_wealth)"
    and no_loss: "along_run (runtime_dispatch test_env) (runtime_unpaid test_env) test_mixed (runtime_genesis test_env test_wealth) = 0"
    using admissible_paid_unpaid [OF test_mixed_paid] by simp_all
  have "free_balance (env_currency test_env) l a = l a" and "qf_account_id (runtime_qf test_env) = 200" for l a
    by (simp_all add: test_env_def test_currency_def qf_account_id_def runtime_qf_def MolochV1ModuleId_def
        QuadraticFundingModuleId_def)
  then show "total_owed (qf_world ?rt) \<le> unat (Balances ?rt 200)"
    using runtime_solvency [OF test_env_lawful unforged refl] by (simp add: no_loss)
qed (rule refl)

theorem runtime_error_writes_nothing_witness:
  "apply_extrinsic (runtime_dispatch test_env)
     \<lparr>block_time = 0, caller = Signed 1, runtime_the_call = QuadraticFundingCall (StartRoundCall 2)\<rparr>
     (runtime_genesis test_env test_wealth) = runtime_genesis test_env test_wealth"
proof -
  have "\<exists>rt. runtime_dispatch test_env
     \<lparr>block_time = 0, caller = Signed 1, runtime_the_call = QuadraticFundingCall (StartRoundCall 2)\<rparr>
     (runtime_genesis test_env test_wealth) = Err BadOrigin rt"
    by (simp add: runtime_dispatch_def qf_dispatch_def start_round_def qf_ensure_admin_def
        ensure_root_def runtime_qf_def)
  then show ?thesis using runtime_error_writes_nothing by blast
qed

end
