(* ===== verification/Runtime_Supply.thy ===== *)
theory Runtime_Supply
  imports Runtime_Props
begin

text \<open>
  The money in circulation: the pallets change the ledger by transfers only, so no sequence of
  calls creates money, and the quadratic-funding pallet does not even lose dust.
\<close>

section \<open>Issuance\<close>

definition holders :: "('acc, 'l) currency \<Rightarrow> 'l \<Rightarrow> 'acc set" where
  "holders cur l = {a. free_balance cur l a \<noteq> 0}"

definition issuance :: "('acc, 'l) currency \<Rightarrow> 'l \<Rightarrow> nat" where
  "issuance cur l = (\<Sum>a\<in>holders cur l. unat (free_balance cur l a))"

lemma issuance_over:
  assumes "finite A" and "holders cur l \<subseteq> A"
  shows "issuance cur l = (\<Sum>a\<in>A. unat (free_balance cur l a))"
  unfolding issuance_def using assms
  by (intro sum.mono_neutral_left) (auto simp: holders_def)

text \<open>Two ledgers that agree except at two accounts.\<close>

lemma sum_two:
  fixes f g :: "'a \<Rightarrow> nat"
  assumes "finite A" and "src \<in> A" and "dst \<in> A" and "src \<noteq> dst"
    and "\<And>a. a \<noteq> src \<Longrightarrow> a \<noteq> dst \<Longrightarrow> g a = f a"
  shows "sum g A + f src + f dst = sum f A + g src + g dst"
proof -
  have "sum h A = h src + h dst + sum h (A - {src, dst})" for h :: "'a \<Rightarrow> nat"
    using assms(1-4) sum.remove [of A src h] sum.remove [of "A - {src}" dst h]
    by (simp add: Diff_insert2 [of A src "{dst}"])
  note split = this [of f] this [of g]
  have "sum g (A - {src, dst}) = sum f (A - {src, dst})"
    using assms(5) by (intro sum.cong) auto
  with split show ?thesis by simp
qed

lemma transfer_issuance:
  assumes "lawful_currency cur" and "transfer cur l src dst amt er = (ok, l')" and "finite (holders cur l)"
  shows "finite (holders cur l') \<and> issuance cur l' \<le> issuance cur l \<and>
    (er = KeepAlive \<longrightarrow> issuance cur l' = issuance cur l)"
proof (cases "ok \<and> src \<noteq> dst")
  case True
  with transfer_moved [OF assms(1), of l src dst amt er l'] assms(2)
  have eff: "transfer_effect cur l src dst amt er l'" by simp
  let ?A = "insert src (insert dst (holders cur l))"
  have fin: "finite ?A" using assms(3) by simp
  have sub: "holders cur l \<subseteq> ?A" "holders cur l' \<subseteq> ?A"
    using eff by (auto simp: holders_def transfer_effect_def)
  have "issuance cur l' + unat (free_balance cur l src) + unat (free_balance cur l dst) =
      issuance cur l + unat (free_balance cur l' src) + unat (free_balance cur l' dst)"
    unfolding issuance_over [OF fin sub(1)] issuance_over [OF fin sub(2)]
    using True eff fin by (intro sum_two) (auto simp: transfer_effect_def)
  with eff finite_subset [OF sub(2) fin] show ?thesis by (auto simp: transfer_effect_def)
next
  case False
  then have "free_balance cur l' = free_balance cur l"
    using transfer_failed [OF assms(1), of l src dst amt er l'] transfer_self [OF assms(1), of l src amt er ok l'] assms(2)
    by (cases ok) auto
  with assms(3) show ?thesis by (simp add: holders_def issuance_def)
qed

section \<open>Ledgers reached by transfers\<close>

text \<open>What a pallet may do to the ledger: any number of transfers, in the given modes.\<close>

inductive transfers :: "('acc, 'l) currency \<Rightarrow> existence_requirement set \<Rightarrow> 'l \<Rightarrow> 'l \<Rightarrow> bool"
  for cur modes where
  none [intro!, simp]: "transfers cur modes l l"
| more: "transfers cur modes l l' \<Longrightarrow> er \<in> modes \<Longrightarrow> transfers cur modes l (snd (transfer cur l' src dst amt er))"

lemma transfers_pay [intro!]:
  "transfers (currency cfg) modes l l' \<Longrightarrow> er \<in> modes \<Longrightarrow>
   transfers (currency cfg) modes l (pay cfg l' src dst amt er)"
  unfolding pay_def by (rule more)

lemma transfers_trans:
  assumes "transfers cur modes l' l''" and "transfers cur modes l l'"
  shows "transfers cur modes l l''"
  using assms by (induction rule: transfers.induct) (auto intro: more)

lemma transfers_mono: "transfers cur modes l l' \<Longrightarrow> modes \<subseteq> modes' \<Longrightarrow> transfers cur modes' l l'"
  by (induction rule: transfers.induct) (auto intro: more)

lemma transfers_issuance:
  assumes "transfers cur modes l l'" and "lawful_currency cur" and "finite (holders cur l)"
  shows "finite (holders cur l') \<and> issuance cur l' \<le> issuance cur l \<and>
    (modes \<subseteq> {KeepAlive} \<longrightarrow> issuance cur l' = issuance cur l)"
  using assms(1,3)
proof (induction rule: transfers.induct)
  case (more l l' er src dst amt)
  with transfer_issuance [OF assms(2), of l' src dst amt er _ "snd (transfer cur l' src dst amt er)"]
  show ?case by (auto simp: prod_eq_iff)
qed simp

section \<open>The pallets only transfer\<close>

lemma pay_projects_transfers:
  "pay_projects cfg area pool items s = Ok t \<Longrightarrow> transfers (currency cfg) {KeepAlive} (bank s) (bank t)"
proof (induction items arbitrary: s)
  case (Cons item rest)
  from Cons.prems obtain g where
    "pay_projects cfg area pool rest (qf_send cfg (qf_account_id cfg) (owner (snd item)) g s) = Ok t"
    by (cases item) (auto simp: outcome_simps)
  from transfers_trans [OF Cons.IH [OF this]] show ?case by auto
qed auto

lemma qf_transfers:
  assumes "qf_dispatch cfg x s = Ok t"
  shows "transfers (currency cfg) {KeepAlive} (bank s) (bank t)"
  using assms
  by (cases "qf_the_call x")
    (auto simp: qf_dispatch_def dest!: pay_projects_transfers
      elim!: donateE start_roundE end_roundE register_projectE voteE)

lemma settled_transfers:
  "settled cfg granted p tribute s = Some t \<Longrightarrow> transfers (currency cfg) UNIV (ledger s) (ledger t)"
  by (erule settledE) auto

lemma moloch_transfers:
  assumes "moloch_dispatch cfg x s = Ok t"
  shows "transfers (currency cfg) UNIV (ledger s) (ledger t)"
proof (cases "the_call x")
  case (ProcessProposalCall idx)
  with assms obtain who where "process_checked cfg who idx s = Ok t"
    by (auto simp: moloch_dispatch_def elim: process_proposalE)
  then show ?thesis
    by (cases rule: process_checkedE) (auto dest!: settled_transfers)
qed (use assms in \<open>auto simp: moloch_dispatch_def elim!: summonE custodyE submit_proposalE submit_voteE
      ragequitE abortE update_delegateE\<close>)

text \<open>Whether a call goes to the quadratic-funding pallet.\<close>

fun funding_call :: "('acc, 'h) runtime_call \<Rightarrow> bool" where
  "funding_call (QuadraticFundingCall c) = True"
| "funding_call (MolochV1Call c) = False"

lemma runtime_transfers:
  assumes "runtime_dispatch env x rs = Ok rt"
  shows "transfers (env_currency env) (if funding_call (runtime_the_call x) then {KeepAlive} else UNIV)
    (Balances rs) (Balances rt)"
  using assms
proof (cases rule: runtime_Ok_cases)
  case (funding c w)
  from qf_transfers [OF funding(2)] show ?thesis by (simp add: funding(1,3))
next
  case (moloch c w)
  from moloch_transfers [OF moloch(2)] show ?thesis by (simp add: moloch(1,3) runtime_moloch_def)
qed

section \<open>Runs\<close>

lemma admissible_calls [simp]:
  "admissible_run dispatch (\<lambda>c _. P c) cs s \<longleftrightarrow> (\<forall>c\<in>set cs. P c)"
  by (induction cs arbitrary: s) auto

interpretation rt_calls:
  pallet "runtime_dispatch env" "\<lambda>x _. funding_only \<longrightarrow> funding_call (runtime_the_call x)" "\<lambda>_. True"
  for env and funding_only :: bool
  by unfold_locales (auto dest: runtime_dispatch_err)

lemma runtime_run_transfers:
  assumes "funding_only \<Longrightarrow> \<forall>x\<in>set xs. funding_call (runtime_the_call x)"
  shows "transfers (env_currency env) (if funding_only then {KeepAlive} else UNIV)
    (Balances rs) (Balances (apply_extrinsics (runtime_dispatch env) xs rs))"
proof (rule rt_calls.run_relates [where funding_only = funding_only])
  fix rs x rt
  assume "funding_only \<longrightarrow> funding_call (runtime_the_call x)" and ok: "runtime_dispatch env x rs = Ok rt"
  then have "(if funding_call (runtime_the_call x) then {KeepAlive} else UNIV) \<subseteq>
      (if funding_only then {KeepAlive} else UNIV)" by auto
  with runtime_transfers [OF ok]
  show "transfers (env_currency env) (if funding_only then {KeepAlive} else UNIV) (Balances rs) (Balances rt)"
    by (rule transfers_mono)
qed (use assms in \<open>auto intro: transfers_trans\<close>)

text \<open>C14: no money is created: over any sequence of calls to the two pallets, by anybody and from
  any state, the sum of all balances never grows, and calls to the quadratic-funding pallet alone
  keep it exactly, since they only move money with \<open>KeepAlive\<close>.\<close>

theorem runtime_no_money_created:
  assumes "lawful_currency (env_currency env)"
    and "finite {a. free_balance (env_currency env) (Balances rs) a \<noteq> 0}"
    and "rt = apply_extrinsics (runtime_dispatch env) xs rs"
  shows "finite {a. free_balance (env_currency env) (Balances rt) a \<noteq> 0} \<and>
    issuance (env_currency env) (Balances rt) \<le> issuance (env_currency env) (Balances rs) \<and>
    ((\<forall>x\<in>set xs. funding_call (runtime_the_call x)) \<longrightarrow>
       issuance (env_currency env) (Balances rt) = issuance (env_currency env) (Balances rs))"
proof -
  have fin: "finite (holders (env_currency env) (Balances rs))"
    using assms(2) by (simp add: holders_def)
  have "transfers (env_currency env) UNIV (Balances rs) (Balances rt)"
    using runtime_run_transfers [of False xs env rs] by (simp add: assms(3))
  from transfers_issuance [OF this assms(1) fin]
  have all: "finite (holders (env_currency env) (Balances rt)) \<and>
    issuance (env_currency env) (Balances rt) \<le> issuance (env_currency env) (Balances rs)" by simp
  have "issuance (env_currency env) (Balances rt) = issuance (env_currency env) (Balances rs)"
    if "\<forall>x\<in>set xs. funding_call (runtime_the_call x)"
    using transfers_issuance [OF runtime_run_transfers [of True xs env rs] assms(1) fin] that
    by (simp add: assms(3))
  with all show ?thesis by (simp add: holders_def)
qed

theorem runtime_no_money_created_witness:
  "\<exists>rt. rt = apply_extrinsics (runtime_dispatch test_env) test_mixed (runtime_genesis test_env test_wealth) \<and>
     issuance test_currency (Balances rt) \<le> 3 * 10 ^ 15 + 4000"
proof -
  have cur: "env_currency test_env = test_currency" "free_balance test_currency = (\<lambda>l. l)"
    by (simp_all add: test_env_def test_currency_def fun_eq_iff)
  have sub: "holders test_currency test_wealth \<subseteq> {0, 1, 2, 3}"
    by (auto simp: holders_def cur test_wealth_def)
  have "issuance test_currency test_wealth = (\<Sum>a\<in>{0, 1, 2, 3}. unat (free_balance test_currency test_wealth a))"
    using sub by (rule issuance_over [rotated]) simp
  then have "issuance test_currency test_wealth = 3 * 10 ^ 15 + 4000"
    by (simp add: cur test_wealth_def)
  moreover have "finite {a. free_balance (env_currency test_env)
      (Balances (runtime_genesis test_env test_wealth)) a \<noteq> 0}"
    using finite_subset [OF sub] by (simp add: holders_def cur)
  ultimately show ?thesis
    using runtime_no_money_created [OF test_env_lawful(1) _ refl, of "runtime_genesis test_env test_wealth" test_mixed]
    by (simp add: cur(1))
qed

end
