(* ===== verification/Runtime_Rounds.thy ===== *)
theory Runtime_Rounds
  imports Runtime_Props QF_Rounds
begin

text \<open>
  Winding down the rounds of the runtime: after any mixture of calls to the two pallets, the open
  rounds can all be ended, one after the other, in any order.
\<close>

section \<open>Ending one round\<close>

abbreviation end_call :: "u64 \<Rightarrow> u32 \<Rightarrow> ('acc, 'h) runtime_extrinsic" where
  "end_call now r \<equiv>
     \<lparr>block_time = now, caller = Root, runtime_the_call = QuadraticFundingCall (EndRoundCall r)\<rparr>"

lemma rounds_put [simp]: "Rounds (qf_world (put_qf rs w)) = Rounds w"
  by (simp add: qf_world_def put_qf_def qf_storage.defs qf.defs)

lemma end_call_paid: "runtime_paid env (end_call now r) rs"
  by (simp add: runtime_paid_def runtime_adm_def no_collision_def funded_def)

lemma runtime_end_round:
  assumes "runtime_sound env rs" and "Rounds (qf_world rs) r = Some rnd" and "ongoing rnd"
  obtains rt where "runtime_dispatch env (end_call now r) rs = Ok rt" "runtime_sound env rt"
    "Rounds (qf_world rt) = (Rounds (qf_world rs))(r \<mapsto> rnd\<lparr>ongoing := False\<rparr>)"
    "MolochV1 rt = MolochV1 rs"
proof -
  have "qf_sound (runtime_qf env) (qf_world rs)"
    using assms(1) by (simp add: runtime_sound_def qf_sound_def qf_good_def runtime_inv_def runtime_prices_ok)
  moreover have "AdminOrigin (runtime_qf env) Root" by (simp add: runtime_qf_def ensure_root_def)
  ultimately obtain w where w: "end_round (runtime_qf env) Root r (qf_world rs) = Ok w"
    using end_round_succeeds assms(2,3) by blast
  then have ok: "runtime_dispatch env (end_call now r) rs = Ok (put_qf rs w)"
    by (simp add: runtime_dispatch_def qf_dispatch_def)
  have "rounds (qf_world rs) r = rnd" using assms(2) by (simp add: rounds_def map_get_def)
  with w have "Rounds w = (Rounds (qf_world rs))(r \<mapsto> rnd\<lparr>ongoing := False\<rparr>)"
    by (auto elim!: end_roundE simp: map_insert_def)
  with ok show thesis
    using runtime_dispatch_sound [OF assms(1) end_call_paid ok] by (intro that [OF ok]) simp_all
qed

section \<open>Ending all of them\<close>

lemma runtime_end_rounds:
  assumes "runtime_sound env rs" and "distinct ids"
    and "\<forall>r\<in>set ids. phase_of (Rounds (qf_world rs) r) = Ongoing"
  shows "\<exists>rt. all_ok (runtime_dispatch env) (map (end_call now) ids) rs = Ok rt \<and> runtime_sound env rt \<and>
    (\<forall>r. Rounds (qf_world rt) r = (if r \<in> set ids
       then map_option (\<lambda>rnd. rnd\<lparr>ongoing := False\<rparr>) (Rounds (qf_world rs) r)
       else Rounds (qf_world rs) r)) \<and>
    MolochV1 rt = MolochV1 rs"
  using assms
proof (induction ids arbitrary: rs)
  case (Cons r ids)
  then obtain rnd where rnd: "Rounds (qf_world rs) r = Some rnd" "ongoing rnd"
    by (auto simp: phase_of_def split: option.splits if_splits)
  obtain ru where ok: "runtime_dispatch env (end_call now r) rs = Ok ru" and sound: "runtime_sound env ru"
    and ended: "Rounds (qf_world ru) = (Rounds (qf_world rs))(r \<mapsto> rnd\<lparr>ongoing := False\<rparr>)"
    and kept: "MolochV1 ru = MolochV1 rs"
    using runtime_end_round [OF Cons.prems(1) rnd] .
  have "\<forall>q\<in>set ids. phase_of (Rounds (qf_world ru) q) = Ongoing"
    using Cons.prems(2,3) by (auto simp: ended)
  from Cons.IH [OF sound _ this] Cons.prems(2) obtain rt where
    rt: "all_ok (runtime_dispatch env) (map (end_call now) ids) ru = Ok rt" "runtime_sound env rt"
    "\<And>q. Rounds (qf_world rt) q = (if q \<in> set ids
       then map_option (\<lambda>rnd. rnd\<lparr>ongoing := False\<rparr>) (Rounds (qf_world ru) q) else Rounds (qf_world ru) q)"
    "MolochV1 rt = MolochV1 ru"
    by auto
  have "Rounds (qf_world rt) q = (if q \<in> set (r # ids)
       then map_option (\<lambda>rnd. rnd\<lparr>ongoing := False\<rparr>) (Rounds (qf_world rs) q) else Rounds (qf_world rs) q)" for q
    using Cons.prems(2) by (simp add: rt(3) ended rnd(1))
  with rt(1,2,4) ok kept show ?case by (auto simp: and_then_def)
qed simp

text \<open>C19: money that was given is paid out in the end: after any mixture of calls to the two pallets
  in which donations and votes were really paid, the root origin can end all open rounds (any
  selection of them, in any order). Every one of the calls succeeds, the chosen rounds are ended
  with their amounts as they were, the other rounds and the Moloch pallet are untouched, and the
  account still covers what is owed.\<close>

theorem runtime_rounds_end:
  assumes "lawful_currency (env_currency env)" and "lawful_iteration (runtime_qf env)"
    and "accounts_distinct env"
    and "admissible_run (runtime_dispatch env) (runtime_paid env) xs (runtime_genesis env l)"
    and "rs = apply_extrinsics (runtime_dispatch env) xs (runtime_genesis env l)"
    and "distinct ids" and "\<forall>r\<in>set ids. \<exists>rnd. Rounds (qf_world rs) r = Some rnd \<and> ongoing rnd"
  shows "\<exists>rt. all_ok (runtime_dispatch env)
      (map (\<lambda>r. \<lparr>block_time = now, caller = Root, runtime_the_call = QuadraticFundingCall (EndRoundCall r)\<rparr>) ids)
      rs = Ok rt \<and>
    (\<forall>r. Rounds (qf_world rt) r = (if r \<in> set ids
       then map_option (\<lambda>rnd. rnd\<lparr>ongoing := False\<rparr>) (Rounds (qf_world rs) r)
       else Rounds (qf_world rs) r)) \<and>
    MolochV1 rt = MolochV1 rs \<and>
    total_owed (qf_world rt) \<le> unat (free_balance (env_currency env) (Balances rt) (qf_account_id (runtime_qf env)))"
proof -
  have "runtime_sound env (runtime_genesis env l)"
    using assms(1-3) by (simp add: runtime_sound_def runtime_genesis_inv runtime_genesis_solvent)
  from rt_paid.run_inv [OF this assms(4)] have "runtime_sound env rs" by (simp add: assms(5))
  moreover have "\<forall>r\<in>set ids. phase_of (Rounds (qf_world rs) r) = Ongoing"
    using assms(7) by (auto simp: phase_of_def)
  ultimately show ?thesis
    using runtime_end_rounds [of env rs ids now] assms(6) by (auto simp: runtime_sound_def solvent_def)
qed

theorem runtime_rounds_end_witness:
  "\<exists>rt. all_ok (runtime_dispatch test_env)
      [\<lparr>block_time = 9, caller = Root, runtime_the_call = QuadraticFundingCall (EndRoundCall 1)\<rparr>]
      (apply_extrinsics (runtime_dispatch test_env) test_mixed (runtime_genesis test_env test_wealth)) = Ok rt \<and>
    (\<exists>rnd. Rounds (qf_world rt) 1 = Some rnd \<and> \<not> ongoing rnd)"
  using runtime_rounds_end [OF test_env_lawful test_mixed_paid refl, of "[1]" 9]
  by (auto simp: test_mixed_round)

end
