(* ===== verification/Multiaddress.thy ===== *)
theory Multiaddress
  imports Prelude
begin

text \<open>
  The address format of the runtime (\<open>runtime/src/multiaddress.rs\<close>): the type of addresses, its
  conversion and default, how it is displayed, and the lookup that the runtime uses to resolve
  the sender of an extrinsic. The indices of accounts are of the type \<open>'i\<close>, which the runtime
  instantiates with \<open>()\<close>. \<open>HexDisplay\<close> and the derived \<open>Debug\<close> come from elsewhere and are
  parameters of the display function.
\<close>

datatype ('acc, 'i) MultiAddress =
    Id 'acc
  | Index 'i
  | Raw "u8 list"
  | Address32 "u8 list"
  | Address20 "u8 list"

text \<open>The last two hold arrays of 32 and 20 bytes.\<close>

fun wf_address :: "('acc, 'i) MultiAddress \<Rightarrow> bool" where
  "wf_address (Address32 bs) \<longleftrightarrow> length bs = 32"
| "wf_address (Address20 bs) \<longleftrightarrow> length bs = 20"
| "wf_address _ \<longleftrightarrow> True"

definition address_from :: "'acc \<Rightarrow> ('acc, 'i) MultiAddress" where
  "address_from a = Id a"

definition address_default :: "'acc \<Rightarrow> ('acc, 'i) MultiAddress" where
  "address_default default_account = Id default_account"

fun address_fmt ::
  "(u8 list \<Rightarrow> string) \<Rightarrow> (('acc, 'i) MultiAddress \<Rightarrow> string) \<Rightarrow> ('acc, 'i) MultiAddress \<Rightarrow> string" where
  "address_fmt hex debug (Raw inner) = ''MultiAddress::Raw('' @ hex inner @ '')''"
| "address_fmt hex debug (Address32 inner) = ''MultiAddress::Address32('' @ hex inner @ '')''"
| "address_fmt hex debug (Address20 inner) = ''MultiAddress::Address20('' @ hex inner @ '')''"
| "address_fmt hex debug other = debug other"

datatype lookup_error = LookupError

fun lookup :: "('acc, 'i) MultiAddress \<Rightarrow> lookup_error + 'acc" where
  "lookup (Id i) = Inr i"
| "lookup _ = Inl LookupError"

definition unlookup :: "'acc \<Rightarrow> ('acc, 'i) MultiAddress" where
  "unlookup x = Id x"

text \<open>
  The contract of \<open>StaticLookup\<close>: \<open>unlookup\<close> gives an address of the account. A lookup is
  canonical when it gives the only one.
\<close>

locale static_lookup =
  fixes look :: "'src \<Rightarrow> 'e + 'tgt"
    and unlook :: "'tgt \<Rightarrow> 'src"
  assumes look_unlook: "look (unlook x) = Inr x"
begin

lemma unlook_inj: "unlook x = unlook y \<longleftrightarrow> x = y"
  by (metis look_unlook sum.inject(2))

end

locale canonical_lookup = static_lookup look unlook
  for look :: "'src \<Rightarrow> 'e + 'tgt" and unlook :: "'tgt \<Rightarrow> 'src" +
  assumes unlook_look: "look a = Inr x \<Longrightarrow> unlook x = a"
begin

lemma look_iff: "look a = Inr x \<longleftrightarrow> a = unlook x"
  using look_unlook unlook_look by auto

lemma look_inj: "look a = Inr x \<Longrightarrow> look b = Inr x \<Longrightarrow> a = b"
  by (simp add: look_iff)

end

lemma lookup_Inr: "lookup a = Inr x \<longleftrightarrow> a = Id x"
  by (cases a) auto

interpretation address: canonical_lookup lookup unlookup
  by unfold_locales (simp_all add: unlookup_def lookup_Inr)

text \<open>C34: an address is resolved to an account exactly when it is the address made from the
  account, by \<open>unlookup\<close>, by the conversion from an account, or as a default; every other form of
  address is refused, and no two accounts share an address.\<close>

theorem address_roundtrip:
  "(lookup a = Inr x \<longleftrightarrow> a = unlookup x) \<and> lookup (address_from x) = Inr x \<and>
   lookup (address_default x) = Inr x \<and>
   (lookup a = Inl LookupError \<longleftrightarrow> (\<forall>y. a \<noteq> unlookup y))"
  using address.look_iff [of a x]
  by (cases a) (auto simp: address_from_def address_default_def unlookup_def)

end
