(* ===== verification/Rpc.thy ===== *)
theory Rpc
  imports Runtime
begin

text \<open>
  The RPC of the quadratic-funding pallet (\<open>pallets/quadratic-funding/rpc/src/lib.rs\<close>): the two
  methods query the runtime API at the best block of the client and turn a failed call into a
  server error. The client (its best block and the states of blocks) and the error that a failed
  call gives come from elsewhere and are parameters.
\<close>

datatype qf_rpc_failure = DecodeError | RuntimeError

fun failure_code :: "qf_rpc_failure \<Rightarrow> int" where
  "failure_code RuntimeError = 1"
| "failure_code DecodeError = 2"

datatype ErrorCode = ServerError int

record 'd RpcError =
  code :: ErrorCode
  message :: string
  data :: "'d option"

record ('b, 's) client =
  best_hash :: 'b
  state_at :: "'b \<Rightarrow> 's"

text \<open>
  A call of the runtime API at a block: a panic of the runtime is a failed call, with an error of
  the client's choice.
\<close>

definition runtime_api_call :: "('b, 's) client \<Rightarrow> 'err \<Rightarrow> 'b \<Rightarrow> ('s \<Rightarrow> 'v option) \<Rightarrow> 'err + 'v" where
  "runtime_api_call cl trap at f = (case f (state_at cl at) of None \<Rightarrow> Inl trap | Some v \<Rightarrow> Inr v)"

definition query_error :: "('err \<Rightarrow> 'd) \<Rightarrow> 'err \<Rightarrow> 'd RpcError" where
  "query_error debug e =
     \<lparr>code = ServerError (failure_code RuntimeError), message = ''Unable to query dispatch info.'',
      data = Some (debug e)\<rparr>"

definition rpc_vote_cost ::
  "('acc, 'h, 'l) runtime_env \<Rightarrow> ('b, ('acc, 'h, 'l) runtime_state) client \<Rightarrow> 'err \<Rightarrow> ('err \<Rightarrow> 'd)
     \<Rightarrow> 'acc \<Rightarrow> u32 \<Rightarrow> 'h \<Rightarrow> u32 \<Rightarrow> 'd RpcError + u32" where
  "rpc_vote_cost env cl trap debug who round_id project_hash ballot =
     (let at = best_hash cl in
      map_sum (query_error debug) id
        (runtime_api_call cl trap at (\<lambda>rs. api_vote_cost env rs who round_id project_hash ballot)))"

definition rpc_projects_per_round ::
  "('acc, 'h, 'l) runtime_env \<Rightarrow> ('b, ('acc, 'h, 'l) runtime_state) client \<Rightarrow> 'err \<Rightarrow> ('err \<Rightarrow> 'd)
     \<Rightarrow> u32 \<Rightarrow> 'd RpcError + ('h \<times> u32 \<times> u32 \<times> u32) list" where
  "rpc_projects_per_round env cl trap debug round_id =
     (let at = best_hash cl in
      map_sum (query_error debug) id
        (runtime_api_call cl trap at (\<lambda>rs. api_projects_per_round env rs round_id)))"

text \<open>The two methods and the names under which the trait \<open>QuadraticFundingApi\<close> publishes them.\<close>

datatype qf_method = MethodVoteCost | MethodProjectsPerRound

fun qf_method_name :: "qf_method \<Rightarrow> string" where
  "qf_method_name MethodVoteCost = ''qf_querVoteCost''"
| "qf_method_name MethodProjectsPerRound = ''qf_ranks''"

lemma qf_method_name_inj: "qf_method_name m = qf_method_name n \<longleftrightarrow> m = n"
  by (cases m; cases n) simp_all

lemma runtime_api_call_Inr: "runtime_api_call cl trap at f = Inr v \<longleftrightarrow> f (state_at cl at) = Some v"
  by (simp add: runtime_api_call_def split: option.split)

lemma map_err_Inr: "map_sum f id r = Inr v \<longleftrightarrow> r = Inr v"
  by (cases r) auto

lemma map_err_Inl: "map_sum f id r = Inl e \<longleftrightarrow> (\<exists>d. r = Inl d \<and> e = f d)"
  by (cases r) auto

lemma qf_world_views:
  "project_votes (qf_world rs) vh who = map_get 0 (ProjectVotes (QuadraticFunding rs)) (vh, who)"
  by (simp add: project_votes_def qf_world_def qf_storage.defs)

text \<open>C32: the price query answers from the best block: it returns \<open>c\<close> exactly when \<open>c\<close> is the sum
  of the votes' prices \<open>v + 1, \<dots>, v + b\<close> after the \<open>v\<close> recorded ones, computed within 128 bits
  and below \<open>2 ^ 32\<close>; otherwise it returns the server error 1, never the decode error.\<close>

theorem rpc_vote_cost_answers:
  "let rs = state_at cl (best_hash cl);
       v = unat (map_get 0 (ProjectVotes (QuadraticFunding rs)) (env_hash_of env (h, r), who));
       b = unat ballot;
       answer = rpc_vote_cost env cl trap debug who r h ballot
   in (answer = Inr c \<longleftrightarrow> unat c = (\<Sum>i = 1..b. v + i)) \<and>
      ((\<forall>c. answer \<noteq> Inr c) \<longleftrightarrow> answer = Inl \<lparr>code = ServerError 1,
         message = ''Unable to query dispatch info.'', data = Some (debug trap)\<rparr>)"
proof -
  let ?rs = "state_at cl (best_hash cl)"
  let ?v = "map_get 0 (ProjectVotes (QuadraticFunding ?rs)) (env_hash_of env (h, r), who)"
  let ?b = "ucast ballot :: u128"
  let ?ans = "rpc_vote_cost env cl trap debug who r h ballot"
  have b: "unat ?b = unat ballot" using try_into_Some [of ballot ?b] by simp
  have sum: "(\<Sum>i = 1..n. m + i) = tri n + n * m" for n m :: nat
    by (induction n) (simp_all add: tri_Suc)
  have "unat ballot < 2 ^ 32" using unat_lt [of ballot] by simp
  then have "unat ballot * (unat ballot + 1) \<le> 2 ^ 32 * 2 ^ 32" by (intro mult_le_mono) auto
  then have small: "unat ballot * (unat ballot + 1) < 2 ^ 128" by simp
  have "?ans = Inr c \<longleftrightarrow> (\<exists>w. cal_cost ?v ?b = Some w \<and> unat c = unat w)"
    by (simp add: rpc_vote_cost_def Let_def map_err_Inr runtime_api_call_Inr api_vote_cost_def
        vote_cost_def qf_world_views bind_eq_Some_conv try_into_Some) (simp add: runtime_qf_def)
  also have "\<dots> \<longleftrightarrow> unat c = tri (unat ballot) + unat ballot * unat ?v"
  proof
    assume c: "unat c = tri (unat ballot) + unat ballot * unat ?v"
    have "unat c < 2 ^ LENGTH(128)" using unat_lt [of c] by simp
    then obtain w :: u128 where "unat w = unat c" using word_of_fitting [of "unat c"] by metis
    then show "\<exists>w. cal_cost ?v ?b = Some w \<and> unat c = unat w"
      using small c by (intro exI [of _ w]) (simp only: cal_cost_iff b simp_thms)
  qed (auto simp: cal_cost_iff b)
  finally have "?ans = Inr c \<longleftrightarrow> unat c = (\<Sum>i = 1..unat ballot. unat ?v + i)" by (simp only: sum)
  moreover have "(\<forall>c. ?ans \<noteq> Inr c) \<longleftrightarrow> ?ans = Inl (query_error debug trap)"
    by (cases "api_vote_cost env ?rs who r h ballot")
      (simp_all add: rpc_vote_cost_def Let_def runtime_api_call_def)
  ultimately show ?thesis unfolding Let_def by (simp add: query_error_def)
qed

end
