(* ===== verification/Chain_Spec.thy ===== *)
theory Chain_Spec
  imports Runtime
begin

text \<open>
  The chain specifications of the node (\<open>node/src/chain_spec.rs\<close>) and the choice among them
  (\<open>load_spec\<close> of \<open>node/src/command.rs\<close>). The derivation of key pairs from a secret string and of
  accounts from public keys (sp_core), and the reader of specification files, are parameters.
\<close>

text \<open>\<open>Pair::from_string\<close> followed by \<open>public\<close>, for the three kinds of keys; \<open>None\<close> is its error.\<close>

record ('acc, 'aura, 'grandpa, 'pub) keyring =
  aura_from_string :: "string \<Rightarrow> 'aura option"
  grandpa_from_string :: "string \<Rightarrow> 'grandpa option"
  sr25519_from_string :: "string \<Rightarrow> 'pub option"
  public_into_account :: "'pub \<Rightarrow> 'acc"

definition get_from_seed :: "(string \<Rightarrow> 'k option) \<Rightarrow> string \<Rightarrow> 'k option" where
  "get_from_seed from_string seed = from_string (''//'' @ seed)"

definition get_account_id_from_seed :: "('acc, 'aura, 'grandpa, 'pub) keyring \<Rightarrow> string \<Rightarrow> 'acc option" where
  "get_account_id_from_seed ks seed =
     map_option (public_into_account ks) (get_from_seed (sr25519_from_string ks) seed)"

definition authority_keys_from_seed ::
  "('acc, 'aura, 'grandpa, 'pub) keyring \<Rightarrow> string \<Rightarrow> ('aura \<times> 'grandpa) option" where
  "authority_keys_from_seed ks s = do {
     a \<leftarrow> get_from_seed (aura_from_string ks) s;
     g \<leftarrow> get_from_seed (grandpa_from_string ks) s;
     Some (a, g)
   }"

section \<open>Genesis\<close>

record ('acc, 'aura, 'grandpa) genesis_config =
  system_code :: "u8 list"
  genesis_balances :: "('acc \<times> u128) list"
  aura_authorities :: "'aura list"
  grandpa_authorities :: "('grandpa \<times> u64) list"
  sudo_key :: 'acc

definition testnet_genesis ::
  "u8 list \<Rightarrow> ('aura \<times> 'grandpa) list \<Rightarrow> 'acc \<Rightarrow> 'acc list \<Rightarrow> bool
     \<Rightarrow> ('acc, 'aura, 'grandpa) genesis_config" where
  "testnet_genesis wasm_binary initial_authorities root_key endowed_accounts enable_println =
     \<lparr>system_code = wasm_binary,
      genesis_balances = map (\<lambda>k. (k, push_bit 60 1)) endowed_accounts,
      aura_authorities = map fst initial_authorities,
      grandpa_authorities = map (\<lambda>x. (snd x, 1)) initial_authorities,
      sudo_key = root_key\<rparr>"

section \<open>Specifications\<close>

datatype chain_type = Development | Local

text \<open>The genesis is a closure in the code, evaluated later; \<open>None\<close> is the panic of \<open>expect\<close>.\<close>

record ('acc, 'aura, 'grandpa) chain_spec =
  spec_name :: string
  spec_id :: string
  spec_type :: chain_type
  spec_genesis :: "('acc, 'aura, 'grandpa) genesis_config option"
  boot_nodes :: "string list"
  telemetry :: "string option"
  protocol_id :: "string option"
  properties :: "(string \<times> string) list option"

definition development_endowed :: "string list" where
  "development_endowed = [''Alice'', ''Bob'', ''Alice//stash'', ''Bob//stash'']"

definition development_config ::
  "('acc, 'aura, 'grandpa, 'pub) keyring \<Rightarrow> u8 list option
     \<Rightarrow> string + ('acc, 'aura, 'grandpa) chain_spec" where
  "development_config ks WASM_BINARY =
     (case WASM_BINARY of
        None \<Rightarrow> Inl ''Development wasm binary not available''
      | Some wasm_binary \<Rightarrow> Inr
          \<lparr>spec_name = ''Development'', spec_id = ''dev'', spec_type = Development,
           spec_genesis = do {
             authorities \<leftarrow> those (map (authority_keys_from_seed ks) [''Alice'']);
             root \<leftarrow> get_account_id_from_seed ks ''Alice'';
             endowed \<leftarrow> those (map (get_account_id_from_seed ks) development_endowed);
             Some (testnet_genesis wasm_binary authorities root endowed True)
           },
           boot_nodes = [], telemetry = None, protocol_id = None,
           properties = Some [(''tokenSymbol'', ''DORA'')]\<rparr>)"

definition local_endowed :: "string list" where
  "local_endowed = [''Alice'', ''Bob'', ''Charlie'', ''Dave'', ''Eve'', ''Ferdie'',
     ''Alice//stash'', ''Bob//stash'', ''Charlie//stash'', ''Dave//stash'', ''Eve//stash'',
     ''Ferdie//stash'']"

definition local_testnet_config ::
  "('acc, 'aura, 'grandpa, 'pub) keyring \<Rightarrow> u8 list option
     \<Rightarrow> string + ('acc, 'aura, 'grandpa) chain_spec" where
  "local_testnet_config ks WASM_BINARY =
     (case WASM_BINARY of
        None \<Rightarrow> Inl ''Development wasm binary not available''
      | Some wasm_binary \<Rightarrow> Inr
          \<lparr>spec_name = ''Local Testnet'', spec_id = ''local_testnet'', spec_type = Local,
           spec_genesis = do {
             authorities \<leftarrow> those (map (authority_keys_from_seed ks) [''Alice'', ''Bob'']);
             root \<leftarrow> get_account_id_from_seed ks ''Alice'';
             endowed \<leftarrow> those (map (get_account_id_from_seed ks) local_endowed);
             Some (testnet_genesis wasm_binary authorities root endowed True)
           },
           boot_nodes = [], telemetry = None, protocol_id = None, properties = None\<rparr>)"

definition load_spec ::
  "('acc, 'aura, 'grandpa, 'pub) keyring \<Rightarrow> u8 list option
     \<Rightarrow> (string \<Rightarrow> string + ('acc, 'aura, 'grandpa) chain_spec)
     \<Rightarrow> string \<Rightarrow> string + ('acc, 'aura, 'grandpa) chain_spec" where
  "load_spec ks WASM_BINARY from_json_file spec =
     (if spec = ''dev'' then development_config ks WASM_BINARY
      else if spec = '''' \<or> spec = ''local'' then local_testnet_config ks WASM_BINARY
      else from_json_file spec)"

section \<open>Lemmas\<close>

lemma those_Some: "those xs = Some ys \<longleftrightarrow> xs = map Some ys"
  by (induction xs arbitrary: ys) (auto simp: map_eq_Cons_conv split: option.splits)

lemma those_map_Some:
  "those (map f xs) = Some ys \<longleftrightarrow> list_all2 (\<lambda>x y. f x = Some y) xs ys"
  by (auto simp: those_Some list_all2_conv_all_nth list_eq_iff_nth_eq)

text \<open>What every genesis built here satisfies.\<close>

definition genesis_ok :: "('acc, 'aura, 'grandpa) genesis_config \<Rightarrow> bool" where
  "genesis_ok g \<longleftrightarrow>
     sudo_key g \<in> fst ` set (genesis_balances g) \<and>
     (\<forall>(a, amount) \<in> set (genesis_balances g). ExistentialDeposit \<le> amount \<and> unat amount = 2 ^ 60) \<and>
     sum_list (map (unat \<circ> snd) (genesis_balances g)) < 2 ^ 128 \<and>
     length (aura_authorities g) = length (grandpa_authorities g) \<and> 0 < length (aura_authorities g) \<and>
     (\<forall>(k, weight) \<in> set (grandpa_authorities g). weight = 1)"

lemma testnet_genesis_ok:
  assumes "root \<in> set endowed" and "length endowed \<le> 2 ^ 60" and "auths \<noteq> []"
  shows "genesis_ok (testnet_genesis wasm auths root endowed p)"
proof -
  have "sum_list (map (unat \<circ> snd) (map (\<lambda>k. (k, push_bit 60 (1 :: u128))) endowed)) = length endowed * 2 ^ 60"
    by (simp add: comp_def push_bit_eq_mult sum_list_triv)
  also have "\<dots> \<le> 2 ^ 60 * 2 ^ 60" using assms(2) by (rule mult_le_mono1)
  also have "\<dots> < 2 ^ 128" by simp
  finally show ?thesis
    using assms(1,3)
    by (auto simp: genesis_ok_def testnet_genesis_def image_iff ExistentialDeposit_def push_bit_eq_mult comp_def)
qed

lemma endowed_member:
  assumes "those (map f xs) = Some ys" and "f x = Some y" and "x \<in> set xs"
  shows "y \<in> set ys"
  using assms by (auto simp: those_Some list_eq_iff_nth_eq in_set_conv_nth)

text \<open>C35: the specifications that the node builds itself (ids \<open>dev\<close>, empty and \<open>local\<close>): the account
  with administrator rights is Alice's and is funded, each of the four respectively twelve accounts
  gets \<open>2 ^ 60\<close>, at least the existential deposit, the issuance fits a balance, and there are as
  many block authorities as finality authorities, each of weight one.\<close>

theorem chain_spec_genesis:
  assumes "load_spec ks wasm reader spec = Inr cs" and "spec \<in> {''dev'', '''', ''local''}"
    and "spec_genesis cs = Some g"
  shows "get_account_id_from_seed ks ''Alice'' = Some (sudo_key g) \<and>
    length (genesis_balances g) = (if spec = ''dev'' then 4 else 12) \<and> genesis_ok g \<and>
    wasm = Some (system_code g) \<and> map Some (aura_authorities g) =
      map (get_from_seed (aura_from_string ks)) (if spec = ''dev'' then [''Alice''] else [''Alice'', ''Bob''])"
proof -
  let ?endowed = "if spec = ''dev'' then development_endowed else local_endowed"
  let ?auths = "if spec = ''dev'' then [''Alice''] else [''Alice'', ''Bob'']"
  have len: "length ?endowed = (if spec = ''dev'' then 4 else 12)"
    by (simp add: development_endowed_def local_endowed_def)
  have "\<exists>code authorities root accounts. wasm = Some code \<and>
      those (map (authority_keys_from_seed ks) ?auths) = Some authorities \<and>
      get_account_id_from_seed ks ''Alice'' = Some root \<and>
      those (map (get_account_id_from_seed ks) ?endowed) = Some accounts \<and>
      g = testnet_genesis code authorities root accounts True"
  proof (cases "spec = ''dev''")
    case True
    with assms show ?thesis
      by (auto simp: load_spec_def development_config_def bind_eq_Some_conv simp del: those.simps list.map
          split: option.splits)
  next
    case False
    with assms have "local_testnet_config ks wasm = Inr cs" by (auto simp: load_spec_def)
    with False assms(3) show ?thesis
      by (auto simp: local_testnet_config_def bind_eq_Some_conv simp del: those.simps list.map
          split: option.splits)
  qed
  then obtain code authorities root accounts where w: "wasm = Some code"
    and auths: "those (map (authority_keys_from_seed ks) ?auths) = Some authorities"
    and root: "get_account_id_from_seed ks ''Alice'' = Some root"
    and acc: "those (map (get_account_id_from_seed ks) ?endowed) = Some accounts"
    and g: "g = testnet_genesis code authorities root accounts True"
    by blast
  have a2: "list_all2 (\<lambda>x y. get_account_id_from_seed ks x = Some y) ?endowed accounts"
    using acc by (simp only: those_map_Some)
  then have la: "length accounts = (if spec = ''dev'' then 4 else 12)"
    using len list_all2_lengthD by metis
  have alice: "''Alice'' \<in> set ?endowed" by (simp add: development_endowed_def local_endowed_def)
  have "root \<in> set accounts"
    by (rule endowed_member [of "get_account_id_from_seed ks" ?endowed accounts "''Alice''" root, OF acc root alice])
  moreover have k2: "list_all2 (\<lambda>x y. authority_keys_from_seed ks x = Some y) ?auths authorities"
    using auths by (simp only: those_map_Some)
  then have "authorities \<noteq> []" by (auto split: if_splits)
  ultimately have "genesis_ok g" using la unfolding g by (intro testnet_genesis_ok) auto
  moreover have "map Some (map fst authorities) = map (get_from_seed (aura_from_string ks)) ?auths"
    using k2 by (auto simp: authority_keys_from_seed_def list_all2_Cons1 bind_eq_Some_conv split: if_splits)
  ultimately show ?thesis using root w la by (simp add: g testnet_genesis_def)
qed

text \<open>A keyring in which every string is its own key.\<close>

definition test_keyring :: "(string, string, string, string) keyring" where
  "test_keyring = \<lparr>aura_from_string = Some, grandpa_from_string = Some, sr25519_from_string = Some,
     public_into_account = id\<rparr>"

theorem chain_spec_genesis_witness:
  "\<exists>cs g. load_spec test_keyring (Some [0]) (\<lambda>_. Inl []) ''dev'' = Inr cs \<and> spec_genesis cs = Some g \<and>
     length (genesis_balances g) = 4 \<and> sudo_key g = ''//Alice''"
proof -
  have "\<exists>cs g. load_spec test_keyring (Some [0]) (\<lambda>_. Inl []) ''dev'' = Inr cs \<and> spec_genesis cs = Some g"
    by (simp add: load_spec_def development_config_def authority_keys_from_seed_def get_from_seed_def
        get_account_id_from_seed_def test_keyring_def development_endowed_def)
  then obtain cs g where "load_spec test_keyring (Some [0]) (\<lambda>_. Inl []) ''dev'' = Inr cs"
    "spec_genesis cs = Some g" by blast
  with chain_spec_genesis [OF this(1) _ this(2)] show ?thesis
    by (auto simp: get_account_id_from_seed_def get_from_seed_def test_keyring_def)
qed

end
