(* ===== verification/Version.thy ===== *)
theory Version
  imports Prelude
begin

text \<open>
  How the runtime and the node identify themselves: the version of the runtime, the checks that
  every signed extrinsic carries, the finality interface (\<open>runtime/src/lib.rs\<close>), and the
  answers of the command line about the node (\<open>node/src/command.rs\<close>). The list of API versions is
  generated by the build, the native executor's default and the types of proofs come from the
  framework; they are parameters.
\<close>

section \<open>The runtime\<close>

record 'api runtime_version =
  runtime_spec_name :: string
  runtime_impl_name :: string
  authoring_version :: u32
  spec_version :: u32
  runtime_impl_version :: u32
  apis :: 'api
  transaction_version :: u32

definition VERSION :: "'api \<Rightarrow> 'api runtime_version" where
  "VERSION RUNTIME_API_VERSIONS =
     \<lparr>runtime_spec_name = ''node-template'', runtime_impl_name = ''node-template'',
      authoring_version = 1, spec_version = 100, runtime_impl_version = 1,
      apis = RUNTIME_API_VERSIONS, transaction_version = 1\<rparr>"

record ('api, 'author) native_version_info =
  native_runtime :: "'api runtime_version"
  can_author_with :: 'author

definition native_version :: "'author \<Rightarrow> 'api \<Rightarrow> ('api, 'author) native_version_info" where
  "native_version default_author RUNTIME_API_VERSIONS =
     \<lparr>native_runtime = VERSION RUNTIME_API_VERSIONS, can_author_with = default_author\<rparr>"

text \<open>\<open>Core::version\<close> of the runtime API.\<close>

definition api_version :: "'api \<Rightarrow> 'api runtime_version" where
  "api_version RUNTIME_API_VERSIONS = VERSION RUNTIME_API_VERSIONS"

text \<open>The checks of a signed extrinsic, in the order of the tuple \<open>SignedExtra\<close>.\<close>

datatype signed_extension =
    CheckSpecVersion | CheckTxVersion | CheckGenesis | CheckEra | CheckNonce | CheckWeight
  | ChargeTransactionPayment

definition SignedExtra :: "signed_extension list" where
  "SignedExtra =
     [CheckSpecVersion, CheckTxVersion, CheckGenesis, CheckEra, CheckNonce, CheckWeight,
      ChargeTransactionPayment]"

text \<open>Equivocations of finality voters are not reported: both functions give nothing.\<close>

definition submit_report_equivocation :: "'proof \<Rightarrow> 'ownership \<Rightarrow> unit option" where
  "submit_report_equivocation equivocation_proof key_owner_proof = None"

definition generate_key_ownership_proof :: "u64 \<Rightarrow> 'authority \<Rightarrow> 'ownership option" where
  "generate_key_ownership_proof set_id authority_id = None"

section \<open>The node\<close>

definition cli_impl_name :: string where
  "cli_impl_name = ''Substrate Node''"

definition cli_support_url :: string where
  "cli_support_url = ''support.anonymous.an''"

definition cli_copyright_start_year :: int where
  "cli_copyright_start_year = 2017"

definition native_runtime_version :: "'spec \<Rightarrow> 'api \<Rightarrow> 'api runtime_version" where
  "native_runtime_version spec RUNTIME_API_VERSIONS = VERSION RUNTIME_API_VERSIONS"

text \<open>The node, its executor and the API report one and the same version, whatever the chain.\<close>

lemma one_version:
  "native_runtime_version spec api = api_version api"
  "native_runtime (native_version author api) = api_version api"
  by (simp_all add: native_runtime_version_def native_version_def api_version_def)

end
