(* ===== verification/Service.thy ===== *)
theory Service
  imports Prelude
begin

text \<open>
  How the node starts (\<open>node/src/service.rs\<close>, \<open>rpc.rs\<close>, \<open>command.rs\<close>, \<open>cli.rs\<close>). The Substrate
  client libraries that do the work are not part of the repository; what the repository decides is
  which of their operations run, in which order, with which options, and that the first one that
  fails ends the start. An operation is a \<open>service_step\<close> with the options the code passes; the
  clones of shared handles (client, pool, network) that the code threads from one to the next are
  left out. Which steps fail, and how, is the parameter \<open>fails\<close>.
\<close>

section \<open>Operations of the client libraries\<close>

datatype can_author = CanAuthorWithNativeVersion | NeverCanAuthor

text \<open>The RPC extensions of a node, in the order they are merged.\<close>

datatype rpc_api = SystemApi | TransactionPaymentApi | QuadraticFundingApi

definition create_full :: "rpc_api list" where
  "create_full = [SystemApi, TransactionPaymentApi, QuadraticFundingApi]"

record grandpa_config =
  gossip_duration_ms :: nat
  justification_period :: u32
  grandpa_name :: string
  observer_enabled :: bool
  grandpa_keystore :: bool
  grandpa_is_authority :: bool

datatype service_step =
    NewFullParts
  | NewLightParts
  | LongestChain
  | NewFullPool
  | NewLightPool
  | GrandpaBlockImport
  | GrandpaLightBlockImport
  | FinalityProofRequestBuilder
  | NewAuraBlockImport
  | SlotDuration
  | AuraImportQueue (justification_import: bool) (finality_proof_import: bool) (authoring: can_author)
  | FinalityProofProvider
  | BuildNetwork (network_on_demand: bool) (proof_request_builder: bool)
  | BuildOffchainWorkers
  | SpawnTasks (rpc_extensions: "rpc_api list") (tasks_on_demand: bool) (remote_blockchain: bool)
  | NewProposerFactory
  | StartAura (force: bool)
  | RunGrandpaVoter grandpa_config
  | SetupDisabledGrandpa
  | SpawnEssential string
  | StartNetwork

text \<open>The operations that the code calls with \<open>?\<close>.\<close>

fun fallible :: "service_step \<Rightarrow> bool" where
  "fallible NewFullParts = True"
| "fallible NewLightParts = True"
| "fallible GrandpaBlockImport = True"
| "fallible GrandpaLightBlockImport = True"
| "fallible SlotDuration = True"
| "fallible (AuraImportQueue _ _ _) = True"
| "fallible (BuildNetwork _ _) = True"
| "fallible (SpawnTasks _ _ _) = True"
| "fallible (StartAura _) = True"
| "fallible (RunGrandpaVoter _) = True"
| "fallible SetupDisabledGrandpa = True"
| "fallible _ = False"

section \<open>The three services\<close>

text \<open>The part of \<open>Configuration\<close> that the code reads; the role answers three questions.\<close>

record configuration =
  is_light :: bool
  is_authority :: bool
  is_network_authority :: bool
  offchain_worker_enabled :: bool
  force_authoring :: bool
  node_name :: string
  disable_grandpa :: bool

definition new_partial :: "configuration \<Rightarrow> service_step list" where
  "new_partial config =
     [NewFullParts, LongestChain, NewFullPool, GrandpaBlockImport, NewAuraBlockImport, SlotDuration,
      AuraImportQueue True False CanAuthorWithNativeVersion]"

definition full_grandpa_config :: "configuration \<Rightarrow> grandpa_config" where
  "full_grandpa_config config =
     \<lparr>gossip_duration_ms = 333, justification_period = 512, grandpa_name = node_name config,
      observer_enabled = False, grandpa_keystore = is_authority config,
      grandpa_is_authority = is_network_authority config\<rparr>"

definition new_full :: "configuration \<Rightarrow> service_step list" where
  "new_full config =
     (let enable_grandpa = \<not> disable_grandpa config in
      new_partial config @
      [FinalityProofProvider, BuildNetwork False False] @
      (if offchain_worker_enabled config then [BuildOffchainWorkers] else []) @
      [SpawnTasks create_full False False] @
      (if is_authority config
       then [NewProposerFactory, SlotDuration, StartAura (force_authoring config), SpawnEssential ''aura'']
       else []) @
      (if enable_grandpa
       then [RunGrandpaVoter (full_grandpa_config config), SpawnEssential ''grandpa-voter'']
       else [SetupDisabledGrandpa]) @
      [StartNetwork])"

definition new_light :: "configuration \<Rightarrow> service_step list" where
  "new_light config =
     [NewLightParts, NewLightPool, GrandpaLightBlockImport, FinalityProofRequestBuilder, SlotDuration,
      AuraImportQueue False True NeverCanAuthor, FinalityProofProvider, BuildNetwork True True] @
     (if offchain_worker_enabled config then [BuildOffchainWorkers] else []) @
     [SpawnTasks [] True True, StartNetwork]"

section \<open>Running a plan\<close>

text \<open>The steps that were done, and the error of the first that failed.\<close>

fun run_plan :: "('a \<Rightarrow> bool) \<Rightarrow> ('a \<Rightarrow> 'err option) \<Rightarrow> 'a list \<Rightarrow> 'a list \<times> 'err option" where
  "run_plan may_fail fails [] = ([], None)"
| "run_plan may_fail fails (x # xs) =
     (case (if may_fail x then fails x else None) of
        Some e \<Rightarrow> ([], Some e)
      | None \<Rightarrow> (let (completed, err) = run_plan may_fail fails xs in (x # completed, err)))"

section \<open>Commands\<close>

datatype Subcommand =
    BuildSpec | CheckBlock | ExportBlocks | ExportState | ImportBlocks | PurgeChain | Revert | Benchmark

datatype command_step =
    CreateRunner
  | ServiceStep service_step
  | RunCommand Subcommand
  | BenchmarkDisabled

definition run_service :: "(configuration \<Rightarrow> service_step list) \<Rightarrow> configuration \<Rightarrow> command_step list" where
  "run_service service config = map ServiceStep (service config)"

text \<open>\<open>run\<close>: what the command line leads to; \<open>benchmarks\<close> is the feature of the build.\<close>

fun run_command :: "bool \<Rightarrow> Subcommand option \<Rightarrow> configuration \<Rightarrow> command_step list" where
  "run_command benchmarks (Some BuildSpec) config = [CreateRunner, RunCommand BuildSpec]"
| "run_command benchmarks (Some CheckBlock) config =
     [CreateRunner] @ run_service new_partial config @ [RunCommand CheckBlock]"
| "run_command benchmarks (Some ExportBlocks) config =
     [CreateRunner] @ run_service new_partial config @ [RunCommand ExportBlocks]"
| "run_command benchmarks (Some ExportState) config =
     [CreateRunner] @ run_service new_partial config @ [RunCommand ExportState]"
| "run_command benchmarks (Some ImportBlocks) config =
     [CreateRunner] @ run_service new_partial config @ [RunCommand ImportBlocks]"
| "run_command benchmarks (Some PurgeChain) config = [CreateRunner, RunCommand PurgeChain]"
| "run_command benchmarks (Some Revert) config =
     [CreateRunner] @ run_service new_partial config @ [RunCommand Revert]"
| "run_command benchmarks (Some Benchmark) config =
     (if benchmarks then [CreateRunner, RunCommand Benchmark] else [BenchmarkDisabled])"
| "run_command benchmarks None config =
     [CreateRunner] @ run_service (if is_light config then new_light else new_full) config"

text \<open>Creating the runner, the services and the commands may fail; benchmarking without the feature does.\<close>

fun command_fallible :: "command_step \<Rightarrow> bool" where
  "command_fallible (ServiceStep x) = fallible x"
| "command_fallible _ = True"

definition command_fails :: "'err \<Rightarrow> (command_step \<Rightarrow> 'err option) \<Rightarrow> command_step \<Rightarrow> 'err option" where
  "command_fails disabled fails x = (if x = BenchmarkDisabled then Some disabled else fails x)"

section \<open>Lemmas\<close>

lemma run_plan_prefix:
  "\<exists>rest. xs = fst (run_plan may_fail fails xs) @ rest \<and> (snd (run_plan may_fail fails xs) = None \<longleftrightarrow> rest = [])"
  by (induction xs) (auto split: option.split prod.split)

lemma run_plan_last:
  assumes "x \<notin> set xs"
  shows "x \<in> set (fst (run_plan may_fail fails (xs @ [x]))) \<longleftrightarrow> snd (run_plan may_fail fails (xs @ [x])) = None"
  using assms by (induction xs) (auto split: option.split prod.split)

lemma network_last:
  "\<exists>xs. new_full config = xs @ [StartNetwork] \<and> StartNetwork \<notin> set xs"
  "\<exists>xs. new_light config = xs @ [StartNetwork] \<and> StartNetwork \<notin> set xs"
proof -
  show "\<exists>xs. new_full config = xs @ [StartNetwork] \<and> StartNetwork \<notin> set xs"
    by (rule exI [of _ "butlast (new_full config)"])
      (auto simp: new_full_def new_partial_def Let_def butlast_append)
  show "\<exists>xs. new_light config = xs @ [StartNetwork] \<and> StartNetwork \<notin> set xs"
    by (rule exI [of _ "butlast (new_light config)"]) (auto simp: new_light_def butlast_append)
qed

lemma network_iff_ok:
  "StartNetwork \<in> set (fst (run_plan fallible fails (new_full config))) \<longleftrightarrow>
     snd (run_plan fallible fails (new_full config)) = None"
  "StartNetwork \<in> set (fst (run_plan fallible fails (new_light config))) \<longleftrightarrow>
     snd (run_plan fallible fails (new_light config)) = None"
  using network_last [of config] run_plan_last by metis+

text \<open>Benchmarking without the feature is refused with the message of the build.\<close>

lemma benchmark_disabled:
  "run_plan command_fallible (command_fails msg fails) (run_command False (Some Benchmark) config)
     = ([], Some msg)"
  by (simp add: command_fails_def)

end
