(* ===== verification/Mock.thy ===== *)
theory Mock
  imports QF_Test
begin

text \<open>
  The mock runtimes that the pallets' unit tests run on (\<open>mock.rs\<close> of both pallets): constants,
  balances at genesis, and the configurations of the pallets. Accounts and balances have 64 bits
  there, while the pallets are modelled at the runtime's 128 bits; the currency and the derivation
  of accounts come from the framework and are parameters of the configurations. The last section
  relates them to the concrete runtime of the witnesses.
\<close>

section \<open>Constants\<close>

definition mock_BlockHashCount :: u64 where "mock_BlockHashCount = 250"
definition mock_MaximumBlockWeight :: u64 where "mock_MaximumBlockWeight = 1024"
definition mock_MaximumBlockLength :: u32 where "mock_MaximumBlockLength = 2 * 1024"
definition mock_ExistentialDeposit :: u64 where "mock_ExistentialDeposit = 1"

definition mock_MolochV1ModuleId :: string where "mock_MolochV1ModuleId = ''py/moloc''"
definition mock_MaxVotingPeriodLength :: u128 where "mock_MaxVotingPeriodLength = 100000000"
definition mock_MaxGracePeriodLength :: u128 where "mock_MaxGracePeriodLength = 100000000"
definition mock_MaxDilutionBound :: u128 where "mock_MaxDilutionBound = 100000000"
definition mock_MaxShares :: u128 where "mock_MaxShares = 100000000"

definition mock_VoteUnit :: u128 where "mock_VoteUnit = 1"
definition mock_NumberOfUnit :: u128 where "mock_NumberOfUnit = 100"
definition mock_FeeRatio :: u128 where "mock_FeeRatio = 5"
definition mock_QuadraticFundingModuleId :: string where "mock_QuadraticFundingModuleId = ''py/quafd''"
definition mock_NameMinLength :: nat where "mock_NameMinLength = 3"
definition mock_NameMaxLength :: nat where "mock_NameMaxLength = 32"

lemmas mock_constants =
  mock_MolochV1ModuleId_def mock_MaxVotingPeriodLength_def mock_MaxGracePeriodLength_def
  mock_MaxDilutionBound_def mock_MaxShares_def mock_VoteUnit_def mock_NumberOfUnit_def mock_FeeRatio_def
  mock_QuadraticFundingModuleId_def mock_NameMinLength_def mock_NameMaxLength_def

section \<open>Genesis\<close>

text \<open>\<open>new_test_ext\<close> of the Moloch pallet and of the quadratic-funding pallet.\<close>

definition mock_moloch_balances :: "(u64 \<times> u64) list" where
  "mock_moloch_balances = [(0, 1000), (1, 2000), (2, 3000), (3, 4000)]"

definition mock_qf_balances :: "(u64 \<times> u64) list" where
  "mock_qf_balances = [(0, 1000), (1, 2000), (2, 3000), (3, 4000)]"

section \<open>Configurations\<close>

definition mock_admin :: "'acc origin \<Rightarrow> bool" where
  "mock_admin og = (case og of Root \<Rightarrow> True | _ \<Rightarrow> False)"

definition mock_moloch ::
  "('acc, 'l) currency \<Rightarrow> (string \<Rightarrow> 'acc) \<Rightarrow> (string \<Rightarrow> string \<Rightarrow> 'acc) \<Rightarrow> 'acc \<Rightarrow> bool
     \<Rightarrow> ('acc, 'l) moloch_config" where
  "mock_moloch cur account sub_account dflt checks =
     \<lparr>currency = cur, ModuleId = mock_MolochV1ModuleId, into_account = account,
      into_sub_account = sub_account, default_account = dflt, overflow_checks = checks,
      MaxVotingPeriodLength = mock_MaxVotingPeriodLength, MaxGracePeriodLength = mock_MaxGracePeriodLength,
      MaxDilutionBound = mock_MaxDilutionBound, MaxShares = mock_MaxShares\<rparr>"

definition mock_qf ::
  "('acc, 'l) currency \<Rightarrow> (string \<Rightarrow> 'acc) \<Rightarrow> (string \<Rightarrow> string \<Rightarrow> 'acc) \<Rightarrow> 'acc \<Rightarrow> bool
     \<Rightarrow> ('h \<times> u32 \<Rightarrow> 'h) \<Rightarrow> ((u32 \<times> 'h \<rightharpoonup> 'acc Project) \<Rightarrow> u32 \<Rightarrow> 'h list) \<Rightarrow> ('acc, 'h, 'l) qf_config" where
  "mock_qf cur account sub_account dflt checks hashing keys =
     \<lparr>currency = cur, ModuleId = mock_QuadraticFundingModuleId, into_account = account,
      into_sub_account = sub_account, default_account = dflt, overflow_checks = checks,
      AdminOrigin = mock_admin, UnitOfVote = mock_VoteUnit, NumberOfUnitPerVote = mock_NumberOfUnit,
      FeeRatioPerVote = mock_FeeRatio, NameMinLength = mock_NameMinLength,
      NameMaxLength = mock_NameMaxLength, hash_of = hashing, prefix_keys = keys\<rparr>"

text \<open>The constants of the mock runtimes meet what the pallets need, as those of the runtime do.\<close>

lemma mock_prices_ok: "prices_ok (mock_qf cur account sub_account dflt checks hashing keys)"
  by (simp add: prices_ok_def mock_qf_def mock_constants)

lemma mock_limits:
  "0 < MaxShares (mock_moloch cur account sub_account dflt checks)"
  "unat (MaxShares (mock_moloch cur account sub_account dflt checks)) *
     unat (MaxDilutionBound (mock_moloch cur account sub_account dflt checks)) < 2 ^ 128"
  by (simp_all add: mock_moloch_def mock_constants)

section \<open>The runtime of the witnesses\<close>

text \<open>It is the mock runtime on the concrete ledger, with the balances of its genesis.\<close>

lemma test_moloch_mock:
  "test_moloch c = mock_moloch test_currency (\<lambda>_. 100) (\<lambda>_ _. 101) 0 c"
  by (simp add: test_moloch_def mock_moloch_def mock_constants)

lemma test_qf_mock:
  "test_qf c = mock_qf test_currency (\<lambda>_. 200) (\<lambda>_ _. 201) 0 c (\<lambda>(h, r). h * 2 ^ 32 + unat r) test_keys"
  by (auto simp: test_qf_def mock_qf_def mock_constants mock_admin_def fun_eq_iff split: origin.split)

lemma test_balances_mock:
  "test_balances = fold (\<lambda>(a, v) l. l(unat a := ucast v)) mock_moloch_balances (\<lambda>_. 0)"
  "mock_qf_balances = mock_moloch_balances"
  by (simp_all add: test_balances_def mock_moloch_balances_def mock_qf_balances_def fun_upd_twist)

lemma test_currency_deposit: "minimum_balance test_currency = ucast mock_ExistentialDeposit"
  by (simp add: test_currency_def mock_ExistentialDeposit_def)

end
