(* ===== verification/Unit_Tests.thy ===== *)
theory Unit_Tests
  imports QF_Test Moloch_Props
begin

text \<open>
  The unit tests of the two pallets (\<open>pallets/moloch-v1/src/tests.rs\<close> and
  \<open>pallets/quadratic-funding/src/tests.rs\<close>), evaluated in the model on the test runtime: the
  definitions behave on these inputs the way the tests say the code behaves.
\<close>

section \<open>Moloch\<close>

text \<open>\<open>summon_works\<close>\<close>

lemma summon_works:
  "\<exists>s. test_summoned c (moloch_init test_balances) = Ok s \<and> PeriodDuration s = 10 \<and>
     VotingPeriodLength s = 2 \<and> GracePeriodLength s = 2 \<and> AbortWindow s = 1 \<and> DilutionBound s = 1 \<and>
     ProposalDeposit s = 100 \<and> ProcessingReward s = 50 \<and> TotalShares s = 1 \<and>
     exists (member_of (test_moloch c) s 1)"
  by (simp add: test_summoned_def moloch_eval rust_eval Let_def)

text \<open>\<open>submit_proposal_works\<close>: without custody nothing is written, with custody the event reports it.\<close>

lemma submit_proposal_works:
  "\<exists>s. test_summoned c (moloch_init test_balances) = Ok s \<and>
     submit_proposal (test_moloch c) 0 (Signed 1) 2 50 5 info s = Err (Module NoCustodyFound) s \<and>
     (\<exists>t. and_then (custody (test_moloch c) (Signed 2) 50 s)
            (submit_proposal (test_moloch c) 0 (Signed 1) 2 50 5 info) = Ok t \<and>
        last (moloch_events t) = SubmitProposal 0 1 1 2 50 5)"
  by (simp add: test_summoned_def and_then_def moloch_eval rust_eval Let_def)

text \<open>\<open>add_member_works\<close> is lemma \<open>test_add_member_works\<close>.\<close>

section \<open>Quadratic funding\<close>

text \<open>\<open>round_control_works\<close>\<close>

lemma round_control_works:
  "start_round (test_qf c) (Signed 1) 1 (qf_init test_balances) = Err BadOrigin (qf_init test_balances) \<and>
   (\<exists>s. start_round (test_qf c) Root 1 (qf_init test_balances) = Ok s \<and>
      end_round (test_qf c) (Signed 1) 1 s = Err BadOrigin s \<and>
      (\<exists>t. end_round (test_qf c) Root 1 s = Ok t))"
  by (simp add: qf_eval rust_eval)

text \<open>\<open>register_project_works\<close>\<close>

lemma register_project_works:
  "\<exists>s. and_then (start_round (test_qf c) Root 1 (qf_init test_balances))
         (register_project (test_qf c) (Signed 1) 1 1 test_title) = Ok s \<and>
     name (projects (test_qf c) s 1 1) = test_title \<and>
     register_project (test_qf c) (Signed 1) 1 1 test_title s = Err (Module DuplicateProject) s \<and>
     bank s 0 = 1000"
  by (simp add: qf_eval rust_eval test_title_def)

text \<open>\<open>donate_works\<close>\<close>

lemma donate_works:
  "\<exists>s. and_then (start_round (test_qf c) Root 1 (qf_init test_balances))
         (donate (test_qf c) (Signed 0) 1 500) = Ok s \<and>
     bank s 0 = 500 \<and> bank s (qf_account_id (test_qf c)) = 500 \<and>
     pre_tax_support_pool (rounds s 1) = 500 \<and> total_tax (rounds s 1) = 25 \<and>
     support_pool (rounds s 1) = 475"
  by (simp add: qf_eval rust_eval)

text \<open>The body of the loops: account \<open>i\<close> registers project \<open>i\<close>, and accounts vote for it.\<close>

definition register_and_vote :: "nat \<Rightarrow> (nat \<times> u128) list \<Rightarrow> (nat, nat) qf_extrinsic list" where
  "register_and_vote i votes =
     \<lparr>qf_origin = Signed i, qf_the_call = RegisterProjectCall 1 i test_title\<rparr> #
     map (\<lambda>(j, b). \<lparr>qf_origin = Signed j, qf_the_call = VoteCall 1 i b\<rparr>) votes"

lemmas unit_eval = register_and_vote_def qf_dispatch_def qf_eval rust_eval test_title_def

text \<open>\<open>vote_without_fund_works\<close>: votes for one's own project only cost, and give no support.\<close>

lemma pay_projects_no_area: "\<exists>t. pay_projects cfg 0 pool items s = Ok t"
  by (induction items arbitrary: s) (auto simp: final_grants_def qf_u128_to_balance)

lemma end_round_no_area:
  assumes "AdminOrigin cfg og" and "Rounds s r = Some rnd" and "ongoing rnd" and "total_support_area rnd = 0"
  shows "\<exists>t. end_round cfg og r s = Ok t \<and> total_support_area (rounds t r) = 0"
  using pay_projects_no_area [of cfg "support_pool rnd" "iter_prefix cfg s r" s] assms
  by (auto simp: end_round_def qf_ensure_admin_def rounds_def contains_key_def map_get_def map_insert_def
      and_then_def Let_def qf_deposit_event_def)

lemma vote_without_fund_works:
  "\<exists>s. all_ok (qf_dispatch (test_qf c))
         (\<lparr>qf_origin = Root, qf_the_call = StartRoundCall 1\<rparr> #
          register_and_vote 1 [(1, 3)] @ register_and_vote 2 [(2, 3)] @ register_and_vote 3 [(3, 3)])
         (qf_init test_balances) = Ok s \<and>
     bank s 1 = 2000 - 600 \<and> bank s 2 = 3000 - 600 \<and> bank s 3 = 4000 - 600 \<and>
     (\<exists>t. end_round (test_qf c) Root 1 s = Ok t \<and> total_support_area (rounds t 1) = 0)"
proof -
  obtain s where "all_ok (qf_dispatch (test_qf c))
         (\<lparr>qf_origin = Root, qf_the_call = StartRoundCall 1\<rparr> #
          register_and_vote 1 [(1, 3)] @ register_and_vote 2 [(2, 3)] @ register_and_vote 3 [(3, 3)])
         (qf_init test_balances) = Ok s" "bank s 1 = 1400" "bank s 2 = 2400" "bank s 3 = 3400"
    "Rounds s 1 = Some (new_round\<lparr>total_tax := 90\<rparr>)"
    by (cases c) (simp_all add: unit_eval)
  moreover have "AdminOrigin (test_qf c) Root" by (simp add: test_qf_def)
  ultimately show ?thesis
    using end_round_no_area [of "test_qf c" Root s 1 "new_round\<lparr>total_tax := 90\<rparr>"]
    by (auto simp: new_round_def)
qed

text \<open>\<open>vote_with_fund_works\<close>: everybody votes for every project; the areas are 3, 3 and 12.\<close>

lemma vote_with_fund_works:
  "\<exists>s. all_ok (qf_dispatch (test_qf c))
         (\<lparr>qf_origin = Root, qf_the_call = StartRoundCall 1\<rparr> #
          \<lparr>qf_origin = Signed 0, qf_the_call = DonateCall 1 500\<rparr> #
          register_and_vote 1 [(1, 1), (2, 1), (3, 1)] @ register_and_vote 2 [(1, 1), (2, 1), (3, 1)] @
          register_and_vote 3 [(1, 2), (2, 2), (3, 2)])
         (qf_init test_balances) = Ok s \<and>
     support_area (projects (test_qf c) s 1 1) = 3 \<and> support_area (projects (test_qf c) s 1 3) = 12 \<and>
     total_support_area (rounds s 1) = 18"
  by (cases c) (simp_all add: unit_eval)

end
