(* ===== verification/Spec2Isabelle.thy ===== *)
theory Spec2Isabelle
  imports Moloch_Findings Moloch_Block Moloch_Panic Moloch_Delegates Moloch_Ledger
    QF_Props QF_Rounds QF_Life QF_Findings QF_Panic QF_Ledger
    Runtime_Supply Runtime_Rounds Multiaddress Rpc Chain_Spec Version Service Mock Unit_Tests
begin

text \<open>
  \<^bold>\<open>The program.\<close> The repository is a Substrate node with two pallets. The Moloch pallet
  (\<open>pallets/moloch-v1\<close>) is an organisation: members hold shares, propose new members against a
  tribute, vote in periods, and leave with their part of a guild bank (\<open>ragequit\<close>). The
  quadratic-funding pallet (\<open>pallets/quadratic-funding\<close>) collects donations for a round, sells votes
  for projects at a quadratic price, and divides the pool among the projects when the round ends.
  The runtime (\<open>runtime\<close>) puts both on one ledger; the node (\<open>node\<close>) starts it and serves the RPC.

  \<^bold>\<open>The theories, from the bottom.\<close>

    \<^item> \<open>Prelude\<close>: Rust's integers as words, with \<open>checked_add\<close> and its relatives returning an option
      and the plain operators \<open>plain_add\<close>, \<open>plain_sub\<close> that panic or wrap around according to the
      build profile; sums over lists and maps.
    \<^item> \<open>Frame\<close>: what both pallets use of the framework. A dispatchable returns an \<open>outcome\<close>: \<open>Ok\<close> with
      the new state, \<open>Err\<close> with the error and whatever was written before it, or \<open>Panic\<close>. Storage maps
      are maps with the interface \<open>storage_map\<close>; a pallet is an instance of the locale \<open>pallet\<close> (it
      keeps an invariant, and an error has written nothing), from which facts about runs follow, such as
      recounts of stored amounts from the successful calls (\<open>over_run\<close>) and budgets of debts against funds;
      \<open>bystander_pallet\<close> extends it by the promise not to take from uninvolved accounts.
    \<^item> \<open>Moloch_State\<close>, \<open>Moloch_Ops\<close>: storage, configuration, genesis and the eight dispatchables of
      \<open>pallets/moloch-v1/src/lib.rs\<close> under their own names, and the dispatch over calls.
      \<open>Moloch_Inv\<close>, \<open>Moloch_Preserve\<close>: the invariant, what each successful call did (rules named
      \<open>summonE\<close>, \<open>ragequitE\<close> and so on), preservation, and the interpretation \<open>mol\<close>.
      \<open>Moloch_Props\<close>, \<open>Moloch_Rights\<close>, \<open>Moloch_Delegates\<close>, \<open>Moloch_Ledger\<close>, \<open>Moloch_Phase\<close>,
      \<open>Moloch_Drain\<close>, \<open>Moloch_Panic\<close>: the properties; \<open>Moloch_Delegates\<close> says who acts for a member,
      \<open>Moloch_Ledger\<close> where every share comes from, \<open>Moloch_Phase\<close> has the state machine of a
      proposal and its refinement, \<open>Moloch_Drain\<close> exactly when the queue can be processed to its end, \<open>Moloch_Panic\<close> when a call does not return. \<open>Moloch_Block\<close> and
      \<open>Moloch_Findings\<close>: departures from the intent.
    \<^item> \<open>QF_State\<close>, \<open>QF_Ops\<close>: the same for \<open>pallets/quadratic-funding/src/lib.rs\<close>, with the two views of
      the runtime API. \<open>QF_Inv\<close>, \<open>QF_Preserve\<close>, \<open>QF_Votes\<close>: invariant and preservation, the heart of
      which is that the running tallies of \<open>vote\<close> are functions of the stored ballots.
      \<open>QF_Solvency\<close>, \<open>QF_Payout\<close>: what the pallet owes and what \<open>end_round\<close> pays. \<open>QF_Phase\<close>: the state
      machine of a round. \<open>QF_Props\<close>, \<open>QF_Rounds\<close>, \<open>QF_Life\<close>, \<open>QF_Panic\<close>, \<open>QF_Ledger\<close>,
      \<open>QF_Findings\<close>: the properties; \<open>QF_Ledger\<close> traces every record back to the calls it is owed to.
    \<^item> \<open>Runtime\<close>, \<open>Runtime_Props\<close>: \<open>runtime/src/lib.rs\<close>: constants, the list of pallets, the genesis that
      follows from it, the configurations of the two pallets, the composed state and dispatch, and
      properties of mixed runs. \<open>Runtime_Supply\<close>: the ledgers that transfers can reach, and the sum of
      all balances. \<open>Runtime_Rounds\<close>: ending all open rounds. \<open>Version\<close>: how runtime and node
      identify themselves. \<open>Multiaddress\<close>: \<open>runtime/src/multiaddress.rs\<close>, with the lookup as an
      interface. \<open>Rpc\<close>: \<open>pallets/quadratic-funding/rpc\<close>. \<open>Chain_Spec\<close>: \<open>node/src/chain_spec.rs\<close>.
      \<open>Service\<close>: \<open>node/src/service.rs\<close>, \<open>rpc.rs\<close>, \<open>command.rs\<close> and \<open>cli.rs\<close> as plans of library calls.
    \<^item> \<open>Test_Env\<close>, \<open>QF_Test\<close>, \<open>Mock\<close>, \<open>Unit_Tests\<close>: a concrete ledger and configuration, on which the
      witnesses run, the mock runtimes it is an instance of, and the unit tests of both pallets
      evaluated in the model.

  \<^bold>\<open>State and runs.\<close> The state of a pallet is a record with one field per storage item, extended by
  the ledger and the events. Extrinsics are applied one after the other by \<open>apply_extrinsics\<close>: an
  error keeps what was written, a panic discards it. Values have the width of the code (shares and
  balances 128 bits, times 64, rounds 32). Every loop of the code goes over a list that is at hand
  and is a structural recursion, so there is no fuel and every definition is total; a call that does
  not return normally is the outcome \<open>Panic\<close>, and properties that say a call succeeds exclude it.

  \<^bold>\<open>Parameters and hypotheses.\<close> The balances pallet is the record \<open>currency\<close> with \<open>lawful_currency\<close>: a
  transfer that fails changes nothing, one that succeeds credits the amount and touches nobody else,
  and with \<open>KeepAlive\<close> debits exactly the amount. Two properties need more of it: \<open>keeps_alive\<close>
  says that with \<open>KeepAlive\<close> the source keeps the minimum balance, \<open>pays_out\<close> when a transfer out of an
  account without locks succeeds. The iteration over a storage prefix lists every
  key once (\<open>lawful_iteration\<close>). The derivation of accounts from module ids and the hash function are
  arbitrary; \<open>accounts_distinct\<close> and \<open>no_collision\<close> say where different inputs must give different
  results. \<open>overflow_checks\<close> is the build profile; properties hold for both values unless they name
  it. \<open>prices_ok\<close> relates the constants of quadratic funding and is proved for the runtime's.
  \<open>first_summon\<close> restricts runs to those that summon only an empty organisation, \<open>funded\<close> to those
  whose donations and votes are really paid; what happens without them is stated separately
  (in \<open>Moloch_Ledger\<close>, \<open>Moloch_Findings\<close>, \<open>Runtime_Props\<close> and \<open>QF_Findings\<close>).
  Each property with hypotheses is followed by a theorem that applies it to a concrete run.

  \<^bold>\<open>What is shown.\<close> For Moloch: the invariant over runs (the total of shares is the sum of the
  members' shares, the queue is processed from the front), an exact account of each member's shares,
  minting and burning, the verdict of a vote, one vote per member, no vote without the member's
  consent, the lock on leaving, fairness to those who stay, exactly when the queue of proposals can be
  emptied once their periods are over, the causes of a panic, the life cycle of a proposal and what
  is final about a processed one. For quadratic funding: tallies equal a recount of the ballots and of
  the calls, records that only the right accounts can bring about, price of votes, solvency of the
  pallet's account, bounds, exactness and completion of the distribution, the exact outcome of a
  vote, the life cycle of a round and the views. For the runtime: both invariants under mixed runs,
  a budget of the funding account that accounts for what was not paid, no loss for uninvolved accounts, no creation of money, rounds that can all be ended,
  and errors that write nothing. For the node: the genesis it builds and the answers of its RPC;
  the plans of its start are modelled, but no property is claimed of them.

  \<^bold>\<open>Where the code departs from its intent\<close> (\<open>Moloch_Findings\<close>, \<open>Moloch_Block\<close>, \<open>Moloch_Panic\<close>,
  \<open>QF_Findings\<close>, \<open>Runtime\<close>): results of
  transfers are thrown away, so that custody and votes count without payment and the last member to
  leave is not paid; unchecked subtraction in \<open>process_proposal\<close> lets a release build process
  proposals before they were voted on; an applicant can be refunded twice, and can block the queue
  by lowering its custody record; large requests for shares or ballots, and processing too early,
  panic instead of returning an error; a second \<open>summon\<close> resets
  the total of shares and reopens processed proposals, whose tribute can then be refunded once more; a period of length zero blocks the organisation; replaced delegate keys stay
  valid; deposits are divided among leaving members; and the genesis code of the pallets is not run.

  \<^bold>\<open>Not modelled.\<close> The framework itself: balances, timestamp, sudo, aura, grandpa, transaction
  payment, weights and fees, what the signed extensions check, the SCALE codec and the macros'
  generated code; the impl blocks that only name framework types, and the runtime APIs that only
  forward to the framework. In \<open>service.rs\<close>, the handles passed between the client libraries. Of the
  mock runtimes, the configurations of framework pallets; their balances have 64 bits, where the model
  of the pallets follows the runtime with 128. Finally the benchmarks' list of storage keys, and the
  build scripts.
\<close>

end
